(* ===== verification/Prelude.thy ===== *)
theory Prelude
  imports Main "HOL-Library.Word" "HOL-Library.Sublist" "HOL-Library.Monad_Syntax"
begin

text \<open>
  What the components share: the names of the machine types, the string operations of the
  C++ standard library the program calls (\<open>find\<close>, \<open>starts_with\<close>, \<open>strnlen\<close>,
  \<open>std::format\<close> of an unsigned number, \<open>std::from_chars\<close>), and the lemmas about them.
  A \<open>std::string\<close> is a \<^typ>\<open>string\<close>: a list of \<^typ>\<open>char\<close>, one per byte.
\<close>

named_theorems str_simps \<comment> \<open>rewrite rules for the string operations\<close>
named_theorems session_simps \<comment> \<open>what each session operation does to each field\<close>
named_theorems layout_simps \<comment> \<open>lengths and field reads of the event layouts\<close>

type_synonym u8 = "8 word"
type_synonym u16 = "16 word"
type_synonym u32 = "32 word"
type_synonym u64 = "64 word"

abbreviation NUL :: char where "NUL \<equiv> CHR 0x00"
abbreviation LF :: char where "LF \<equiv> CHR 0x0A"
abbreviation CR :: char where "CR \<equiv> CHR 0x0D"
abbreviation SP :: char where "SP \<equiv> CHR 0x20"

section \<open>Characters and bytes\<close>

definition char_of_u8 :: "u8 \<Rightarrow> char" where
  "char_of_u8 b = char_of (unat b)"

definition u8_of_char :: "char \<Rightarrow> u8" where
  "u8_of_char c = word_of_nat (of_char c)"

lemma char_of_u8_inverse [simp]: "char_of_u8 (u8_of_char c) = c"
proof -
  have "(of_char c :: nat) < 256"
    by (metis of_char_mod_256 mod_less_divisor zero_less_numeral)
  then have "unat (word_of_nat (of_char c) :: u8) = of_char c"
    by (simp add: unat_of_nat)
  then show ?thesis by (simp add: char_of_u8_def u8_of_char_def)
qed

lemma u8_of_char_inverse [simp]: "u8_of_char (char_of_u8 b) = b"
proof -
  have "unat b < 256" using unsigned_less [of b, where ?'a = nat] by simp
  then have "(of_char (char_of (unat b)) :: nat) = unat b" by simp
  then show ?thesis by (simp add: char_of_u8_def u8_of_char_def)
qed

section \<open>Prefixes, single characters, substrings\<close>

text \<open>\<open>s.starts_with(p)\<close>\<close>

definition starts_with :: "string \<Rightarrow> string \<Rightarrow> bool" where
  "starts_with s p \<longleftrightarrow> take (length p) s = p"

lemma starts_with_append [simp, str_simps]: "starts_with (p @ s) p"
  by (simp add: starts_with_def)

lemma starts_with_iff: "starts_with s p \<longleftrightarrow> (\<exists>t. s = p @ t)"
  by (metis append_eq_conv_conj append_take_drop_id starts_with_def)

lemma starts_with_take: "starts_with (take n s) p \<Longrightarrow> starts_with s p"
  by (metis append.assoc append_take_drop_id starts_with_iff)

lemma starts_with_prefix: "starts_with s (p @ q) \<Longrightarrow> starts_with s p"
  by (auto simp: starts_with_iff)

lemma starts_with_refl [simp]: "starts_with s s"
  by (simp add: starts_with_def)

text \<open>\<open>s.find(c)\<close> for a character: its first index, \<^const>\<open>None\<close> for \<open>npos\<close>.\<close>

definition find_char :: "char \<Rightarrow> string \<Rightarrow> nat option" where
  "find_char c s = (if c \<in> set s then Some (length (takeWhile (\<lambda>d. d \<noteq> c) s)) else None)"

lemma find_char_None: "find_char c s = None \<longleftrightarrow> c \<notin> set s"
  by (simp add: find_char_def)

lemma takeWhile_neq_append: "c \<notin> set p \<Longrightarrow> takeWhile (\<lambda>d. d \<noteq> c) (p @ c # s) = p"
  by (induction p) auto

lemma takeWhile_neq_all: "c \<notin> set p \<Longrightarrow> takeWhile (\<lambda>d. d \<noteq> c) p = p"
  by (induction p) auto

lemma find_char_append [str_simps]: "c \<notin> set p \<Longrightarrow> find_char c (p @ c # s) = Some (length p)"
  by (simp add: find_char_def takeWhile_neq_append)

lemma find_char_SomeD:
  assumes "find_char c s = Some n"
  shows "c \<notin> set (take n s)" and "s = take n s @ c # drop (Suc n) s" and "n < length s"
proof -
  have "c \<in> set s" and n: "n = length (takeWhile (\<lambda>d. d \<noteq> c) s)"
    using assms by (auto simp: find_char_def split: if_splits)
  then obtain p q where s: "s = p @ c # q" and p: "c \<notin> set p"
    by (meson split_list_first)
  then have "n = length p" by (simp add: n takeWhile_neq_append)
  then show "c \<notin> set (take n s)" and "s = take n s @ c # drop (Suc n) s" and "n < length s"
    using p by (simp_all add: s)
qed

text \<open>The text before the first occurrence.\<close>

lemma find_char_takeWhile:
  "(case find_char c s of None \<Rightarrow> s | Some n \<Rightarrow> take n s) = takeWhile (\<lambda>d. d \<noteq> c) s"
proof (cases "c \<in> set s")
  case True
  then show ?thesis unfolding find_char_def by (simp only: if_True option.case takeWhile_eq_take [symmetric])
next
  case False
  then show ?thesis by (simp add: find_char_def takeWhile_neq_all)
qed

text \<open>\<open>s.find(p) != npos\<close> for a pattern.\<close>

fun contains_sub :: "string \<Rightarrow> string \<Rightarrow> bool" where
  "contains_sub [] p \<longleftrightarrow> p = []"
| "contains_sub (c # s) p \<longleftrightarrow> starts_with (c # s) p \<or> contains_sub s p"

lemma contains_sub_iff: "contains_sub s p \<longleftrightarrow> (\<exists>u v. s = u @ p @ v)"
proof (induction s)
  case Nil
  then show ?case by auto
next
  case (Cons c s)
  note IH = Cons.IH
  show ?case
  proof
    assume "contains_sub (c # s) p"
    then consider "starts_with (c # s) p" | "contains_sub s p" by auto
    then show "\<exists>u v. c # s = u @ p @ v"
    proof cases
      case 1
      then show ?thesis by (metis append_Nil starts_with_iff)
    next
      case 2
      then show ?thesis using Cons.IH by (metis append_Cons)
    qed
  next
    assume "\<exists>u v. c # s = u @ p @ v"
    then obtain u v where "c # s = u @ p @ v" by blast
    then show "contains_sub (c # s) p"
    proof (cases u)
      case Nil
      then have "starts_with (c # s) p" using \<open>c # s = u @ p @ v\<close> by (auto simp: starts_with_iff)
      then show ?thesis by simp
    next
      case (Cons d u')
      then have "s = u' @ p @ v" using \<open>c # s = u @ p @ v\<close> by simp
      then show ?thesis using IH by auto
    qed
  qed
qed

lemma contains_sub_sublist: "contains_sub s p \<longleftrightarrow> sublist p s"
  by (auto simp: contains_sub_iff sublist_def)

section \<open>strnlen\<close>

text \<open>
  \<open>strnlen(buf + pos, n)\<close> on an array \<open>buf\<close>: it reads upwards from \<open>pos\<close> until a NUL or
  until \<open>n\<close> bytes are read. \<^const>\<open>None\<close> is a read past the end of the array, which is
  undefined behaviour in C.
\<close>

definition strnlen_at :: "char list \<Rightarrow> nat \<Rightarrow> nat \<Rightarrow> nat option" where
  "strnlen_at buf pos n =
     (let t = take n (drop pos buf); k = length (takeWhile (\<lambda>c. c \<noteq> NUL) t)
      in if k < length t \<or> length t = n then Some k else None)"

lemma strnlen_at_in_bounds:
  assumes "pos + n \<le> length buf"
  shows "strnlen_at buf pos n = Some (length (takeWhile (\<lambda>c. c \<noteq> NUL) (take n (drop pos buf))))"
  using assms by (auto simp: strnlen_at_def Let_def)

lemma strnlen_at_le: "strnlen_at buf pos n = Some k \<Longrightarrow> k \<le> n"
  using length_takeWhile_le [of "\<lambda>c. c \<noteq> NUL" "take n (drop pos buf)"]
  by (auto simp: strnlen_at_def Let_def split: if_splits)

section \<open>Unsigned numbers as text\<close>

text \<open>\<open>std::format("{}", n)\<close> of an unsigned number: its decimal digits, no leading zero.\<close>

fun dec_nat :: "nat \<Rightarrow> string" where
  "dec_nat n = (if n < 10 then [char_of (48 + n)] else dec_nat (n div 10) @ [char_of (48 + n mod 10)])"

declare dec_nat.simps [simp del]

abbreviation dec_u32 :: "u32 \<Rightarrow> string" where "dec_u32 w \<equiv> dec_nat (unat w)"
abbreviation dec_u16 :: "u16 \<Rightarrow> string" where "dec_u16 w \<equiv> dec_nat (unat w)"

definition is_digit :: "char \<Rightarrow> bool" where
  "is_digit c \<longleftrightarrow> 48 \<le> (of_char c :: nat) \<and> (of_char c :: nat) \<le> 57"

definition digit_val :: "char \<Rightarrow> nat" where
  "digit_val c = of_char c - 48"

definition digits_val :: "string \<Rightarrow> nat" where
  "digits_val ds = foldl (\<lambda>a c. 10 * a + digit_val c) 0 ds"

text \<open>
  \<open>std::from_chars(first, last, v)\<close> for a 32-bit unsigned \<open>v\<close>: the longest prefix of
  digits is the number; \<open>v\<close> keeps its old value where there is no digit (no sign and no
  space is accepted) and where the number does not fit.
\<close>

definition from_chars_u32 :: "string \<Rightarrow> u32 \<Rightarrow> u32" where
  "from_chars_u32 s v =
     (let ds = takeWhile is_digit s
      in if ds = [] then v
         else if digits_val ds < 2 ^ 32 then word_of_nat (digits_val ds) else v)"

lemma digit_char: "d < 10 \<Longrightarrow> is_digit (char_of (48 + d)) \<and> digit_val (char_of (48 + d)) = d"
  by (simp add: is_digit_def digit_val_def)

lemma dec_nat_digits: "c \<in> set (dec_nat n) \<Longrightarrow> is_digit c"
proof (induction n arbitrary: c rule: dec_nat.induct)
  case (1 n)
  show ?case
  proof (cases "n < 10")
    case True
    then show ?thesis using "1.prems" digit_char [of n] by (simp add: dec_nat.simps [of n])
  next
    case False
    then have "c \<in> set (dec_nat (n div 10)) \<or> c = char_of (48 + n mod 10)"
      using "1.prems" by (auto simp: dec_nat.simps [of n])
    then show ?thesis using "1.IH" False digit_char [of "n mod 10"] by auto
  qed
qed

lemma dec_nat_nonempty [simp]: "dec_nat n \<noteq> []"
  by (subst dec_nat.simps) simp

lemma digits_val_snoc: "digits_val (ds @ [c]) = 10 * digits_val ds + digit_val c"
  by (simp add: digits_val_def)

lemma digits_val_dec_nat [simp]: "digits_val (dec_nat n) = n"
proof (induction n rule: dec_nat.induct)
  case (1 n)
  show ?case
  proof (cases "n < 10")
    case True
    then show ?thesis
      using digit_char [of n] by (simp add: dec_nat.simps [of n] digits_val_def)
  next
    case False
    then show ?thesis
      using "1.IH" digit_char [of "n mod 10"]
      by (simp add: dec_nat.simps [of n] digits_val_snoc)
  qed
qed

lemma takeWhile_digits_dec_nat:
  assumes "s = [] \<or> \<not> is_digit (hd s)"
  shows "takeWhile is_digit (dec_nat n @ s) = dec_nat n"
proof -
  have "takeWhile is_digit s = []" using assms by (cases s) auto
  then show ?thesis by (simp add: takeWhile_append2 dec_nat_digits)
qed

lemma from_chars_dec [simp]:
  "s = [] \<or> \<not> is_digit (hd s) \<Longrightarrow> from_chars_u32 (dec_u32 w @ s) v = w"
  using unsigned_less [of w, where ?'a = nat] by (simp add: from_chars_u32_def takeWhile_digits_dec_nat Let_def)

lemma from_chars_dec_only [simp]: "from_chars_u32 (dec_u32 w) v = w"
  using from_chars_dec [of "[]" w v] by simp

lemma dec_nat_no_char: "\<not> is_digit c \<Longrightarrow> c \<notin> set (dec_nat n)"
  using dec_nat_digits by blast

lemma not_digit_simps [simp]:
  "\<not> is_digit SP" "\<not> is_digit LF" "\<not> is_digit CR" "\<not> is_digit NUL"
  by (simp_all add: is_digit_def)

lemma dec_nat_inj: "dec_nat m = dec_nat n \<Longrightarrow> m = n"
  by (metis digits_val_dec_nat)

end
