(* ===== verification/Events.thy ===== *)
theory Events
  imports Prelude
begin

text \<open>
  The data the kernel programs and the daemon share: \<^verbatim>\<open>src/bpf/events.h\<close> (the five event
  structures, their array bounds, the event types, the token bits, the tracked-process entry),
  \<^verbatim>\<open>src/common/tokens.h\<close> (the token table) and \<^verbatim>\<open>src/common/net.h\<close>.
  A fixed-size array is a list; \<open>wf_event_...\<close> says it has the declared length.
\<close>

unbundle bit_operations_syntax

section \<open>Array bounds, event types, token bits\<close>

definition argv_max :: nat where "argv_max = 2048"
definition env_max :: nat where "env_max = 16384"
definition path_max :: nat where "path_max = 192"
definition comm_max :: nat where "comm_max = 16"

definition event_type_exec :: u8 where "event_type_exec = 1"
definition event_type_fork :: u8 where "event_type_fork = 2"
definition event_type_open :: u8 where "event_type_open = 3"
definition event_type_connect :: u8 where "event_type_connect = 4"

lemmas event_bounds = argv_max_def env_max_def path_max_def comm_max_def
lemmas event_types =
  event_type_exec_def event_type_fork_def event_type_open_def event_type_connect_def

definition token_bit_npm_token :: u32 where
  "token_bit_npm_token = push_bit 0 1"
definition token_bit_node_auth_token :: u32 where
  "token_bit_node_auth_token = push_bit 1 1"
definition token_bit_github_token :: u32 where
  "token_bit_github_token = push_bit 2 1"
definition token_bit_aws_access_key_id :: u32 where
  "token_bit_aws_access_key_id = push_bit 3 1"
definition token_bit_aws_secret_access_key :: u32 where
  "token_bit_aws_secret_access_key = push_bit 4 1"
definition token_bit_aws_session_token :: u32 where
  "token_bit_aws_session_token = push_bit 5 1"
definition token_bit_vault_token :: u32 where
  "token_bit_vault_token = push_bit 6 1"
definition token_bit_ssh_auth_sock :: u32 where
  "token_bit_ssh_auth_sock = push_bit 7 1"
definition token_bit_docker_auth_config :: u32 where
  "token_bit_docker_auth_config = push_bit 8 1"

lemma token_bit_values:
  "token_bit_npm_token = 1" "token_bit_node_auth_token = 2" "token_bit_github_token = 4"
  "token_bit_aws_access_key_id = 8" "token_bit_aws_secret_access_key = 16"
  "token_bit_aws_session_token = 32" "token_bit_vault_token = 64"
  "token_bit_ssh_auth_sock = 128" "token_bit_docker_auth_config = 256"
  by (simp_all add: token_bit_npm_token_def token_bit_node_auth_token_def
      token_bit_github_token_def token_bit_aws_access_key_id_def
      token_bit_aws_secret_access_key_def token_bit_aws_session_token_def
      token_bit_vault_token_def token_bit_ssh_auth_sock_def token_bit_docker_auth_config_def)

section \<open>The token table\<close>

record token_info =
  t_prefix :: string
  t_name :: string
  t_bit :: u32

definition token_table :: "token_info list" where
  "token_table =
    [\<lparr>t_prefix = ''NPM_TOKEN='', t_name = ''NPM_TOKEN'', t_bit = token_bit_npm_token\<rparr>,
     \<lparr>t_prefix = ''NODE_AUTH_TOKEN='', t_name = ''NODE_AUTH_TOKEN'',
       t_bit = token_bit_node_auth_token\<rparr>,
     \<lparr>t_prefix = ''GITHUB_TOKEN='', t_name = ''GITHUB_TOKEN'', t_bit = token_bit_github_token\<rparr>,
     \<lparr>t_prefix = ''AWS_ACCESS_KEY_ID='', t_name = ''AWS_ACCESS_KEY_ID'',
       t_bit = token_bit_aws_access_key_id\<rparr>,
     \<lparr>t_prefix = ''AWS_SECRET_ACCESS_KEY='', t_name = ''AWS_SECRET_ACCESS_KEY'',
       t_bit = token_bit_aws_secret_access_key\<rparr>,
     \<lparr>t_prefix = ''AWS_SESSION_TOKEN='', t_name = ''AWS_SESSION_TOKEN'',
       t_bit = token_bit_aws_session_token\<rparr>,
     \<lparr>t_prefix = ''VAULT_TOKEN='', t_name = ''VAULT_TOKEN'', t_bit = token_bit_vault_token\<rparr>,
     \<lparr>t_prefix = ''SSH_AUTH_SOCK='', t_name = ''SSH_AUTH_SOCK'',
       t_bit = token_bit_ssh_auth_sock\<rparr>,
     \<lparr>t_prefix = ''DOCKER_AUTH_CONFIG='', t_name = ''DOCKER_AUTH_CONFIG'',
       t_bit = token_bit_docker_auth_config\<rparr>]"

text \<open>The tokens of the table are those whose bit is set in a mask.\<close>

definition has_token :: "u32 \<Rightarrow> token_info \<Rightarrow> bool" where
  "has_token m t \<longleftrightarrow> m AND t_bit t \<noteq> 0"

text \<open>Distinct entries of the table have distinct names and bits that share no position.\<close>

lemma token_table_names_distinct: "distinct (map t_name token_table)"
  by (simp add: token_table_def)

lemma token_table_prefix: "t \<in> set token_table \<Longrightarrow> t_prefix t = t_name t @ ''=''"
  by (auto simp: token_table_def)

lemma token_bits: "map t_bit token_table = [1, 2, 4, 8, 16, 32, 64, 128, 256]"
  by (simp add: token_table_def token_bit_values)

lemma token_table_bit_inj:
  assumes "t \<in> set token_table" "u \<in> set token_table" "t_bit t = t_bit u"
  shows "t = u"
proof -
  have "distinct (map t_bit token_table)" by (simp add: token_bits)
  then show ?thesis using assms by (simp add: distinct_map inj_on_def)
qed

lemma powers_disjoint:
  "x \<in> set [1, 2, 4, 8, 16, 32, 64, 128, 256] \<Longrightarrow> y \<in> set [1, 2, 4, 8, 16, 32, 64, 128, 256] \<Longrightarrow>
   x \<noteq> y \<Longrightarrow> x AND y = (0 :: u32)"
  by auto

lemma token_table_bits_disjoint:
  assumes "t \<in> set token_table" "u \<in> set token_table" "t \<noteq> u"
  shows "t_bit t AND t_bit u = 0"
proof (rule powers_disjoint)
  show "t_bit t \<in> set [1, 2, 4, 8, 16, 32, 64, 128, 256]"
    using assms(1) by (simp only: token_bits [symmetric] set_map imageI)
  show "t_bit u \<in> set [1, 2, 4, 8, 16, 32, 64, 128, 256]"
    using assms(2) by (simp only: token_bits [symmetric] set_map imageI)
  show "t_bit t \<noteq> t_bit u"
    using assms token_table_bit_inj by blast
qed

lemma token_table_bit_nonzero: "t \<in> set token_table \<Longrightarrow> t_bit t \<noteq> 0"
  by (auto simp: token_table_def token_bit_values)

section \<open>The event structures\<close>

record event_hdr =
  h_type :: u8
  h_pad :: "u8 list"
  h_pid :: u32
  h_ppid :: u32
  h_reserved :: u32
  h_ts_ns :: u64

record event_exec =
  ex_hdr :: event_hdr
  ex_argv_len :: u32
  ex_env_len :: u32
  ex_package_id :: u32
  ex_reserved :: u32
  ex_comm :: "char list"
  ex_argv :: "char list"
  ex_env :: "char list"

record event_fork =
  fk_hdr :: event_hdr
  fk_child_pid :: u32
  fk_package_id :: u32

record event_open =
  op_hdr :: event_hdr
  op_path_len :: u32
  op_package_id :: u32
  op_dfd :: u32 \<comment> \<open>a signed 32-bit field, kept as its bit pattern\<close>
  op_flags :: u32 \<comment> \<open>a signed 32-bit field, kept as its bit pattern\<close>
  op_path :: "char list"

record event_connect =
  cn_hdr :: event_hdr
  cn_package_id :: u32
  cn_addr :: "u8 list"
  cn_port :: u16
  cn_family :: u8
  cn_blocked :: u8

record tracked_pid_info =
  tp_session_id :: u32
  tp_package_id :: u32

definition wf_hdr :: "event_hdr \<Rightarrow> bool" where
  "wf_hdr h \<longleftrightarrow> length (h_pad h) = 3"

definition wf_exec :: "event_exec \<Rightarrow> bool" where
  "wf_exec e \<longleftrightarrow> wf_hdr (ex_hdr e) \<and> length (ex_comm e) = comm_max \<and>
     length (ex_argv e) = argv_max \<and> length (ex_env e) = env_max"

definition wf_fork :: "event_fork \<Rightarrow> bool" where
  "wf_fork e \<longleftrightarrow> wf_hdr (fk_hdr e)"

definition wf_open :: "event_open \<Rightarrow> bool" where
  "wf_open e \<longleftrightarrow> wf_hdr (op_hdr e) \<and> length (op_path e) = path_max"

definition wf_connect :: "event_connect \<Rightarrow> bool" where
  "wf_connect e \<longleftrightarrow> wf_hdr (cn_hdr e) \<and> length (cn_addr e) = 16"

text \<open>What the kernel side promises about the two variable-length parts of an exec event.\<close>

definition exec_lens_ok :: "event_exec \<Rightarrow> bool" where
  "exec_lens_ok e \<longleftrightarrow> unat (ex_argv_len e) \<le> length (ex_argv e) \<and>
     unat (ex_env_len e) \<le> length (ex_env e) \<and> length (ex_argv e) < 2 ^ 31 \<and>
     length (ex_env e) < 2 ^ 31"

section \<open>Network addresses\<close>

text \<open>\<open>IPv4\<close> is a 32-bit number in network byte order; \<open>IPv6\<close> an array of 16 bytes.\<close>

type_synonym ipv4 = u32
type_synonym ipv6 = "u8 list"

end
