(* ===== verification/Layout.thy ===== *)
theory Layout
  imports Events
begin

text \<open>
  The memory layout of the event structures. A ring buffer sample is a list of bytes; the
  kernel programs fill a structure in place and the daemon reads it back through a pointer
  cast (\<open>Daemon::dispatch\<close> in \<^verbatim>\<open>src/daemon/daemon.cpp\<close>). The offsets are those of the
  C layout of \<^verbatim>\<open>src/bpf/events.h\<close>: every field is naturally aligned and there is no
  padding besides the declared one. Numbers are little-endian, as on the targets of the
  project's releases (x86-64 and arm64).
\<close>

section \<open>Little-endian numbers\<close>

fun le_bytes :: "nat \<Rightarrow> nat \<Rightarrow> u8 list" where
  "le_bytes 0 v = []"
| "le_bytes (Suc n) v = word_of_nat (v mod 256) # le_bytes n (v div 256)"

fun le_val :: "u8 list \<Rightarrow> nat" where
  "le_val [] = 0"
| "le_val (b # bs) = unat b + 256 * le_val bs"

lemma length_le_bytes [simp, layout_simps]: "length (le_bytes n v) = n"
  by (induction n arbitrary: v) auto

lemma le_val_le_bytes [simp]: "le_val (le_bytes n v) = v mod 256 ^ n"
proof (induction n arbitrary: v)
  case 0
  then show ?case by simp
next
  case (Suc n)
  have "unat (word_of_nat (v mod 256) :: u8) = v mod 256"
    by (simp add: unat_of_nat)
  then show ?case using Suc.IH [of "v div 256"]
    by (simp add: mod_mult2_eq add.commute)
qed

lemma le_val_less: "le_val bs < 256 ^ length bs"
proof (induction bs)
  case Nil
  then show ?case by simp
next
  case (Cons b bs)
  have "unat b < 256" using unsigned_less [of b, where ?'a = nat] by simp
  with Cons show ?case by simp
qed

lemma le_bytes_le_val: "length bs = n \<Longrightarrow> le_bytes n (le_val bs) = bs"
proof (induction bs arbitrary: n)
  case Nil
  then show ?case by simp
next
  case (Cons b bs)
  have b: "unat b < 256" using unsigned_less [of b, where ?'a = nat] by simp
  then have "(unat b + 256 * le_val bs) mod 256 = unat b"
    and "(unat b + 256 * le_val bs) div 256 = le_val bs" by auto
  with Cons show ?case by auto
qed

definition bytes16 :: "u16 \<Rightarrow> u8 list" where "bytes16 w = le_bytes 2 (unat w)"
definition bytes32 :: "u32 \<Rightarrow> u8 list" where "bytes32 w = le_bytes 4 (unat w)"
definition bytes64 :: "u64 \<Rightarrow> u8 list" where "bytes64 w = le_bytes 8 (unat w)"

definition field :: "nat \<Rightarrow> nat \<Rightarrow> u8 list \<Rightarrow> u8 list" where
  "field off n bs = take n (drop off bs)"

definition rd16 :: "nat \<Rightarrow> u8 list \<Rightarrow> u16" where
  "rd16 off bs = word_of_nat (le_val (field off 2 bs))"
definition rd32 :: "nat \<Rightarrow> u8 list \<Rightarrow> u32" where
  "rd32 off bs = word_of_nat (le_val (field off 4 bs))"
definition rd64 :: "nat \<Rightarrow> u8 list \<Rightarrow> u64" where
  "rd64 off bs = word_of_nat (le_val (field off 8 bs))"

lemma length_bytes [simp, layout_simps]:
  "length (bytes16 a) = 2" "length (bytes32 b) = 4" "length (bytes64 c) = 8"
  by (simp_all add: bytes16_def bytes32_def bytes64_def)

lemma val_bytes [simp, layout_simps]:
  "word_of_nat (le_val (bytes16 a)) = a" "word_of_nat (le_val (bytes32 b)) = b"
  "word_of_nat (le_val (bytes64 c)) = c"
  using unsigned_less [of a, where ?'a = nat] unsigned_less [of b, where ?'a = nat]
    unsigned_less [of c, where ?'a = nat]
  by (simp_all add: bytes16_def bytes32_def bytes64_def)

lemma bytes_val:
  "length bs = 2 \<Longrightarrow> bytes16 (word_of_nat (le_val bs)) = bs"
  "length bs = 4 \<Longrightarrow> bytes32 (word_of_nat (le_val bs)) = bs"
  "length bs = 8 \<Longrightarrow> bytes64 (word_of_nat (le_val bs)) = bs"
  using le_val_less [of bs]
  by (simp_all add: bytes16_def bytes32_def bytes64_def unat_of_nat le_bytes_le_val)

definition chars_of :: "u8 list \<Rightarrow> char list" where "chars_of bs = map char_of_u8 bs"
definition bytes_of :: "char list \<Rightarrow> u8 list" where "bytes_of cs = map u8_of_char cs"

lemma chars_bytes [simp, layout_simps]:
  "chars_of (bytes_of cs) = cs" "bytes_of (chars_of bs) = bs"
  "length (chars_of bs) = length bs" "length (bytes_of cs) = length cs"
  by (simp_all add: chars_of_def bytes_of_def comp_def)

text \<open>
  A field that starts where a part ends, and the head of what is left: the two rewrite
  steps that read a field out of a concatenation.
\<close>

lemma field_here [layout_simps]: "length xs = n \<Longrightarrow> field 0 n (xs @ ys) = xs"
  by (simp add: field_def)

lemma field_exact [layout_simps]: "length xs = n \<Longrightarrow> field 0 n xs = xs"
  by (simp add: field_def)

lemma field_skip [layout_simps]:
  "length xs \<le> off \<Longrightarrow> field off n (xs @ ys) = field (off - length xs) n ys"
  by (simp add: field_def)

lemma field_skip_Cons [layout_simps]:
  "0 < off \<Longrightarrow> field off n (x # ys) = field (off - 1) n ys"
  by (cases off) (simp_all add: field_def)

lemma length_field [layout_simps]: "off + n \<le> length bs \<Longrightarrow> length (field off n bs) = n"
  by (simp add: field_def)

lemma field_glue: "field off m bs @ field (off + m) n bs = field off (m + n) bs"
  by (simp add: field_def take_add add.commute)

section \<open>Reading and writing the structures\<close>

definition sizeof_event_hdr :: nat where "sizeof_event_hdr = 24"
definition sizeof_event_exec :: nat where "sizeof_event_exec = 56 + argv_max + env_max"
definition sizeof_event_fork :: nat where "sizeof_event_fork = 32"
definition sizeof_event_open :: nat where "sizeof_event_open = 40 + path_max"
definition sizeof_event_connect :: nat where "sizeof_event_connect = 48"

lemmas sizeofs = sizeof_event_hdr_def sizeof_event_exec_def sizeof_event_fork_def
  sizeof_event_open_def sizeof_event_connect_def

definition read_hdr :: "u8 list \<Rightarrow> event_hdr" where
  "read_hdr bs =
     \<lparr>h_type = bs ! 0, h_pad = field 1 3 bs, h_pid = rd32 4 bs, h_ppid = rd32 8 bs,
      h_reserved = rd32 12 bs, h_ts_ns = rd64 16 bs\<rparr>"

definition write_hdr :: "event_hdr \<Rightarrow> u8 list" where
  "write_hdr h = [h_type h] @ h_pad h @ bytes32 (h_pid h) @ bytes32 (h_ppid h) @
     bytes32 (h_reserved h) @ bytes64 (h_ts_ns h)"

definition read_fork :: "u8 list \<Rightarrow> event_fork" where
  "read_fork bs = \<lparr>fk_hdr = read_hdr bs, fk_child_pid = rd32 24 bs, fk_package_id = rd32 28 bs\<rparr>"

definition write_fork :: "event_fork \<Rightarrow> u8 list" where
  "write_fork e = write_hdr (fk_hdr e) @ bytes32 (fk_child_pid e) @ bytes32 (fk_package_id e)"

definition read_connect :: "u8 list \<Rightarrow> event_connect" where
  "read_connect bs =
     \<lparr>cn_hdr = read_hdr bs, cn_package_id = rd32 24 bs, cn_addr = field 28 16 bs,
      cn_port = rd16 44 bs, cn_family = bs ! 46, cn_blocked = bs ! 47\<rparr>"

definition write_connect :: "event_connect \<Rightarrow> u8 list" where
  "write_connect e = write_hdr (cn_hdr e) @ bytes32 (cn_package_id e) @ cn_addr e @
     bytes16 (cn_port e) @ [cn_family e, cn_blocked e]"

definition read_open :: "u8 list \<Rightarrow> event_open" where
  "read_open bs =
     \<lparr>op_hdr = read_hdr bs, op_path_len = rd32 24 bs, op_package_id = rd32 28 bs,
      op_dfd = rd32 32 bs, op_flags = rd32 36 bs, op_path = chars_of (field 40 path_max bs)\<rparr>"

definition write_open :: "event_open \<Rightarrow> u8 list" where
  "write_open e = write_hdr (op_hdr e) @ bytes32 (op_path_len e) @ bytes32 (op_package_id e) @
     bytes32 (op_dfd e) @ bytes32 (op_flags e) @ bytes_of (op_path e)"

definition read_exec :: "u8 list \<Rightarrow> event_exec" where
  "read_exec bs =
     \<lparr>ex_hdr = read_hdr bs, ex_argv_len = rd32 24 bs, ex_env_len = rd32 28 bs,
      ex_package_id = rd32 32 bs, ex_reserved = rd32 36 bs,
      ex_comm = chars_of (field 40 comm_max bs), ex_argv = chars_of (field 56 argv_max bs),
      ex_env = chars_of (field (56 + argv_max) env_max bs)\<rparr>"

definition write_exec :: "event_exec \<Rightarrow> u8 list" where
  "write_exec e = write_hdr (ex_hdr e) @ bytes32 (ex_argv_len e) @ bytes32 (ex_env_len e) @
     bytes32 (ex_package_id e) @ bytes32 (ex_reserved e) @ bytes_of (ex_comm e) @
     bytes_of (ex_argv e) @ bytes_of (ex_env e)"

section \<open>Round trips\<close>

lemma length_write_hdr [simp, layout_simps]:
  "wf_hdr h \<Longrightarrow> length (write_hdr h) = sizeof_event_hdr"
  by (simp add: write_hdr_def wf_hdr_def sizeofs)

lemma length_write [simp, layout_simps]:
  "wf_fork f \<Longrightarrow> length (write_fork f) = sizeof_event_fork"
  "wf_connect c \<Longrightarrow> length (write_connect c) = sizeof_event_connect"
  "wf_open p \<Longrightarrow> length (write_open p) = sizeof_event_open"
  "wf_exec x \<Longrightarrow> length (write_exec x) = sizeof_event_exec"
  by (simp_all add: write_fork_def wf_fork_def write_connect_def wf_connect_def write_open_def
      wf_open_def write_exec_def wf_exec_def sizeofs event_bounds)

lemma read_write_hdr [simp]: "wf_hdr h \<Longrightarrow> read_hdr (write_hdr h @ bs) = h"
  by (cases h) (simp add: read_hdr_def write_hdr_def wf_hdr_def rd32_def rd64_def layout_simps)

lemma nth_skip: "length xs \<le> n \<Longrightarrow> (xs @ ys) ! n = ys ! (n - length xs)"
  by (simp add: nth_append)

lemma read_write_fork: "wf_fork e \<Longrightarrow> read_fork (write_fork e) = e"
  by (cases e) (simp add: read_fork_def write_fork_def wf_fork_def rd32_def layout_simps sizeofs)

lemma read_write_connect: "wf_connect e \<Longrightarrow> read_connect (write_connect e) = e"
  by (cases e) (simp add: read_connect_def write_connect_def wf_connect_def rd32_def rd16_def
      nth_skip layout_simps sizeofs)

lemma read_write_open: "wf_open e \<Longrightarrow> read_open (write_open e) = e"
  by (cases e) (simp add: read_open_def write_open_def wf_open_def rd32_def layout_simps sizeofs)

lemma read_write_exec: "wf_exec e \<Longrightarrow> read_exec (write_exec e) = e"
  by (cases e) (simp add: read_exec_def write_exec_def wf_exec_def rd32_def layout_simps
      sizeofs event_bounds)

lemmas read_write_event = read_write_fork read_write_connect read_write_open read_write_exec

text \<open>What the daemon reads is well formed, whatever bytes the sample holds.\<close>

lemma wf_read_hdr: "sizeof_event_hdr \<le> length bs \<Longrightarrow> wf_hdr (read_hdr bs)"
  by (simp add: wf_hdr_def read_hdr_def layout_simps sizeofs)

lemma wf_read_event:
  "sizeof_event_fork \<le> length bs \<Longrightarrow> wf_fork (read_fork bs)"
  "sizeof_event_connect \<le> length bs \<Longrightarrow> wf_connect (read_connect bs)"
  "sizeof_event_open \<le> length bs \<Longrightarrow> wf_open (read_open bs)"
  "sizeof_event_exec \<le> length bs \<Longrightarrow> wf_exec (read_exec bs)"
  by (simp_all add: wf_fork_def read_fork_def wf_connect_def read_connect_def wf_open_def
      read_open_def wf_exec_def read_exec_def wf_read_hdr layout_simps sizeofs event_bounds)

lemma read_hdr_fields [simp]:
  "fk_hdr (read_fork bs) = read_hdr bs" "cn_hdr (read_connect bs) = read_hdr bs"
  "op_hdr (read_open bs) = read_hdr bs" "ex_hdr (read_exec bs) = read_hdr bs"
  by (simp_all add: read_fork_def read_connect_def read_open_def read_exec_def)

lemma read_hdr_write [simp]:
  "wf_fork f \<Longrightarrow> read_hdr (write_fork f) = fk_hdr f"
  "wf_connect c \<Longrightarrow> read_hdr (write_connect c) = cn_hdr c"
  "wf_open p \<Longrightarrow> read_hdr (write_open p) = op_hdr p"
  "wf_exec x \<Longrightarrow> read_hdr (write_exec x) = ex_hdr x"
  by (simp_all add: write_fork_def wf_fork_def write_connect_def wf_connect_def write_open_def
      wf_open_def write_exec_def wf_exec_def)

section \<open>A layout as an interface\<close>

text \<open>
  What the two sides of the ring buffer rely on: a structure type, its size, a writer of
  exactly that many bytes, and a reader that gives back what was written.
\<close>

locale event_layout =
  fixes wf :: "'e \<Rightarrow> bool" and size_of :: nat and wr :: "'e \<Rightarrow> u8 list"
    and rd :: "u8 list \<Rightarrow> 'e" and hdr :: "'e \<Rightarrow> event_hdr"
  assumes length_wr: "wf e \<Longrightarrow> length (wr e) = size_of"
    and rd_wr: "wf e \<Longrightarrow> rd (wr e) = e"
    and hdr_wr: "wf e \<Longrightarrow> read_hdr (wr e) = hdr e"
    and wf_rd: "size_of \<le> length bs \<Longrightarrow> wf (rd bs)"
    and size_hdr: "sizeof_event_hdr \<le> size_of"
begin

lemma wr_inj: "wf a \<Longrightarrow> wf b \<Longrightarrow> wr a = wr b \<Longrightarrow> a = b"
  by (metis rd_wr)

lemma hdr_fits: "wf e \<Longrightarrow> sizeof_event_hdr \<le> length (wr e)"
  using length_wr size_hdr by simp

end

interpretation fork_layout: event_layout wf_fork sizeof_event_fork write_fork read_fork fk_hdr
  by unfold_locales (simp_all add: read_write_event wf_read_event, simp_all add: sizeofs)

interpretation connect_layout:
  event_layout wf_connect sizeof_event_connect write_connect read_connect cn_hdr
  by unfold_locales (simp_all add: read_write_event wf_read_event, simp_all add: sizeofs)

interpretation open_layout: event_layout wf_open sizeof_event_open write_open read_open op_hdr
  by unfold_locales (simp_all add: read_write_event wf_read_event, simp_all add: sizeofs)

interpretation exec_layout: event_layout wf_exec sizeof_event_exec write_exec read_exec ex_hdr
  by unfold_locales (simp_all add: read_write_event wf_read_event, simp_all add: sizeofs)

end
