(* ===== verification/Name_Table.thy ===== *)
theory Name_Table
  imports Prelude
begin

text \<open>
  The program names its enumerations through constant tables of (value, text) pairs and two
  loops over such a table: one from a value to its text and one back
  (\<open>formatToString\<close>, \<open>severityFromString\<close>, \<open>modeToString\<close>, \<open>subcommandFromString\<close> and
  the like, in \<^verbatim>\<open>src/common/proto.cpp\<close>, \<^verbatim>\<open>src/daemon/args.cpp\<close> and
  \<^verbatim>\<open>src/ctl/args.cpp\<close>). The loops and their laws are stated once here.
\<close>

text \<open>The loop that ends in \<open>return {}\<close>: the empty string for a value not in the table.\<close>

fun table_to_string :: "('a \<times> string) list \<Rightarrow> 'a \<Rightarrow> string" where
  "table_to_string [] f = []"
| "table_to_string ((v, name) # t) f = (if v = f then name else table_to_string t f)"

text \<open>The loop that ends in \<open>return std::nullopt\<close>.\<close>

fun table_from_string :: "('a \<times> string) list \<Rightarrow> string \<Rightarrow> 'a option" where
  "table_from_string [] s = None"
| "table_from_string ((v, name) # t) s = (if s = name then Some v else table_from_string t s)"

lemma table_from_string_SomeD:
  "table_from_string t s = Some v \<Longrightarrow> (v, s) \<in> set t"
  by (induction t s rule: table_from_string.induct) (auto split: if_splits)

lemma table_from_string_mem:
  "distinct (map snd t) \<Longrightarrow> (v, s) \<in> set t \<Longrightarrow> table_from_string t s = Some v"
  by (induction t s rule: table_from_string.induct) (auto simp: image_iff)

lemma table_to_string_mem:
  "distinct (map fst t) \<Longrightarrow> (v, s) \<in> set t \<Longrightarrow> table_to_string t v = s"
  by (induction t v rule: table_to_string.induct) (auto simp: image_iff)

text \<open>
  A table that names every value of its enumeration, each by one text: the two loops are
  then inverse to each other.
\<close>

locale name_table =
  fixes table :: "('a \<times> string) list"
  assumes distinct_values: "distinct (map fst table)"
    and distinct_names: "distinct (map snd table)"
    and complete: "v \<in> fst ` set table"
    and nonempty: "[] \<notin> snd ` set table"
begin

lemma from_to: "table_from_string table (table_to_string table v) = Some v"
proof -
  obtain s where "(v, s) \<in> set table" using complete [of v] by auto
  then show ?thesis
    using distinct_values distinct_names by (simp add: table_to_string_mem table_from_string_mem)
qed

lemma to_from: "table_from_string table s = Some v \<Longrightarrow> table_to_string table v = s"
  using distinct_values by (auto dest: table_from_string_SomeD intro: table_to_string_mem)

lemma from_iff: "table_from_string table s = Some v \<longleftrightarrow> s = table_to_string table v"
  using from_to to_from by metis

lemma to_inj: "table_to_string table v = table_to_string table w \<longleftrightarrow> v = w"
  using from_to by (metis option.inject)

lemma from_None: "table_from_string table s = None \<longleftrightarrow> (\<forall>v. s \<noteq> table_to_string table v)"
  using from_iff by (metis not_None_eq)

lemma to_mem: "(v, table_to_string table v) \<in> set table"
  using table_from_string_SomeD from_to by metis

lemma to_nonempty: "table_to_string table v \<noteq> []"
  using to_mem [of v] nonempty by (metis imageI snd_conv)

end

end
