(* ===== verification/Proto.thy ===== *)
theory Proto
  imports Name_Table
begin

text \<open>
  The request and reply protocol of \<^verbatim>\<open>src/common/proto.h\<close> and \<^verbatim>\<open>src/common/proto.cpp\<close>:
  the enumerations and their names, the messages, the encoders and the decoders, and
  \<open>sendCommand\<close>, the client's view of one exchange.
\<close>

section \<open>Enumerations\<close>

datatype format = Markdown | Json

text \<open>\<open>None\<close>, \<open>Low\<close>, \<open>Medium\<close>, \<open>High\<close>, with a prefix that keeps them apart from \<^const>\<open>None\<close>.\<close>

datatype severity = SevNone | SevLow | SevMedium | SevHigh

text \<open>The underlying number, which the code compares severities by.\<close>

fun severity_num :: "severity \<Rightarrow> nat" where
  "severity_num SevNone = 0"
| "severity_num SevLow = 1"
| "severity_num SevMedium = 2"
| "severity_num SevHigh = 3"

instantiation severity :: linorder
begin

definition less_eq_severity :: "severity \<Rightarrow> severity \<Rightarrow> bool" where
  "less_eq_severity a b \<longleftrightarrow> severity_num a \<le> severity_num b"

definition less_severity :: "severity \<Rightarrow> severity \<Rightarrow> bool" where
  "less_severity a b \<longleftrightarrow> severity_num a < severity_num b"

instance
proof
  fix a b c :: severity
  show "a < b \<longleftrightarrow> a \<le> b \<and> \<not> b \<le> a"
    by (auto simp: less_eq_severity_def less_severity_def)
  show "a \<le> a" by (simp add: less_eq_severity_def)
  show "a \<le> b \<Longrightarrow> b \<le> c \<Longrightarrow> a \<le> c" by (simp add: less_eq_severity_def)
  show "a \<le> b \<Longrightarrow> b \<le> a \<Longrightarrow> a = b"
    by (cases a; cases b) (simp_all add: less_eq_severity_def)
  show "a \<le> b \<or> b \<le> a" by (auto simp: less_eq_severity_def)
qed

end

lemma severity_order [simp]:
  "SevNone \<le> s" "s \<le> SevHigh" "\<not> s < SevNone" "\<not> SevHigh < s"
  by (cases s; simp add: less_eq_severity_def less_severity_def)+

lemma severity_num_le: "severity_num a \<le> severity_num b \<longleftrightarrow> a \<le> b"
  by (simp add: less_eq_severity_def)

lemma severity_num_less: "severity_num a < severity_num b \<longleftrightarrow> a < b"
  by (simp add: less_severity_def)

definition format_table :: "(format \<times> string) list" where
  "format_table = [(Markdown, ''markdown''), (Json, ''json'')]"

definition severity_table :: "(severity \<times> string) list" where
  "severity_table =
    [(SevNone, ''none''), (SevLow, ''low''), (SevMedium, ''medium''), (SevHigh, ''high'')]"

definition formatToString :: "format \<Rightarrow> string" where
  "formatToString f = table_to_string format_table f"

definition formatFromString :: "string \<Rightarrow> format option" where
  "formatFromString s = table_from_string format_table s"

definition severityToString :: "severity \<Rightarrow> string" where
  "severityToString s = table_to_string severity_table s"

definition severityFromString :: "string \<Rightarrow> severity option" where
  "severityFromString s = table_from_string severity_table s"

interpretation format_names: name_table format_table
proof unfold_locales
  show "v \<in> fst ` set format_table" for v by (cases v) (simp_all add: format_table_def)
qed (simp_all add: format_table_def)

interpretation severity_names: name_table severity_table
proof unfold_locales
  show "v \<in> fst ` set severity_table" for v by (cases v) (simp_all add: severity_table_def)
qed (simp_all add: severity_table_def)

lemma severityFromString_inverse [simp]: "severityFromString (severityToString s) = Some s"
  by (simp add: severityFromString_def severityToString_def severity_names.from_to)

lemma formatFromString_inverse [simp]: "formatFromString (formatToString f) = Some f"
  by (simp add: formatFromString_def formatToString_def format_names.from_to)

lemma severityToString_chars:
  "LF \<notin> set (severityToString s)" "CHR '':'' \<notin> set (severityToString s)"
  "SP \<notin> set (severityToString s)" "severityToString s \<noteq> []"
  by (cases s; simp add: severityToString_def severity_table_def)+

lemma formatToString_chars:
  "LF \<notin> set (formatToString f)" "SP \<notin> set (formatToString f)" "formatToString f \<noteq> []"
  by (cases f; simp add: formatToString_def format_table_def)+

section \<open>Messages\<close>

datatype request =
    PingRequest
  | StartPhaseRequest u32 string
  | EndPhaseRequest
  | ReportRequest format
  | ShutdownRequest

datatype pong_response = PongResponse
datatype ok_response = OkResponse
datatype error = Error (reason: string)

record report_response =
  max_severity :: severity
  body :: string

definition socket_name :: string where "socket_name = ''blastguard''"
definition max_line :: nat where "max_line = 64 * 1024"

section \<open>Encoding\<close>

definition cmd_ping :: string where "cmd_ping = ''PING''"
definition cmd_start_phase :: string where "cmd_start_phase = ''START-PHASE''"
definition cmd_end_phase :: string where "cmd_end_phase = ''END-PHASE''"
definition cmd_report :: string where "cmd_report = ''REPORT''"
definition cmd_shutdown :: string where "cmd_shutdown = ''SHUTDOWN''"
definition reply_pong :: string where "reply_pong = ''PONG''"
definition reply_ok :: string where "reply_ok = ''OK''"
definition reply_error :: string where "reply_error = ''ERR''"

lemmas wire_words = cmd_ping_def cmd_start_phase_def cmd_end_phase_def cmd_report_def
  cmd_shutdown_def reply_pong_def reply_ok_def reply_error_def

text \<open>The overloads of \<open>encode\<close>.\<close>

fun encode_request :: "request \<Rightarrow> string" where
  "encode_request PingRequest = cmd_ping"
| "encode_request (StartPhaseRequest pid phase) =
     cmd_start_phase @ '' '' @ dec_u32 pid @ '' '' @ phase"
| "encode_request EndPhaseRequest = cmd_end_phase"
| "encode_request (ReportRequest fmt) = cmd_report @ '' '' @ formatToString fmt"
| "encode_request ShutdownRequest = cmd_shutdown"

definition encode_pong :: "pong_response \<Rightarrow> string" where "encode_pong r = reply_pong"
definition encode_ok :: "ok_response \<Rightarrow> string" where "encode_ok r = reply_ok"

definition encode_error :: "error \<Rightarrow> string" where
  "encode_error r = (if reason r = [] then reply_error else reply_error @ '' '' @ reason r)"

definition encode_report :: "report_response \<Rightarrow> string" where
  "encode_report r = ''MAX_SEVERITY: '' @ severityToString (max_severity r) @ [LF] @ body r"

section \<open>Decoding\<close>

text \<open>\<open>nextToken\<close>: the token and what \<open>rest\<close> becomes.\<close>

definition nextToken :: "string \<Rightarrow> string \<times> string" where
  "nextToken rest = (case find_char SP rest of
      None \<Rightarrow> (rest, [])
    | Some sp \<Rightarrow> (take sp rest, drop (sp + 1) rest))"

definition decodeRequest :: "string \<Rightarrow> request option" where
  "decodeRequest line =
     (let (cmd, rest) = nextToken line in
      if cmd = cmd_ping then Some PingRequest
      else if cmd = cmd_end_phase then Some EndPhaseRequest
      else if cmd = cmd_shutdown then Some ShutdownRequest
      else if cmd = cmd_start_phase then
        (let (pid_str, rest) = nextToken rest; pid = from_chars_u32 pid_str 0 in
         if pid = 0 \<or> rest = [] then None else Some (StartPhaseRequest pid rest))
      else if cmd = cmd_report then
        (case formatFromString (if rest = [] then ''markdown'' else rest) of
           None \<Rightarrow> None
         | Some fmt \<Rightarrow> Some (ReportRequest fmt))
      else None)"

definition decodeError :: "string \<Rightarrow> error option" where
  "decodeError raw =
     (let first = (case find_char LF raw of None \<Rightarrow> raw | Some nl \<Rightarrow> take nl raw) in
      if first \<noteq> reply_error \<and> \<not> starts_with first (reply_error @ '' '') then None
      else (let why = dropWhile (\<lambda>c. c = SP) (drop (length reply_error) first) in
            if why = [] then Some (Error ''request rejected'') else Some (Error why)))"

text \<open>The loop removes newlines and carriage returns from the end.\<close>

definition trimTrailingNewlines :: "string \<Rightarrow> string" where
  "trimTrailingNewlines s = rev (dropWhile (\<lambda>c. c = LF \<or> c = CR) (rev s))"

definition decode_pong :: "string \<Rightarrow> pong_response option" where
  "decode_pong raw = (if trimTrailingNewlines raw \<noteq> reply_pong then None else Some PongResponse)"

definition decode_ok :: "string \<Rightarrow> ok_response option" where
  "decode_ok raw = (if trimTrailingNewlines raw \<noteq> reply_ok then None else Some OkResponse)"

definition decode_report :: "string \<Rightarrow> report_response option" where
  "decode_report raw =
     (case find_char LF raw of
        None \<Rightarrow> None
      | Some nl \<Rightarrow>
          (let header = take nl raw; bdy = drop (nl + 1) raw in
           case find_char CHR '':'' header of
             None \<Rightarrow> None
           | Some colon \<Rightarrow>
               (let sev_str = dropWhile (\<lambda>c. c = SP) (drop (colon + 1) header);
                    sev = (case severityFromString sev_str of None \<Rightarrow> SevNone | Some s \<Rightarrow> s)
                in Some \<lparr>max_severity = sev, body = bdy\<rparr>)))"

text \<open>
  \<open>sendCommand\<close> after \<open>sendRaw\<close> has returned \<open>raw\<close>; \<open>dec\<close> is the \<open>decodeResponse\<close>
  of the request's response type.
\<close>

definition sendCommand :: "(string \<Rightarrow> 'r option) \<Rightarrow> string \<Rightarrow> error + 'r" where
  "sendCommand dec raw =
     (if raw = [] then Inl (Error ''no response from daemon'')
      else (case decodeError raw of
          Some err \<Rightarrow> Inl err
        | None \<Rightarrow> (case dec raw of
              None \<Rightarrow> Inl (Error ''malformed response from daemon'')
            | Some resp \<Rightarrow> Inr resp)))"

section \<open>Tokens of a line\<close>

lemma nextToken_append [str_simps]: "SP \<notin> set t \<Longrightarrow> nextToken (t @ SP # rest) = (t, rest)"
  by (simp add: nextToken_def find_char_append)

lemma nextToken_last [str_simps]: "SP \<notin> set t \<Longrightarrow> nextToken t = (t, [])"
  by (simp add: nextToken_def find_char_def)

lemma dec_nat_no_space [simp]: "SP \<notin> set (dec_nat n)"
  by (rule dec_nat_no_char) simp

lemma dec_nat_no_newline [simp]: "LF \<notin> set (dec_nat n)"
  by (rule dec_nat_no_char) simp

lemma cmd_no_space:
  "SP \<notin> set cmd_ping" "SP \<notin> set cmd_start_phase" "SP \<notin> set cmd_end_phase"
  "SP \<notin> set cmd_report" "SP \<notin> set cmd_shutdown"
  by (simp_all add: wire_words)

lemma cmd_distinct [simp]:
  "cmd_end_phase \<noteq> cmd_ping" "cmd_shutdown \<noteq> cmd_ping" "cmd_shutdown \<noteq> cmd_end_phase"
  "cmd_start_phase \<noteq> cmd_ping" "cmd_start_phase \<noteq> cmd_end_phase"
  "cmd_start_phase \<noteq> cmd_shutdown" "cmd_report \<noteq> cmd_ping" "cmd_report \<noteq> cmd_end_phase"
  "cmd_report \<noteq> cmd_shutdown" "cmd_report \<noteq> cmd_start_phase"
  by (simp_all add: wire_words)

text \<open>The requests a client of the program builds, and a decoder may return.\<close>

fun wf_request :: "request \<Rightarrow> bool" where
  "wf_request (StartPhaseRequest pid phase) \<longleftrightarrow> pid \<noteq> 0 \<and> phase \<noteq> []"
| "wf_request r \<longleftrightarrow> True"

lemma decode_encode_request:
  assumes "wf_request r"
  shows "decodeRequest (encode_request r) = Some r"
proof (cases r)
  case PingRequest
  then show ?thesis by (simp add: decodeRequest_def nextToken_last cmd_no_space)
next
  case (StartPhaseRequest pid phase)
  have "encode_request r = cmd_start_phase @ SP # dec_u32 pid @ SP # phase"
    by (simp add: StartPhaseRequest)
  then show ?thesis using assms StartPhaseRequest
    by (simp add: decodeRequest_def nextToken_append cmd_no_space)
next
  case EndPhaseRequest
  then show ?thesis by (simp add: decodeRequest_def nextToken_last cmd_no_space)
next
  case (ReportRequest fmt)
  have "encode_request r = cmd_report @ SP # formatToString fmt"
    by (simp add: ReportRequest)
  then show ?thesis using ReportRequest
    by (simp add: decodeRequest_def nextToken_append cmd_no_space formatToString_chars)
next
  case ShutdownRequest
  then show ?thesis by (simp add: decodeRequest_def nextToken_last cmd_no_space)
qed

lemma decodeRequest_wf: "decodeRequest line = Some r \<Longrightarrow> wf_request r"
  by (auto simp: decodeRequest_def Let_def split: prod.splits if_splits option.splits)

section \<open>Replies\<close>

lemma decodeError_encode:
  assumes "LF \<notin> set (reason e)"
  shows "decodeError (encode_error e @ [LF]) =
     Some (let why = dropWhile (\<lambda>c. c = SP) (reason e)
           in if why = [] then Error ''request rejected'' else Error why)"
proof -
  have "LF \<notin> set (encode_error e)" using assms by (simp add: encode_error_def wire_words)
  then have "find_char LF (encode_error e @ [LF]) = Some (length (encode_error e))"
    by (rule find_char_append)
  then show ?thesis
    by (auto simp: decodeError_def Let_def encode_error_def wire_words starts_with_def)
qed

lemma decodeError_not_ERR:
  assumes "\<not> starts_with raw reply_error"
  shows "decodeError raw = None"
proof -
  have no: "\<not> starts_with (take n raw) reply_error" for n
    using assms starts_with_take by blast
  then have "take n raw \<noteq> reply_error" for n by (metis starts_with_refl)
  moreover have "\<not> starts_with (take n raw) (reply_error @ '' '')" for n
    using no starts_with_prefix by blast
  moreover have "raw = take (length raw) raw" by simp
  ultimately have "raw \<noteq> reply_error \<and> \<not> starts_with raw (reply_error @ '' '')"
    and "\<And>n. take n raw \<noteq> reply_error \<and> \<not> starts_with (take n raw) (reply_error @ '' '')"
    by metis+
  then show ?thesis by (simp add: decodeError_def Let_def split: option.splits)
qed

lemma trimTrailingNewlines_snoc [simp]:
  "trimTrailingNewlines (s @ [LF]) = trimTrailingNewlines s"
  by (simp add: trimTrailingNewlines_def)

lemma decode_pong_wire: "decode_pong (encode_pong r @ [LF]) = Some PongResponse"
  by (simp add: decode_pong_def encode_pong_def trimTrailingNewlines_def wire_words)

lemma decode_ok_wire: "decode_ok (encode_ok r @ [LF]) = Some OkResponse"
  by (simp add: decode_ok_def encode_ok_def trimTrailingNewlines_def wire_words)

lemma find_char_header:
  "find_char LF (''MAX_SEVERITY: '' @ severityToString s @ LF # b) =
     Some (length (''MAX_SEVERITY: '' @ severityToString s))"
  using find_char_append [of LF "''MAX_SEVERITY: '' @ severityToString s" b]
  by (simp add: severityToString_chars)

lemma decode_report_wire:
  "decode_report (encode_report r @ t) = Some (r\<lparr>body := body r @ t\<rparr>)"
proof -
  define h where "h = ''MAX_SEVERITY: '' @ severityToString (max_severity r)"
  have w: "encode_report r @ t = h @ LF # (body r @ t)" by (simp add: encode_report_def h_def)
  have nl: "find_char LF (h @ LF # (body r @ t)) = Some (length h)"
    by (rule find_char_append) (simp add: h_def severityToString_chars)
  have col: "find_char CHR '':'' h = Some 12"
    using find_char_append [of "CHR '':''" "''MAX_SEVERITY''" "SP # severityToString (max_severity r)"]
    by (simp add: h_def)
  have "drop (12 + 1) h = SP # severityToString (max_severity r)" by (simp add: h_def)
  then have sp: "dropWhile (\<lambda>c. c = SP) (drop (12 + 1) h) = severityToString (max_severity r)"
    using severityToString_chars(3,4) [of "max_severity r"]
    by (cases "severityToString (max_severity r)") auto
  have tk: "take (length h) (h @ LF # (body r @ t)) = h"
    and dr: "drop (length h + 1) (h @ LF # (body r @ t)) = body r @ t" by simp_all
  show ?thesis
    unfolding w decode_report_def nl option.case tk dr Let_def col sp
    by (cases r) simp
qed

text \<open>A client that gets the reply of an exchange back from \<open>sendCommand\<close>.\<close>

lemma sendCommand_error:
  "LF \<notin> set (reason e) \<Longrightarrow>
   sendCommand dec (encode_error e @ [LF]) =
     Inl (let why = dropWhile (\<lambda>c. c = SP) (reason e)
          in if why = [] then Error ''request rejected'' else Error why)"
  using decodeError_encode [of e] by (simp add: sendCommand_def Let_def)

lemma sendCommand_pong: "sendCommand decode_pong (encode_pong r @ [LF]) = Inr PongResponse"
proof -
  have "decodeError (encode_pong r @ [LF]) = None"
    by (rule decodeError_not_ERR) (simp add: encode_pong_def wire_words starts_with_def)
  then show ?thesis by (simp add: sendCommand_def decode_pong_wire)
qed

lemma sendCommand_ok: "sendCommand decode_ok (encode_ok r @ [LF]) = Inr OkResponse"
proof -
  have "decodeError (encode_ok r @ [LF]) = None"
    by (rule decodeError_not_ERR) (simp add: encode_ok_def wire_words starts_with_def)
  then show ?thesis by (simp add: sendCommand_def decode_ok_wire)
qed

lemma sendCommand_report:
  "sendCommand decode_report (encode_report r @ t) = Inr (r\<lparr>body := body r @ t\<rparr>)"
proof -
  have "decodeError (encode_report r @ t) = None"
    by (rule decodeError_not_ERR) (simp add: encode_report_def wire_words starts_with_def)
  moreover have "encode_report r @ t \<noteq> []" by (simp add: encode_report_def)
  ultimately show ?thesis by (simp add: sendCommand_def decode_report_wire)
qed

section \<open>Properties\<close>

text \<open>
  C32: The server decodes every request a client encodes to the request it was, and what it
  decodes is never a start-phase request without a process or a phase name.
\<close>

theorem request_round_trip:
  "(\<forall>r. wf_request r \<longrightarrow> decodeRequest (encode_request r) = Some r) \<and>
   (\<forall>line r. decodeRequest line = Some r \<longrightarrow> wf_request r)"
  by (simp add: decode_encode_request decodeRequest_wf)

lemma request_round_trip_witness:
  "decodeRequest ''START-PHASE 4242 postinstall'' = Some (StartPhaseRequest 4242 ''postinstall'')"
proof -
  have "encode_request (StartPhaseRequest 4242 ''postinstall'') = ''START-PHASE 4242 postinstall''"
    by (simp add: wire_words dec_nat.simps char_of_def bit_0)
  moreover have "wf_request (StartPhaseRequest 4242 ''postinstall'')" by simp
  ultimately show ?thesis using request_round_trip by metis
qed

text \<open>
  C33: A reply the server encodes is what the client's \<open>sendCommand\<close> returns for the request:
  an error as an error with its reason (less leading blanks), a report with its severity and
  body (and the newline the server adds), a confirmation as itself.
\<close>

theorem reply_round_trip:
  assumes "LF \<notin> set (reason e)"
  shows "sendCommand decode_pong (encode_pong PongResponse @ [LF]) = Inr PongResponse \<and>
    sendCommand decode_ok (encode_ok OkResponse @ [LF]) = Inr OkResponse \<and>
    sendCommand decode_report (encode_report r @ [LF]) = Inr (r\<lparr>body := body r @ [LF]\<rparr>) \<and>
    sendCommand decode_ok (encode_error e @ [LF]) =
      Inl (let why = dropWhile (\<lambda>c. c = SP) (reason e)
           in if why = [] then Error ''request rejected'' else Error why)"
  using assms by (simp add: sendCommand_pong sendCommand_ok sendCommand_report sendCommand_error)

lemma reply_round_trip_witness:
  "sendCommand decode_ok (encode_error (Error ''pid 7 does not exist'') @ [LF]) =
     Inl (Error ''pid 7 does not exist'')"
  using reply_round_trip [of "Error ''pid 7 does not exist''"] by (simp add: Let_def)

end
