(* ===== verification/Session_State.thy ===== *)
theory Session_State
  imports Proto
begin

text \<open>
  The state of a monitoring session, \<^verbatim>\<open>src/daemon/session.h\<close> and \<^verbatim>\<open>src/daemon/session.cpp\<close>:
  the active phase, the findings, the package numbering, and the maps from process ids to
  packages and token masks. A \<open>std::unordered_map\<close> is a map; a \<open>std::vector\<close> a list.
\<close>

section \<open>Rules and findings\<close>

datatype rule_id =
    UnexpectedBinary
  | NonAllowlistedHost
  | TokenBearingDownloader
  | SensitiveFileRead
  | SensitiveFileWrite

record finding =
  f_rule_id :: rule_id
  f_severity :: severity
  f_pid :: u32
  f_package :: string
  f_lifecycle_phase :: string
  f_message :: string
  f_tokens_exposed :: "string list"
  f_blocked :: bool

text \<open>\<open>Finding f{}\<close>\<close>

definition default_finding :: finding where
  "default_finding =
     \<lparr>f_rule_id = UnexpectedBinary, f_severity = SevLow, f_pid = 0, f_package = [],
      f_lifecycle_phase = [], f_message = [], f_tokens_exposed = [], f_blocked = False\<rparr>"

section \<open>The session and its operations\<close>

record session =
  m_phaseName :: string
  m_watchedPid :: u32
  m_active :: bool
  m_findings :: "finding list"
  m_packageIdByName :: "string \<rightharpoonup> u32"
  m_packageNameById :: "string list"
  m_pidPackage :: "u32 \<rightharpoonup> u32"
  m_pidTokens :: "u32 \<rightharpoonup> u32"
  m_extractedPackages :: "string list"

definition new_session :: session where
  "new_session =
     \<lparr>m_phaseName = [], m_watchedPid = 0, m_active = False, m_findings = [],
      m_packageIdByName = Map.empty, m_packageNameById = [], m_pidPackage = Map.empty,
      m_pidTokens = Map.empty, m_extractedPackages = []\<rparr>"

definition startPhase :: "string \<Rightarrow> u32 \<Rightarrow> session \<Rightarrow> session" where
  "startPhase name watched_pid s =
     s\<lparr>m_phaseName := name, m_watchedPid := watched_pid, m_active := True\<rparr>"

definition endPhase :: "session \<Rightarrow> session" where
  "endPhase s = s\<lparr>m_active := False\<rparr>"

definition reset_session :: "session \<Rightarrow> session" where
  "reset_session s =
     s\<lparr>m_phaseName := [], m_watchedPid := 0, m_active := False, m_findings := [],
       m_packageIdByName := Map.empty, m_packageNameById := [], m_pidPackage := Map.empty,
       m_pidTokens := Map.empty, m_extractedPackages := []\<rparr>"

definition isActive :: "session \<Rightarrow> bool" where "isActive s = m_active s"
definition phaseName :: "session \<Rightarrow> string" where "phaseName s = m_phaseName s"
definition watchedPid :: "session \<Rightarrow> u32" where "watchedPid s = m_watchedPid s"

definition addFinding :: "finding \<Rightarrow> session \<Rightarrow> session" where
  "addFinding f s = s\<lparr>m_findings := m_findings s @ [f]\<rparr>"

definition findings :: "session \<Rightarrow> finding list" where "findings s = m_findings s"

definition internPackage :: "string \<Rightarrow> session \<Rightarrow> u32 \<times> session" where
  "internPackage name s = (case m_packageIdByName s name of
      Some i \<Rightarrow> (i, s)
    | None \<Rightarrow>
        (let i = (word_of_nat (length (m_packageNameById s)) :: u32) + 1 in
         (i, s\<lparr>m_packageNameById := m_packageNameById s @ [name],
              m_packageIdByName := (m_packageIdByName s)(name \<mapsto> i)\<rparr>)))"

definition packageName :: "u32 \<Rightarrow> session \<Rightarrow> string" where
  "packageName i s =
     (if i = 0 \<or> length (m_packageNameById s) < unat i then []
      else m_packageNameById s ! (unat i - 1))"

definition markExtracted :: "string \<Rightarrow> session \<Rightarrow> session" where
  "markExtracted name s =
     (if name \<notin> set (m_extractedPackages s)
      then s\<lparr>m_extractedPackages := m_extractedPackages s @ [name]\<rparr> else s)"

definition extractedPackages :: "session \<Rightarrow> string list" where
  "extractedPackages s = m_extractedPackages s"

definition packageHadExec :: "string \<Rightarrow> session \<Rightarrow> bool" where
  "packageHadExec name s \<longleftrightarrow> m_packageIdByName s name \<noteq> None"

definition setPidPackage :: "u32 \<Rightarrow> u32 \<Rightarrow> session \<Rightarrow> session" where
  "setPidPackage pid package_id s = s\<lparr>m_pidPackage := (m_pidPackage s)(pid \<mapsto> package_id)\<rparr>"

definition pidPackage :: "u32 \<Rightarrow> session \<Rightarrow> u32" where
  "pidPackage pid s = (case m_pidPackage s pid of Some v \<Rightarrow> v | None \<Rightarrow> 0)"

definition setPidTokens :: "u32 \<Rightarrow> u32 \<Rightarrow> session \<Rightarrow> session" where
  "setPidTokens pid token_mask s = s\<lparr>m_pidTokens := (m_pidTokens s)(pid \<mapsto> token_mask)\<rparr>"

definition pidTokens :: "u32 \<Rightarrow> session \<Rightarrow> u32" where
  "pidTokens pid s = (case m_pidTokens s pid of Some v \<Rightarrow> v | None \<Rightarrow> 0)"

fun max_sev_loop :: "finding list \<Rightarrow> severity \<Rightarrow> severity" where
  "max_sev_loop [] mx = mx"
| "max_sev_loop (f # fs) mx =
     max_sev_loop fs (if severity_num mx < severity_num (f_severity f) then f_severity f else mx)"

definition maxSeverity :: "session \<Rightarrow> severity" where
  "maxSeverity s = max_sev_loop (m_findings s) SevNone"

section \<open>What each operation changes\<close>

lemma session_ops [session_simps]:
  "m_findings (startPhase n p s) = m_findings s"
  "m_findings (endPhase s) = m_findings s"
  "m_findings (reset_session s) = []"
  "m_findings (addFinding f s) = m_findings s @ [f]"
  "m_findings (markExtracted n s) = m_findings s"
  "m_findings (setPidPackage p i s) = m_findings s"
  "m_findings (setPidTokens p t s) = m_findings s"
  "m_findings (snd (internPackage n s)) = m_findings s"
  by (simp_all add: startPhase_def endPhase_def reset_session_def addFinding_def markExtracted_def
      setPidPackage_def setPidTokens_def internPackage_def Let_def split: option.splits)

lemma session_active [session_simps]:
  "m_active (startPhase n p s)"
  "\<not> m_active (endPhase s)"
  "\<not> m_active (reset_session s)"
  "m_active (addFinding f s) = m_active s"
  "m_active (markExtracted n s) = m_active s"
  "m_active (setPidPackage p i s) = m_active s"
  "m_active (setPidTokens p t s) = m_active s"
  "m_active (snd (internPackage n s)) = m_active s"
  by (simp_all add: startPhase_def endPhase_def reset_session_def addFinding_def markExtracted_def
      setPidPackage_def setPidTokens_def internPackage_def Let_def split: option.splits)

lemma session_packages [session_simps]:
  "m_pidPackage (startPhase n p s) = m_pidPackage s"
  "m_pidPackage (endPhase s) = m_pidPackage s"
  "m_pidPackage (reset_session s) = Map.empty"
  "m_pidPackage (addFinding f s) = m_pidPackage s"
  "m_pidPackage (markExtracted n s) = m_pidPackage s"
  "m_pidPackage (setPidPackage p i s) = (m_pidPackage s)(p \<mapsto> i)"
  "m_pidPackage (setPidTokens p t s) = m_pidPackage s"
  "m_pidPackage (snd (internPackage n s)) = m_pidPackage s"
  by (simp_all add: startPhase_def endPhase_def reset_session_def addFinding_def markExtracted_def
      setPidPackage_def setPidTokens_def internPackage_def Let_def split: option.splits)

lemma session_tokens [session_simps]:
  "m_pidTokens (startPhase n p s) = m_pidTokens s"
  "m_pidTokens (endPhase s) = m_pidTokens s"
  "m_pidTokens (reset_session s) = Map.empty"
  "m_pidTokens (addFinding f s) = m_pidTokens s"
  "m_pidTokens (markExtracted n s) = m_pidTokens s"
  "m_pidTokens (setPidPackage p i s) = m_pidTokens s"
  "m_pidTokens (setPidTokens p t s) = (m_pidTokens s)(p \<mapsto> t)"
  "m_pidTokens (snd (internPackage n s)) = m_pidTokens s"
  by (simp_all add: startPhase_def endPhase_def reset_session_def addFinding_def markExtracted_def
      setPidPackage_def setPidTokens_def internPackage_def Let_def split: option.splits)

lemma session_names [session_simps]:
  "m_packageNameById (startPhase n p s) = m_packageNameById s"
  "m_packageNameById (endPhase s) = m_packageNameById s"
  "m_packageNameById (reset_session s) = []"
  "m_packageNameById (addFinding f s) = m_packageNameById s"
  "m_packageNameById (markExtracted n s) = m_packageNameById s"
  "m_packageNameById (setPidPackage p i s) = m_packageNameById s"
  "m_packageNameById (setPidTokens p t s) = m_packageNameById s"
  "m_packageIdByName (startPhase n p s) = m_packageIdByName s"
  "m_packageIdByName (endPhase s) = m_packageIdByName s"
  "m_packageIdByName (reset_session s) = Map.empty"
  "m_packageIdByName (addFinding f s) = m_packageIdByName s"
  "m_packageIdByName (markExtracted n s) = m_packageIdByName s"
  "m_packageIdByName (setPidPackage p i s) = m_packageIdByName s"
  "m_packageIdByName (setPidTokens p t s) = m_packageIdByName s"
  by (simp_all add: startPhase_def endPhase_def reset_session_def addFinding_def markExtracted_def
      setPidPackage_def setPidTokens_def)

lemma session_extracted [session_simps]:
  "m_extractedPackages (startPhase n p s) = m_extractedPackages s"
  "m_extractedPackages (endPhase s) = m_extractedPackages s"
  "m_extractedPackages (reset_session s) = []"
  "m_extractedPackages (addFinding f s) = m_extractedPackages s"
  "m_extractedPackages (setPidPackage p i s) = m_extractedPackages s"
  "m_extractedPackages (setPidTokens p t s) = m_extractedPackages s"
  "m_extractedPackages (snd (internPackage n s)) = m_extractedPackages s"
  by (simp_all add: startPhase_def endPhase_def reset_session_def addFinding_def
      setPidPackage_def setPidTokens_def internPackage_def Let_def split: option.splits)

text \<open>A reset session does not depend on what it held: it is a new one.\<close>

lemma reset_session_new: "reset_session s = new_session"
  by (simp add: reset_session_def new_session_def)

section \<open>Package numbers\<close>

text \<open>
  The numbering is a bijection between the interned names and \<open>1 .. n\<close>, as long as there
  are fewer than \<open>2^32 - 1\<close> of them (the number is computed in 32 bits).
\<close>

definition names_ok :: "session \<Rightarrow> bool" where
  "names_ok s \<longleftrightarrow> distinct (m_packageNameById s) \<and> length (m_packageNameById s) < 2 ^ 32 \<and>
     (\<forall>name i. m_packageIdByName s name = Some i \<longleftrightarrow>
        i \<noteq> 0 \<and> unat i \<le> length (m_packageNameById s) \<and> m_packageNameById s ! (unat i - 1) = name)"

definition names_room :: "session \<Rightarrow> bool" where
  "names_room s \<longleftrightarrow> length (m_packageNameById s) + 1 < 2 ^ 32"

definition known_id :: "u32 \<Rightarrow> session \<Rightarrow> bool" where
  "known_id i s \<longleftrightarrow> i \<noteq> 0 \<and> unat i \<le> length (m_packageNameById s)"

lemma names_ok_new [simp]: "names_ok new_session"
  by (auto simp: names_ok_def new_session_def unat_gt_0)

lemma names_ok_reset [simp]: "names_ok (reset_session s)"
  by (simp add: reset_session_new)

lemma names_ok_frame [session_simps]:
  "names_ok (startPhase n p s) = names_ok s" "names_ok (endPhase s) = names_ok s"
  "names_ok (addFinding f s) = names_ok s" "names_ok (markExtracted n s) = names_ok s"
  "names_ok (setPidPackage p i s) = names_ok s" "names_ok (setPidTokens p t s) = names_ok s"
  by (simp_all add: names_ok_def session_simps)

lemma known_id_frame [session_simps]:
  "known_id k (startPhase n p s) = known_id k s" "known_id k (endPhase s) = known_id k s"
  "known_id k (addFinding f s) = known_id k s" "known_id k (markExtracted n s) = known_id k s"
  "known_id k (setPidPackage p i s) = known_id k s" "known_id k (setPidTokens p t s) = known_id k s"
  by (simp_all add: known_id_def session_simps)

lemma unat_next_id:
  assumes "n + 1 < 2 ^ 32"
  shows "unat ((word_of_nat n :: u32) + 1) = n + 1"
proof (rule of_nat_inverse)
  show "word_of_nat (n + 1) = (word_of_nat n :: u32) + 1" by simp
  show "n + 1 < 2 ^ LENGTH(32)" using assms by simp
qed

lemma internPackage_old:
  "m_packageIdByName s name = Some i \<Longrightarrow> internPackage name s = (i, s)"
  by (simp add: internPackage_def)

lemma internPackage_new:
  assumes "m_packageIdByName s name = None" "names_room s"
  obtains i where "unat i = length (m_packageNameById s) + 1" and "i \<noteq> 0"
    and "internPackage name s =
      (i, s\<lparr>m_packageNameById := m_packageNameById s @ [name],
           m_packageIdByName := (m_packageIdByName s)(name \<mapsto> i)\<rparr>)"
proof
  let ?i = "(word_of_nat (length (m_packageNameById s)) :: u32) + 1"
  show u: "unat ?i = length (m_packageNameById s) + 1"
    using assms(2) by (intro unat_next_id) (simp add: names_room_def)
  then show "?i \<noteq> 0" by (metis Suc_eq_plus1 nat.distinct(1) unat_eq_zero)
  show "internPackage name s =
      (?i, s\<lparr>m_packageNameById := m_packageNameById s @ [name],
            m_packageIdByName := (m_packageIdByName s)(name \<mapsto> ?i)\<rparr>)"
    using assms(1) by (simp add: internPackage_def Let_def)
qed

lemma names_ok_notin:
  assumes "names_ok s" "m_packageIdByName s name = None"
  shows "name \<notin> set (m_packageNameById s)"
proof
  assume "name \<in> set (m_packageNameById s)"
  then obtain k where k: "k < length (m_packageNameById s)" "m_packageNameById s ! k = name"
    by (auto simp: in_set_conv_nth)
  let ?i = "(word_of_nat k :: u32) + 1"
  have "k + 1 < 2 ^ 32" using k(1) assms(1) by (simp add: names_ok_def)
  then have u: "unat ?i = k + 1" by (rule unat_next_id)
  then have "?i \<noteq> 0" by (metis Suc_eq_plus1 nat.distinct(1) unat_eq_zero)
  with u k have "m_packageIdByName s name = Some ?i"
    using assms(1) by (simp add: names_ok_def)
  with assms(2) show False by simp
qed

lemma known_index: "known_id i s \<Longrightarrow> unat i - 1 < length (m_packageNameById s)"
  using unat_gt_0 [of i] by (auto simp: known_id_def)

lemma known_packageName: "known_id i s \<Longrightarrow> packageName i s = m_packageNameById s ! (unat i - 1)"
  by (simp add: known_id_def packageName_def)

lemma packageName_unknown: "\<not> known_id i s \<Longrightarrow> packageName i s = []"
  by (auto simp: known_id_def packageName_def)

lemma names_ok_lookup:
  "names_ok s \<Longrightarrow> m_packageIdByName s name = Some i \<longleftrightarrow> known_id i s \<and> packageName i s = name"
  by (auto simp: names_ok_def known_id_def packageName_def)

lemma intern_preserves:
  assumes "names_ok s" "names_room s" "internPackage name s = (i, t)"
  shows "names_ok t" and "known_id i t" and "packageName i t = name"
    and "m_packageIdByName t name = Some i"
    and "known_id j s \<Longrightarrow> known_id j t \<and> packageName j t = packageName j s"
    and "m_packageIdByName s n \<noteq> None \<Longrightarrow> m_packageIdByName t n = m_packageIdByName s n"
proof -
  have "names_ok t \<and> known_id i t \<and> packageName i t = name \<and> m_packageIdByName t name = Some i \<and>
     (known_id j s \<longrightarrow> known_id j t \<and> packageName j t = packageName j s) \<and>
     (m_packageIdByName s n \<noteq> None \<longrightarrow> m_packageIdByName t n = m_packageIdByName s n)"
  proof (cases "m_packageIdByName s name")
    case (Some i')
    then have "i' = i" "t = s" using assms(3) by (simp_all add: internPackage_old)
    then show ?thesis using Some assms(1) by (auto simp: names_ok_lookup)
  next
    case None
    obtain i' where i': "unat i' = length (m_packageNameById s) + 1" "i' \<noteq> 0"
      and eq: "internPackage name s =
        (i', s\<lparr>m_packageNameById := m_packageNameById s @ [name],
             m_packageIdByName := (m_packageIdByName s)(name \<mapsto> i')\<rparr>)"
      using internPackage_new [OF None assms(2)] by blast
    have [simp]: "i' = i" using eq assms(3) by simp
    have t: "m_packageNameById t = m_packageNameById s @ [name]"
      "m_packageIdByName t = (m_packageIdByName s)(name \<mapsto> i)"
      using eq assms(3) by auto
    have room: "length (m_packageNameById t) < 2 ^ 32"
      using assms(2) t(1) by (simp add: names_room_def)
    have new: "name \<notin> set (m_packageNameById s)" by (rule names_ok_notin [OF assms(1) None])
    have old: "m_packageIdByName s n' = Some k \<longleftrightarrow> known_id k s \<and> m_packageNameById s ! (unat k - 1) = n'"
      for n' k using assms(1) by (simp add: names_ok_def known_id_def)
    have key: "known_id k t \<longleftrightarrow> known_id k s \<or> k = i" for k
    proof -
      have "unat k = length (m_packageNameById s) + 1 \<longleftrightarrow> k = i" using i'(1) by (auto simp: word_unat_eq_iff)
      then show ?thesis using i' by (auto simp: known_id_def t(1) le_Suc_eq)
    qed
    have nth: "known_id k s \<Longrightarrow> m_packageNameById t ! (unat k - 1) = m_packageNameById s ! (unat k - 1)" for k
      using known_index [of k s] by (simp add: t(1) nth_append)
    have nthi: "m_packageNameById t ! (unat i - 1) = name" using i' by (simp add: t(1))
    have kni: "\<not> known_id i s" using i'(1) by (simp add: known_id_def)
    have "m_packageIdByName t n' = Some k \<longleftrightarrow> known_id k t \<and> m_packageNameById t ! (unat k - 1) = n'"
      for n' k
    proof (cases "k = i")
      case True
      then show ?thesis using nthi key kni old [of n' i] by (auto simp: t(2))
    next
      case False
      have "known_id k s \<Longrightarrow> m_packageNameById s ! (unat k - 1) \<in> set (m_packageNameById s)"
        by (rule nth_mem [OF known_index])
      then show ?thesis using False new key [of k] nth [of k] old [of n' k] by (auto simp: t(2))
    qed
    then have "names_ok t"
      using assms(1) new room by (simp add: names_ok_def known_id_def t(1))
    moreover have "known_id i t" using key by simp
    ultimately show ?thesis
      using nthi nth key None by (auto simp: known_packageName t(2))
  qed
  then show "names_ok t" and "known_id i t" and "packageName i t = name"
    and "m_packageIdByName t name = Some i"
    and "known_id j s \<Longrightarrow> known_id j t \<and> packageName j t = packageName j s"
    and "m_packageIdByName s n \<noteq> None \<Longrightarrow> m_packageIdByName t n = m_packageIdByName s n"
    by auto
qed

section \<open>The numbering as an interface\<close>

text \<open>
  What the event handlers rely on: a number that names the package it was given for, and
  that no later numbering changes.
\<close>

locale interner =
  fixes intern :: "string \<Rightarrow> 's \<Rightarrow> 'i \<times> 's" and name_of :: "'i \<Rightarrow> 's \<Rightarrow> string"
    and known :: "'i \<Rightarrow> 's \<Rightarrow> bool" and ok :: "'s \<Rightarrow> bool" and room :: "'s \<Rightarrow> bool"
  assumes intern_ok: "ok s \<Longrightarrow> room s \<Longrightarrow> intern n s = (i, t) \<Longrightarrow> ok t"
    and intern_known: "ok s \<Longrightarrow> room s \<Longrightarrow> intern n s = (i, t) \<Longrightarrow> known i t \<and> name_of i t = n"
    and intern_stable: "ok s \<Longrightarrow> room s \<Longrightarrow> intern n s = (i, t) \<Longrightarrow> known j s \<Longrightarrow>
          known j t \<and> name_of j t = name_of j s"
    and names_unique: "ok s \<Longrightarrow> known i s \<Longrightarrow> known j s \<Longrightarrow> name_of i s = name_of j s \<Longrightarrow> i = j"
begin

text \<open>Numbers of two interned names agree exactly when the names do.\<close>

lemma intern_eq_iff:
  assumes "ok s" "room s" "intern m s = (i, t)" "room t" "intern n t = (j, u)"
  shows "i = j \<longleftrightarrow> m = n"
proof -
  have t: "ok t" "known i t" "name_of i t = m"
    using assms intern_ok intern_known by blast+
  have u: "ok u" "known j u" "name_of j u = n" "known i u" "name_of i u = m"
    using t assms(4,5) intern_ok intern_known intern_stable by metis+
  then show ?thesis using names_unique by metis
qed

end

interpretation packages: interner internPackage packageName known_id names_ok names_room
proof unfold_locales
  fix s t :: session and n i j
  show "names_ok s \<Longrightarrow> names_room s \<Longrightarrow> internPackage n s = (i, t) \<Longrightarrow> names_ok t"
    by (rule intern_preserves)
  show "names_ok s \<Longrightarrow> names_room s \<Longrightarrow> internPackage n s = (i, t) \<Longrightarrow>
      known_id i t \<and> packageName i t = n"
    by (simp add: intern_preserves)
  show "names_ok s \<Longrightarrow> names_room s \<Longrightarrow> internPackage n s = (i, t) \<Longrightarrow> known_id j s \<Longrightarrow>
      known_id j t \<and> packageName j t = packageName j s"
    by (rule intern_preserves)
  show "names_ok s \<Longrightarrow> known_id i s \<Longrightarrow> known_id j s \<Longrightarrow> packageName i s = packageName j s \<Longrightarrow> i = j"
    by (metis names_ok_lookup option.inject)
qed

section \<open>The severity of a session\<close>

lemma max_sev_loop_max: "max_sev_loop fs mx = fold (\<lambda>f. max (f_severity f)) fs mx"
  by (induction fs arbitrary: mx) (auto simp: max_def less_eq_severity_def)

lemma max_sev_loop_ge: "mx \<le> max_sev_loop fs mx"
  by (induction fs arbitrary: mx)
    (auto simp: less_eq_severity_def split: if_splits intro: order_trans less_imp_le)

lemma max_sev_loop_bound: "f \<in> set fs \<Longrightarrow> f_severity f \<le> max_sev_loop fs mx"
proof (induction fs arbitrary: mx)
  case Nil
  then show ?case by simp
next
  case (Cons g fs)
  show ?case
  proof (cases "f = g")
    case True
    have "f_severity g \<le> (if severity_num mx < severity_num (f_severity g) then f_severity g else mx)"
      by (auto simp: less_eq_severity_def)
    also have "\<dots> \<le> max_sev_loop fs \<dots>" by (rule max_sev_loop_ge)
    finally show ?thesis using True by simp
  next
    case False
    then show ?thesis using Cons by simp
  qed
qed

lemma max_sev_loop_attained: "max_sev_loop fs mx \<in> insert mx (f_severity ` set fs)"
  by (induction fs arbitrary: mx) (auto split: if_splits)

lemma maxSeverity_ge_iff:
  "b \<noteq> SevNone \<Longrightarrow> b \<le> maxSeverity s \<longleftrightarrow> (\<exists>f \<in> set (findings s). b \<le> f_severity f)"
proof
  assume b: "b \<noteq> SevNone" "b \<le> maxSeverity s"
  have "maxSeverity s \<noteq> SevNone" using b severity_order(1) [of b] by (metis order_antisym)
  then obtain f where "f \<in> set (m_findings s)" "maxSeverity s = f_severity f"
    using max_sev_loop_attained [of "m_findings s" SevNone] by (auto simp: maxSeverity_def)
  with b show "\<exists>f \<in> set (findings s). b \<le> f_severity f" by (auto simp: findings_def)
next
  assume "\<exists>f \<in> set (findings s). b \<le> f_severity f"
  then show "b \<le> maxSeverity s"
    using max_sev_loop_bound order_trans by (fastforce simp: findings_def maxSeverity_def)
qed

lemma maxSeverity_None: "maxSeverity s = SevNone \<longleftrightarrow> (\<forall>f \<in> set (findings s). f_severity f = SevNone)"
  using maxSeverity_ge_iff [of _ s] max_sev_loop_bound max_sev_loop_attained
  by (metis findings_def imageE insertE maxSeverity_def order_antisym severity_order(1))

lemma maxSeverity_add:
  "maxSeverity (addFinding f s) = max (maxSeverity s) (f_severity f)"
proof -
  have "max_sev_loop (fs @ [f]) mx = max (max_sev_loop fs mx) (f_severity f)" for fs mx
    by (simp add: max_sev_loop_max max.commute)
  then show ?thesis by (simp add: maxSeverity_def session_simps)
qed

section \<open>Properties\<close>

text \<open>
  C25: Interning a package name gives a number that stands for this name, the same number
  whenever the name is interned again and another one for every other name, and leaves the
  number of every package interned before as it was.
\<close>

theorem intern_numbering:
  assumes "names_ok s" "names_room s" "internPackage m s = (i, t)"
    and "names_room t" "internPackage n t = (j, u)"
  shows "i \<noteq> 0 \<and> packageName i t = m \<and> packageName i u = m \<and> packageName j u = n \<and>
    (i = j \<longleftrightarrow> m = n) \<and> packageHadExec m u \<and> names_ok u"
proof -
  have t: "names_ok t" "known_id i t" "packageName i t = m"
    using packages.intern_ok [OF assms(1-3)] packages.intern_known [OF assms(1-3)] by simp_all
  have u: "names_ok u" "known_id j u \<and> packageName j u = n" "known_id i u \<and> packageName i u = packageName i t"
    using packages.intern_ok [OF t(1) assms(4,5)] packages.intern_known [OF t(1) assms(4,5)]
      packages.intern_stable [OF t(1) assms(4,5) t(2)] by simp_all
  have "m_packageIdByName u m = Some i" using u t(3) names_ok_lookup by metis
  with t u packages.intern_eq_iff [OF assms] show ?thesis
    by (simp add: packageHadExec_def known_id_def)
qed

lemma intern_numbering_witness:
  "packageName 1 (snd (internPackage ''left-pad'' (snd (internPackage ''react'' new_session)))) = ''react''"
proof -
  let ?t = "snd (internPackage ''react'' new_session)"
  have "internPackage ''react'' new_session = (1, ?t)"
    by (simp add: internPackage_def new_session_def)
  moreover have "names_room ?t" by (simp add: names_room_def internPackage_def new_session_def)
  moreover have "names_room new_session" by (simp add: names_room_def new_session_def)
  ultimately show ?thesis
    using intern_numbering [of new_session "''react''" 1 ?t "''left-pad''"
        "fst (internPackage ''left-pad'' ?t)" "snd (internPackage ''left-pad'' ?t)"]
    by simp
qed

text \<open>
  The severity of a session is the greatest of its findings: a severity other than
  \<open>none\<close> is reached exactly when some finding reaches it, and it is \<open>none\<close> exactly when no
  finding has another one.
\<close>

theorem maxSeverity_correct:
  "(\<forall>b. b \<noteq> SevNone \<longrightarrow> (b \<le> maxSeverity s \<longleftrightarrow> (\<exists>f \<in> set (findings s). b \<le> f_severity f))) \<and>
   (maxSeverity s = SevNone \<longleftrightarrow> (\<forall>f \<in> set (findings s). f_severity f = SevNone))"
  by (simp add: maxSeverity_ge_iff maxSeverity_None)

lemma maxSeverity_correct_witness:
  "SevMedium \<le> maxSeverity (addFinding (default_finding\<lparr>f_severity := SevHigh\<rparr>) new_session)"
  by (rule iffD2 [OF conjunct1 [OF maxSeverity_correct, rule_format]])
    (simp_all add: findings_def session_simps less_eq_severity_def)

end
