(* ===== verification/Rules.thy ===== *)
theory Rules
  imports Layout Session_State
begin

text \<open>
  The detection rules, \<^verbatim>\<open>src/daemon/rules.h\<close> and \<^verbatim>\<open>src/daemon/rules.cpp\<close>: the constant
  tables, the allowlist of addresses, and the three rule functions, which look at one event
  and add at most one finding to the session.
\<close>

unbundle bit_operations_syntax

section \<open>Tables\<close>

record rule_info =
  ri_id :: rule_id
  ri_code :: string
  ri_title :: string

definition rule_table :: "rule_info list" where
  "rule_table =
    [\<lparr>ri_id = UnexpectedBinary, ri_code = ''R1'', ri_title = ''lifecycle-spawned-unexpected-binary''\<rparr>,
     \<lparr>ri_id = NonAllowlistedHost, ri_code = ''R2'', ri_title = ''outbound-to-non-allowlisted-host''\<rparr>,
     \<lparr>ri_id = TokenBearingDownloader, ri_code = ''R3'',
       ri_title = ''secret-bearing-lifecycle-spawned-downloader''\<rparr>,
     \<lparr>ri_id = SensitiveFileRead, ri_code = ''R4'', ri_title = ''sensitive-file-read-by-descendant''\<rparr>,
     \<lparr>ri_id = SensitiveFileWrite, ri_code = ''R5'',
       ri_title = ''sensitive-file-modified-during-install''\<rparr>]"

fun rule_info_loop :: "rule_info list \<Rightarrow> rule_id \<Rightarrow> rule_info" where
  "rule_info_loop [] i = hd rule_table" \<comment> \<open>\<open>rule_table.front()\<close>\<close>
| "rule_info_loop (r # rs) i = (if ri_id r = i then r else rule_info_loop rs i)"

definition ruleInfo :: "rule_id \<Rightarrow> rule_info" where
  "ruleInfo i = rule_info_loop rule_table i"

definition dangerous_basenames :: "string list" where
  "dangerous_basenames =
    [''curl'', ''wget'', ''python'', ''python3'', ''perl'', ''ruby'', ''base64'', ''openssl'',
     ''nc'', ''ncat'', ''socat'']"

definition lifecycle_phases :: "string list" where
  "lifecycle_phases = [''preinstall'', ''install'', ''postinstall'', ''prepare'']"

definition isDangerousBasename :: "string \<Rightarrow> bool" where
  "isDangerousBasename comm \<longleftrightarrow> list_ex (\<lambda>s. s = comm) dangerous_basenames"

definition isLifecyclePhase :: "string \<Rightarrow> bool" where
  "isLifecyclePhase phase \<longleftrightarrow> list_ex (\<lambda>s. s = phase) lifecycle_phases"

definition tokensFromMask :: "u32 \<Rightarrow> string list" where
  "tokensFromMask m = map t_name (filter (has_token m) token_table)"

definition hasNonGithubToken :: "u32 \<Rightarrow> bool" where
  "hasNonGithubToken m \<longleftrightarrow> m AND NOT token_bit_github_token \<noteq> 0"

definition persistence_patterns :: "string list" where
  "persistence_patterns =
    [''/.npmrc'', ''/.gitconfig'', ''/.ssh/authorized_keys'', ''/.github/workflows'',
     ''/.git/hooks/'', ''/.bashrc'']"

definition credential_patterns :: "string list" where
  "credential_patterns =
    [''/.npmrc'', ''/.aws/credentials'', ''/.ssh/'', ''/var/run/secrets'', ''/.docker/config.json'']"

definition isPersistenceVector :: "string \<Rightarrow> bool" where
  "isPersistenceVector path \<longleftrightarrow> list_ex (\<lambda>p. contains_sub path p) persistence_patterns"

definition isCredentialFile :: "string \<Rightarrow> bool" where
  "isCredentialFile path \<longleftrightarrow> list_ex (\<lambda>p. contains_sub path p) credential_patterns"

fun format_token_loop :: "string list \<Rightarrow> string \<Rightarrow> string" where
  "format_token_loop [] out = out"
| "format_token_loop (t # ts) out =
     format_token_loop ts ((if out \<noteq> [] then out @ '', '' else out) @ ''`'' @ t @ ''`'')"

definition formatTokenList :: "string list \<Rightarrow> string" where
  "formatTokenList tokens = format_token_loop tokens []"

section \<open>The allowlist\<close>

text \<open>\<open>memcpy\<close> of the four bytes of an address in network order, as they lie in memory.\<close>

definition mapV4 :: "ipv4 \<Rightarrow> ipv6" where
  "mapV4 addr_n = replicate 10 0 @ [0xff, 0xff] @ bytes32 addr_n"

text \<open>
  One entry of the list \<open>getaddrinfo\<close> returns. The resolver is a parameter: the list for a
  host, or \<^const>\<open>None\<close> where the call fails.
\<close>

datatype addrinfo = AF_INET ipv4 | AF_INET6 ipv6 | AF_Other

type_synonym resolver = "string \<Rightarrow> addrinfo list option"
type_synonym allowlist = "ipv6 list"

definition push_addr :: "ipv6 \<Rightarrow> allowlist \<Rightarrow> allowlist" where
  "push_addr addr m_addrs = (if addr \<notin> set m_addrs then m_addrs @ [addr] else m_addrs)"

fun addHost_loop :: "addrinfo list \<Rightarrow> allowlist \<Rightarrow> allowlist" where
  "addHost_loop [] m_addrs = m_addrs"
| "addHost_loop (p # ps) m_addrs =
     (case p of
        AF_INET s_addr \<Rightarrow> addHost_loop ps (push_addr (mapV4 s_addr) m_addrs)
      | AF_INET6 sin6_addr \<Rightarrow> addHost_loop ps (push_addr sin6_addr m_addrs)
      | AF_Other \<Rightarrow> addHost_loop ps m_addrs)"

definition addHost :: "resolver \<Rightarrow> string \<Rightarrow> allowlist \<Rightarrow> allowlist" where
  "addHost getaddrinfo host m_addrs =
     (case getaddrinfo host of None \<Rightarrow> m_addrs | Some res \<Rightarrow> addHost_loop res m_addrs)"

definition contains_v6 :: "allowlist \<Rightarrow> ipv6 \<Rightarrow> bool" where
  "contains_v6 m_addrs addr \<longleftrightarrow> addr \<in> set m_addrs"

definition contains_v4 :: "allowlist \<Rightarrow> ipv4 \<Rightarrow> bool" where
  "contains_v4 m_addrs addr_n \<longleftrightarrow> contains_v6 m_addrs (mapV4 addr_n)"

definition addrs :: "allowlist \<Rightarrow> ipv6 list" where
  "addrs m_addrs = m_addrs"

section \<open>The rule functions\<close>

definition event_comm :: "event_exec \<Rightarrow> string" where
  "event_comm e = takeWhile (\<lambda>c. c \<noteq> NUL) (take comm_max (ex_comm e))"

definition onExec ::
  "event_exec \<Rightarrow> string \<Rightarrow> u32 \<Rightarrow> u32 \<Rightarrow> string \<Rightarrow> string \<Rightarrow> session \<Rightarrow> session" where
  "onExec e argv token_mask package_id package_name phase s =
     (if \<not> isActive s \<or> package_id = 0 then s
      else let comm = event_comm e in
      if \<not> isDangerousBasename comm then s
      else if \<not> isLifecyclePhase phase then s
      else let tokens = tokensFromMask token_mask in
      if hasNonGithubToken token_mask then
        (let token_list = formatTokenList tokens;
             f = default_finding\<lparr>
               f_rule_id := TokenBearingDownloader,
               f_severity := SevHigh,
               f_pid := h_pid (ex_hdr e),
               f_package := package_name,
               f_lifecycle_phase := phase,
               f_tokens_exposed := tokens,
               f_message := ''Lifecycle script for `'' @ package_name @ ''` ('' @ phase @ '') had '' @
                 token_list @ '' in its environment when it ran `'' @ comm @ ''` (argv: `'' @ argv @
                 ''`). Rotate these.''\<rparr>
         in addFinding f s)
      else
        (let f = default_finding\<lparr>
               f_rule_id := UnexpectedBinary,
               f_severity := SevHigh,
               f_pid := h_pid (ex_hdr e),
               f_package := package_name,
               f_lifecycle_phase := phase,
               f_message := ''Package `'' @ package_name @ ''` ('' @ phase @ '') spawned `'' @ comm @
                 ''` (argv: `'' @ argv @ ''`).''\<rparr>
         in addFinding f s))"

text \<open>The dash of \<open>" \<dots> blocked."\<close> is U+2014, three bytes in UTF-8.\<close>

definition em_dash :: string where "em_dash = [CHR 0xE2, CHR 0x80, CHR 0x94]"

definition onConnect ::
  "event_connect \<Rightarrow> string \<Rightarrow> allowlist \<Rightarrow> u32 \<Rightarrow> string \<Rightarrow> session \<Rightarrow> session" where
  "onConnect e ip allow package_id package_name s =
     (if \<not> isActive s \<or> package_id = 0 then s
      else let addr = take 16 (cn_addr e) in
      if contains_v6 allow addr then s
      else let pid_tokens = pidTokens (h_pid (cn_hdr e)) s;
               has_tokens = hasNonGithubToken pid_tokens;
               blk = (cn_blocked e \<noteq> 0);
               f = default_finding\<lparr>
                 f_rule_id := NonAllowlistedHost,
                 f_severity := (if has_tokens then SevHigh else SevMedium),
                 f_pid := h_pid (cn_hdr e),
                 f_package := package_name,
                 f_tokens_exposed := tokensFromMask pid_tokens,
                 f_blocked := blk,
                 f_message := ''Connection to `'' @ ip @ '':'' @ dec_u16 (cn_port e) @ ''` from `'' @
                   package_name @ ''` (pid '' @ dec_u32 (h_pid (cn_hdr e)) @ '')'' @
                   (if blk then '' '' @ em_dash @ '' blocked.'' else ''.'')\<rparr>
           in addFinding f s)"

text \<open>\<open>O_CREAT\<close> is 0100 and \<open>O_APPEND\<close> 02000, both octal.\<close>

definition writable_flags :: "u32 \<Rightarrow> bool" where
  "writable_flags flags \<longleftrightarrow> flags AND 0x3 \<noteq> 0 \<or> flags AND 64 \<noteq> 0 \<or> flags AND 1024 \<noteq> 0"

definition onOpen :: "event_open \<Rightarrow> string \<Rightarrow> u32 \<Rightarrow> string \<Rightarrow> session \<Rightarrow> session" where
  "onOpen e path package_id package_name s =
     (if \<not> isActive s \<or> package_id = 0 then s
      else let writable = writable_flags (op_flags e) in
      if writable \<and> isPersistenceVector path then
        (let f = default_finding\<lparr>
               f_rule_id := SensitiveFileWrite,
               f_severity := SevHigh,
               f_pid := h_pid (op_hdr e),
               f_package := package_name,
               f_message := ''Process (pid '' @ dec_u32 (h_pid (op_hdr e)) @ '', from `'' @
                 package_name @ ''`) modified `'' @ path @ ''` during install. Persistence vector.''\<rparr>
         in addFinding f s)
      else if \<not> writable \<and> isCredentialFile path then
        (let f = default_finding\<lparr>
               f_rule_id := SensitiveFileRead,
               f_severity := SevHigh,
               f_pid := h_pid (op_hdr e),
               f_package := package_name,
               f_message := ''Process (pid '' @ dec_u32 (h_pid (op_hdr e)) @ '', from `'' @
                 package_name @ ''`) read `'' @ path @ ''`.''\<rparr>
         in addFinding f s)
      else s)"

section \<open>The tables\<close>

lemma ri_id_ruleInfo [simp]: "ri_id (ruleInfo i) = i"
  by (cases i) (simp_all add: ruleInfo_def rule_table_def)

lemma ruleInfo_code_inj: "ri_code (ruleInfo i) = ri_code (ruleInfo j) \<longleftrightarrow> i = j"
  by (cases i; cases j) (simp_all add: ruleInfo_def rule_table_def)

lemma isDangerousBasename_iff: "isDangerousBasename c \<longleftrightarrow> c \<in> set dangerous_basenames"
  by (auto simp: isDangerousBasename_def list_ex_iff)

lemma isLifecyclePhase_iff: "isLifecyclePhase c \<longleftrightarrow> c \<in> set lifecycle_phases"
  by (auto simp: isLifecyclePhase_def list_ex_iff)

section \<open>Token masks\<close>

text \<open>The mask of a set of tokens of the table.\<close>

definition mask_of :: "token_info list \<Rightarrow> u32" where
  "mask_of ts = fold (\<lambda>t m. m OR t_bit t) ts 0"

lemma fold_or_token:
  assumes "set ts \<subseteq> set token_table" "u \<in> set token_table"
  shows "has_token (fold (\<lambda>t m. m OR t_bit t) ts m) u \<longleftrightarrow> u \<in> set ts \<or> has_token m u"
  using assms(1)
proof (induction ts arbitrary: m)
  case Nil
  then show ?case by simp
next
  case (Cons t ts)
  have t: "t \<in> set token_table" using Cons.prems by simp
  have "has_token (m OR t_bit t) u \<longleftrightarrow> u = t \<or> has_token m u"
  proof (cases "u = t")
    case True
    have "(m OR t_bit t) AND t_bit t = t_bit t"
      by (intro bit_word_eqI) (auto simp: bit_and_iff bit_or_iff)
    then show ?thesis using True token_table_bit_nonzero [OF t] by (simp add: has_token_def)
  next
    case False
    then have "t_bit t AND t_bit u = 0" using token_table_bits_disjoint [OF t assms(2)] by blast
    then have "(m OR t_bit t) AND t_bit u = m AND t_bit u"
      by (simp add: bit.conj_disj_distrib2)
    then show ?thesis using False by (simp add: has_token_def)
  qed
  with Cons show ?case by auto
qed

lemma has_token_mask_of:
  "set ts \<subseteq> set token_table \<Longrightarrow> u \<in> set token_table \<Longrightarrow> has_token (mask_of ts) u \<longleftrightarrow> u \<in> set ts"
  unfolding mask_of_def by (subst fold_or_token) (auto simp: has_token_def)

lemma tokensFromMask_iff:
  "n \<in> set (tokensFromMask m) \<longleftrightarrow> (\<exists>t \<in> set token_table. has_token m t \<and> n = t_name t)"
  by (auto simp: tokensFromMask_def)

lemma tokensFromMask_distinct: "distinct (tokensFromMask m)"
  using token_table_names_distinct
  by (simp add: tokensFromMask_def distinct_map inj_on_def distinct_filter)

text \<open>
  A mask made of bits of the table has a token other than \<open>GITHUB_TOKEN\<close> exactly when its
  list of names does.
\<close>

definition mask_ok :: "u32 \<Rightarrow> bool" where
  "mask_ok m \<longleftrightarrow> m AND NOT 511 = 0"

lemma mask_ok_or: "mask_ok a \<Longrightarrow> t \<in> set token_table \<Longrightarrow> mask_ok (a OR t_bit t)"
proof -
  assume a: "mask_ok a" "t \<in> set token_table"
  have "t_bit t \<in> set (map t_bit token_table)" using a(2) by simp
  then have "t_bit t AND NOT 511 = 0" by (auto simp: token_bits)
  with a(1) show ?thesis by (simp add: mask_ok_def bit.conj_disj_distrib2)
qed

lemma token_names: "map t_name token_table =
    [''NPM_TOKEN'', ''NODE_AUTH_TOKEN'', ''GITHUB_TOKEN'', ''AWS_ACCESS_KEY_ID'',
     ''AWS_SECRET_ACCESS_KEY'', ''AWS_SESSION_TOKEN'', ''VAULT_TOKEN'', ''SSH_AUTH_SOCK'',
     ''DOCKER_AUTH_CONFIG'']"
  by (simp add: token_table_def)

lemma non_github_bits:
  "(t_name t \<noteq> ''GITHUB_TOKEN'') = (t_bit t \<noteq> 4)" if "t \<in> set token_table"
  using that by (auto simp: token_table_def token_bit_values)

lemma hasNonGithubToken_iff:
  assumes "mask_ok m"
  shows "hasNonGithubToken m \<longleftrightarrow> (\<exists>n \<in> set (tokensFromMask m). n \<noteq> ''GITHUB_TOKEN'')"
proof -
  have "NOT 4 = (NOT 511 :: u32) OR (1 OR 2 OR 8 OR 16 OR 32 OR 64 OR 128 OR 256)" by simp
  then have "m AND NOT 4 = (m AND NOT 511) OR
      (m AND 1 OR m AND 2 OR m AND 8 OR m AND 16 OR m AND 32 OR m AND 64 OR m AND 128 OR m AND 256)"
    by (simp only: bit.conj_disj_distrib)
  then have "hasNonGithubToken m \<longleftrightarrow> (\<exists>b \<in> set [1, 2, 8, 16, 32, 64, 128, 256]. m AND b \<noteq> 0)"
    using assms by (simp add: hasNonGithubToken_def token_bit_values mask_ok_def or_eq_0_iff)
  also have "\<dots> \<longleftrightarrow> (\<exists>b \<in> set (map t_bit token_table). b \<noteq> 4 \<and> m AND b \<noteq> 0)"
    by (simp add: token_bits)
  also have "\<dots> \<longleftrightarrow> (\<exists>t \<in> set token_table. t_name t \<noteq> ''GITHUB_TOKEN'' \<and> has_token m t)"
    using non_github_bits by (auto simp: has_token_def)
  also have "\<dots> \<longleftrightarrow> (\<exists>n \<in> set (tokensFromMask m). n \<noteq> ''GITHUB_TOKEN'')"
    by (auto simp: tokensFromMask_def)
  finally show ?thesis .
qed

text \<open>The list of tokens in a message: each in backquotes, separated by commas.\<close>

lemma format_token_loop_concat:
  "out \<noteq> [] \<Longrightarrow> format_token_loop ts out = out @ concat (map (\<lambda>t. '', `'' @ t @ ''`'') ts)"
  by (induction ts arbitrary: out) auto

section \<open>What a rule function does to a session\<close>

definition appends :: "(finding \<Rightarrow> bool) \<Rightarrow> session \<Rightarrow> session \<Rightarrow> bool" where
  "appends P s t \<longleftrightarrow> t = s \<or> (\<exists>f. P f \<and> t = addFinding f s)"

lemma appends_refl [simp, intro]: "appends P s s"
  by (simp add: appends_def)

lemma appends_add [intro]: "P f \<Longrightarrow> appends P s (addFinding f s)"
  by (auto simp: appends_def)

lemma appends_frame:
  assumes "appends P s t"
  shows "m_active t = m_active s" "m_pidPackage t = m_pidPackage s" "m_pidTokens t = m_pidTokens s"
    "m_packageNameById t = m_packageNameById s" "m_packageIdByName t = m_packageIdByName s"
    "m_extractedPackages t = m_extractedPackages s" "m_phaseName t = m_phaseName s"
    "m_watchedPid t = m_watchedPid s" "names_ok t = names_ok s"
  using assms by (auto simp: appends_def session_simps addFinding_def names_ok_def)

lemma appends_mono: "appends P s t \<Longrightarrow> (\<And>f. P f \<Longrightarrow> Q f) \<Longrightarrow> appends Q s t"
  by (auto simp: appends_def)

definition finding_for :: "bool \<Rightarrow> u32 \<Rightarrow> string \<Rightarrow> finding \<Rightarrow> bool" where
  "finding_for blk pid package f \<longleftrightarrow> f_pid f = pid \<and> f_package f = package \<and>
     SevMedium \<le> f_severity f \<and> (f_blocked f \<longrightarrow> blk \<and> f_rule_id f = NonAllowlistedHost)"

lemma SevMedium_le_High [simp]: "SevMedium \<le> SevMedium"
  by simp

lemma onExec_appends:
  "appends (finding_for False (h_pid (ex_hdr e)) name) s (onExec e argv m pkg name phase s)"
  by (auto simp: onExec_def Let_def finding_for_def default_finding_def)

lemma onConnect_appends:
  "appends (finding_for (cn_blocked e \<noteq> 0) (h_pid (cn_hdr e)) name) s (onConnect e ip allow pkg name s)"
  by (auto simp: onConnect_def Let_def finding_for_def default_finding_def)

lemma onOpen_appends:
  "appends (finding_for False (h_pid (op_hdr e)) name) s (onOpen e path pkg name s)"
  by (auto simp: onOpen_def Let_def finding_for_def default_finding_def)

lemma rules_inactive:
  "\<not> isActive s \<Longrightarrow> onExec e argv m pkg name phase s = s"
  "\<not> isActive s \<Longrightarrow> onConnect c ip allow pkg name s = s"
  "\<not> isActive s \<Longrightarrow> onOpen p path pkg name s = s"
  by (simp_all add: onExec_def onConnect_def onOpen_def)

lemma rules_no_package:
  "onExec e argv m 0 name phase s = s" "onConnect c ip allow 0 name s = s"
  "onOpen p path 0 name s = s"
  by (simp_all add: onExec_def onConnect_def onOpen_def)

section \<open>Sets of addresses as an interface\<close>

text \<open>
  Both sides keep a set of addresses: the daemon a list, the kernel a hash map. What their
  users rely on is the same.
\<close>

locale address_set =
  fixes has :: "'a \<Rightarrow> ipv6 \<Rightarrow> bool" and add :: "ipv6 \<Rightarrow> 'a \<Rightarrow> 'a"
  assumes has_add: "has (add a s) b \<longleftrightarrow> b = a \<or> has s b"
begin

lemma has_fold: "has (fold add as s) b \<longleftrightarrow> b \<in> set as \<or> has s b"
  by (induction as arbitrary: s) (auto simp: has_add)

lemma add_again: "has s a \<Longrightarrow> has (add a s) = has s"
  using has_add by auto

lemma has_add_commute: "has (add a (add b s)) = has (add b (add a s))"
  by (rule ext) (auto simp: has_add)

end

interpretation daemon_addrs: address_set contains_v6 push_addr
  by unfold_locales (auto simp: contains_v6_def push_addr_def)

text \<open>The addresses a resolver answer stands for, in the one form the allowlist keeps.\<close>

fun addrinfo_keys :: "addrinfo \<Rightarrow> ipv6 list" where
  "addrinfo_keys (AF_INET a) = [mapV4 a]"
| "addrinfo_keys (AF_INET6 a) = [a]"
| "addrinfo_keys AF_Other = []"

lemma addHost_loop_fold: "addHost_loop ps as = fold push_addr (concat (map addrinfo_keys ps)) as"
  by (induction ps as rule: addHost_loop.induct) (auto split: addrinfo.splits)

definition host_keys :: "resolver \<Rightarrow> string \<Rightarrow> ipv6 list" where
  "host_keys R h = (case R h of None \<Rightarrow> [] | Some res \<Rightarrow> concat (map addrinfo_keys res))"

lemma addHost_fold: "addHost R h as = fold push_addr (host_keys R h) as"
  by (simp add: addHost_def host_keys_def addHost_loop_fold split: option.splits)

lemma addHost_contains:
  "contains_v6 (addHost R h as) a \<longleftrightarrow> a \<in> set (host_keys R h) \<or> contains_v6 as a"
  by (simp add: addHost_fold daemon_addrs.has_fold)

lemma push_addr_distinct: "distinct as \<Longrightarrow> distinct (push_addr a as)"
  by (simp add: push_addr_def)

lemma addHost_distinct: "distinct as \<Longrightarrow> distinct (addHost R h as)"
proof -
  have "distinct as \<Longrightarrow> distinct (fold push_addr ks as)" for ks
    by (induction ks arbitrary: as) (auto intro: push_addr_distinct)
  then show "distinct as \<Longrightarrow> distinct (addHost R h as)" by (simp add: addHost_fold)
qed

lemma length_mapV4 [simp]: "length (mapV4 a) = 16"
  by (simp add: mapV4_def)

lemma mapV4_inj: "mapV4 a = mapV4 b \<longleftrightarrow> a = b"
proof
  assume "mapV4 a = mapV4 b"
  then have "bytes32 a = bytes32 b" by (simp add: mapV4_def)
  then have "(word_of_nat (le_val (bytes32 a)) :: u32) = word_of_nat (le_val (bytes32 b))" by (rule arg_cong)
  then show "a = b" by (simp only: val_bytes)
qed simp

section \<open>Properties\<close>

lemma addFinding_inject [simp]: "addFinding f s = addFinding g s \<longleftrightarrow> f = g"
  by (auto simp: addFinding_def dest: arg_cong [of _ _ m_findings])

text \<open>
  C14: The exec rule reports a process of a package exactly when, in an active phase, the
  process runs one of the dangerous binaries in a lifecycle script: one finding of high
  severity about that process, package and phase, R3 with the exposed tokens if the
  environment has one other than \<open>GITHUB_TOKEN\<close>, otherwise R1. Nothing else changes.
\<close>

theorem onExec_reports:
  assumes "mask_ok m"
  shows "if isActive s \<and> pkg \<noteq> 0 \<and> event_comm e \<in> set dangerous_basenames \<and> phase \<in> set lifecycle_phases
    then \<exists>f. onExec e argv m pkg name phase s = addFinding f s \<and> f_severity f = SevHigh \<and>
      f_pid f = h_pid (ex_hdr e) \<and> f_package f = name \<and> f_lifecycle_phase f = phase \<and> \<not> f_blocked f \<and>
      (if \<exists>n \<in> set (tokensFromMask m). n \<noteq> ''GITHUB_TOKEN''
       then f_rule_id f = TokenBearingDownloader \<and> f_tokens_exposed f = tokensFromMask m
       else f_rule_id f = UnexpectedBinary \<and> f_tokens_exposed f = [])
    else onExec e argv m pkg name phase s = s"
  using hasNonGithubToken_iff [OF assms]
  by (simp add: onExec_def Let_def isDangerousBasename_iff isLifecyclePhase_iff default_finding_def)

lemma onExec_reports_witness:
  "\<exists>f. onExec \<lparr>ex_hdr = \<lparr>h_type = 1, h_pad = [0, 0, 0], h_pid = 7, h_ppid = 1, h_reserved = 0, h_ts_ns = 0\<rparr>,
       ex_argv_len = 0, ex_env_len = 0, ex_package_id = 1, ex_reserved = 0, ex_comm = ''curl'' @ replicate 12 NUL,
       ex_argv = [], ex_env = []\<rparr> ''curl x'' 1 1 ''evil'' ''postinstall'' (startPhase ''ci'' 1 new_session) =
     addFinding f (startPhase ''ci'' 1 new_session) \<and> f_rule_id f = TokenBearingDownloader \<and>
     f_tokens_exposed f = [''NPM_TOKEN'']"
proof -
  have tok: "tokensFromMask 1 = [''NPM_TOKEN'']"
    by (simp add: tokensFromMask_def token_table_def has_token_def token_bit_values)
  have "mask_ok 1" by (simp add: mask_ok_def)
  from onExec_reports [OF this, of "startPhase ''ci'' 1 new_session" 1
      "\<lparr>ex_hdr = \<lparr>h_type = 1, h_pad = [0, 0, 0], h_pid = 7, h_ppid = 1, h_reserved = 0, h_ts_ns = 0\<rparr>,
       ex_argv_len = 0, ex_env_len = 0, ex_package_id = 1, ex_reserved = 0, ex_comm = ''curl'' @ replicate 12 NUL,
       ex_argv = [], ex_env = []\<rparr>" "''postinstall''" "''curl x''" "''evil''"]
  show ?thesis
    by (auto simp: tok isActive_def session_simps event_comm_def dangerous_basenames_def
        lifecycle_phases_def event_bounds)
qed

text \<open>
  C15: The connect rule reports a connection of a package exactly when, in an active phase,
  its address is not in the allowlist: one finding R2, blocked if the kernel refused the
  connection, of high severity if the process has a token other than \<open>GITHUB_TOKEN\<close> and of
  medium severity otherwise.
\<close>

theorem onConnect_reports:
  assumes "length (cn_addr e) = 16" "mask_ok (pidTokens (h_pid (cn_hdr e)) s)"
  shows "if isActive s \<and> pkg \<noteq> 0 \<and> \<not> contains_v6 allow (cn_addr e)
    then \<exists>f. onConnect e ip allow pkg name s = addFinding f s \<and> f_rule_id f = NonAllowlistedHost \<and>
      f_pid f = h_pid (cn_hdr e) \<and> f_package f = name \<and> (f_blocked f \<longleftrightarrow> cn_blocked e \<noteq> 0) \<and>
      f_tokens_exposed f = tokensFromMask (pidTokens (h_pid (cn_hdr e)) s) \<and>
      f_severity f = (if \<exists>n \<in> set (f_tokens_exposed f). n \<noteq> ''GITHUB_TOKEN'' then SevHigh else SevMedium)
    else onConnect e ip allow pkg name s = s"
  using hasNonGithubToken_iff [OF assms(2)] assms(1)
  by (simp add: onConnect_def Let_def default_finding_def)

lemma onConnect_reports_witness:
  "\<exists>f. onConnect \<lparr>cn_hdr = \<lparr>h_type = 4, h_pad = [0, 0, 0], h_pid = 7, h_ppid = 0, h_reserved = 0, h_ts_ns = 0\<rparr>,
       cn_package_id = 1, cn_addr = mapV4 1, cn_port = 443, cn_family = 4, cn_blocked = 1\<rparr>
       ''1.0.0.0'' [mapV4 2] 1 ''evil'' (startPhase ''ci'' 1 new_session) =
     addFinding f (startPhase ''ci'' 1 new_session) \<and> f_severity f = SevMedium \<and> f_blocked f"
proof -
  let ?e = "\<lparr>cn_hdr = \<lparr>h_type = 4, h_pad = [0, 0, 0], h_pid = 7, h_ppid = 0, h_reserved = 0, h_ts_ns = 0\<rparr>,
       cn_package_id = 1, cn_addr = mapV4 1, cn_port = 443, cn_family = 4, cn_blocked = 1\<rparr>"
  have tok: "pidTokens 7 (startPhase ''ci'' 1 new_session) = 0"
    by (simp add: pidTokens_def session_simps new_session_def)
  have "tokensFromMask 0 = []" by (simp add: tokensFromMask_def has_token_def)
  with onConnect_reports [of ?e "startPhase ''ci'' 1 new_session" 1 "[mapV4 2]" "''1.0.0.0''" "''evil''"]
  show ?thesis
    by (auto simp: tok mask_ok_def isActive_def session_simps contains_v6_def mapV4_inj)
qed

text \<open>
  The write access of an open, as the bits of its flags: the access mode \<open>O_WRONLY\<close> (bit 0) or
  \<open>O_RDWR\<close> (bit 1), \<open>O_CREAT\<close> (bit 6) or \<open>O_APPEND\<close> (bit 10).
\<close>

lemma writable_flags_bits: "writable_flags f \<longleftrightarrow> bit f 0 \<or> bit f 1 \<or> bit f 6 \<or> bit f 10"
proof -
  have power: "f AND 64 \<noteq> 0 \<longleftrightarrow> bit f 6" "f AND 1024 \<noteq> 0 \<longleftrightarrow> bit f 10"
    using and_exp_eq_0_iff_not_bit [of f 6] and_exp_eq_0_iff_not_bit [of f 10] by simp_all
  have "f AND 3 = take_bit 2 f" by (simp add: take_bit_eq_mask mask_eq_exp_minus_1)
  moreover have "take_bit 2 f = 0 \<longleftrightarrow> (\<forall>n. \<not> (n < 2 \<and> bit f n))"
    unfolding bit_eq_iff [of _ 0] by (auto simp: bit_take_bit_iff)
  then have "take_bit 2 f \<noteq> 0 \<longleftrightarrow> bit f 0 \<or> bit f 1"
    unfolding less_2_cases_iff One_nat_def by blast
  ultimately show ?thesis by (simp add: writable_flags_def power)
qed

text \<open>
  C16: The open rule reports a process of a package exactly when, in an active phase, it opens
  a persistence vector with one of \<open>O_WRONLY\<close>, \<open>O_RDWR\<close>, \<open>O_CREAT\<close> and \<open>O_APPEND\<close> in its flags (R5),
  or a credential file with none of them (R4).
\<close>

theorem onOpen_reports:
  "let writes = bit (op_flags e) 0 \<or> bit (op_flags e) 1 \<or> bit (op_flags e) 6 \<or> bit (op_flags e) 10
   in if isActive s \<and> pkg \<noteq> 0 \<and> writes \<and> (\<exists>p \<in> set persistence_patterns. sublist p path)
   then \<exists>f. onOpen e path pkg name s = addFinding f s \<and> f_rule_id f = SensitiveFileWrite \<and>
     f_severity f = SevHigh \<and> f_pid f = h_pid (op_hdr e) \<and> f_package f = name
   else if isActive s \<and> pkg \<noteq> 0 \<and> \<not> writes \<and> (\<exists>p \<in> set credential_patterns. sublist p path)
   then \<exists>f. onOpen e path pkg name s = addFinding f s \<and> f_rule_id f = SensitiveFileRead \<and>
     f_severity f = SevHigh \<and> f_pid f = h_pid (op_hdr e) \<and> f_package f = name
   else onOpen e path pkg name s = s"
proof -
  have "isPersistenceVector path \<longleftrightarrow> (\<exists>p \<in> set persistence_patterns. sublist p path)"
    "isCredentialFile path \<longleftrightarrow> (\<exists>p \<in> set credential_patterns. sublist p path)"
    by (simp_all only: isPersistenceVector_def isCredentialFile_def list_ex_iff contains_sub_sublist)
  note vec = this [symmetric]
  show ?thesis unfolding vec writable_flags_bits [symmetric] Let_def by (simp add: onOpen_def Let_def)
qed

lemma onOpen_reports_witness:
  "\<exists>f. onOpen \<lparr>op_hdr = \<lparr>h_type = 3, h_pad = [0, 0, 0], h_pid = 7, h_ppid = 0, h_reserved = 0, h_ts_ns = 0\<rparr>,
       op_path_len = 12, op_package_id = 1, op_dfd = 0, op_flags = 0, op_path = ''/root/.ssh/id''\<rparr>
       ''/root/.ssh/id'' 1 ''evil'' (startPhase ''ci'' 1 new_session) =
     addFinding f (startPhase ''ci'' 1 new_session) \<and> f_rule_id f = SensitiveFileRead"
proof -
  have "sublist ''/.ssh/'' ''/root/.ssh/id''" by (simp add: contains_sub_sublist [symmetric] starts_with_def)
  then have "\<exists>p \<in> set credential_patterns. sublist p ''/root/.ssh/id''"
    by (auto simp: credential_patterns_def)
  then show ?thesis
    using onOpen_reports [of
      "\<lparr>op_hdr = \<lparr>h_type = 3, h_pad = [0, 0, 0], h_pid = 7, h_ppid = 0, h_reserved = 0, h_ts_ns = 0\<rparr>,
       op_path_len = 12, op_package_id = 1, op_dfd = 0, op_flags = 0, op_path = ''/root/.ssh/id''\<rparr>"
      "startPhase ''ci'' 1 new_session" 1 "''/root/.ssh/id''" "''evil''"]
    by (auto simp: isActive_def session_simps Let_def)
qed

text \<open>
  A process that opens the AWS credentials for reading and writing (\<open>O_RDWR\<close>) is not
  reported: R4 is for opens without write access, and the file is no persistence vector.
\<close>

theorem read_write_credentials_unreported:
  "op_flags e = 2 \<Longrightarrow> onOpen e ''/root/.aws/credentials'' pkg name s = s"
proof -
  have "\<not> isPersistenceVector ''/root/.aws/credentials''"
    by (simp add: isPersistenceVector_def persistence_patterns_def starts_with_def)
  then show "op_flags e = 2 \<Longrightarrow> ?thesis" by (simp add: onOpen_def Let_def writable_flags_def)
qed

lemma read_write_credentials_unreported_witness:
  "onOpen \<lparr>op_hdr = \<lparr>h_type = 3, h_pad = [0, 0, 0], h_pid = 7, h_ppid = 0, h_reserved = 0, h_ts_ns = 0\<rparr>,
       op_path_len = 23, op_package_id = 1, op_dfd = 0, op_flags = 2, op_path = ''/root/.aws/credentials''\<rparr>
       ''/root/.aws/credentials'' 1 ''evil'' (startPhase ''ci'' 1 new_session) =
     startPhase ''ci'' 1 new_session"
  by (rule read_write_credentials_unreported) simp

end
