(* ===== verification/Bpf_Maps.thy ===== *)
theory Bpf_Maps
  imports Rules
begin

text \<open>
  The BPF maps of \<^verbatim>\<open>src/bpf/blastguard.bpf.c\<close> (\<open>tracked_pids\<close>, \<open>mode_config\<close>,
  \<open>allowlist\<close>, the ring buffer \<open>events\<close>) and the calls into the operating system the program
  makes. The operating system is not part of the program: its calls are the fields of a
  record \<open>kernel\<close>, an argument of every definition that makes one. What the program relies
  on is named by the locales \<open>bpf_map\<close> and \<open>bpf_keys\<close>, after the documentation of
  \<^verbatim>\<open>bpf(2)\<close>: their predicates are the hypotheses of the theorems that need them, and
  \<open>hash_update\<close> with the capacities declared in the source is an instance.
\<close>

datatype update_flag = BPF_ANY | BPF_NOEXIST | BPF_EXIST

text \<open>\<open>bpf_map_update_elem\<close>: the return code (negative: an error) and the map afterwards.\<close>

type_synonym ('k, 'v) map_update =
  "update_flag \<Rightarrow> 'k \<Rightarrow> 'v \<Rightarrow> ('k \<rightharpoonup> 'v) \<Rightarrow> int \<times> ('k \<rightharpoonup> 'v)"

record kernel =
  k_tracked_update :: "(u32, tracked_pid_info) map_update"
  k_allow_update :: "(ipv6, u8) map_update"
  k_mode_update :: "(u32, u32) map_update"
  k_next_key :: "(u32 \<rightharpoonup> tracked_pid_info) \<Rightarrow> u32 option"
    \<comment> \<open>\<open>bpf_map_get_next_key\<close> with a null key\<close>
  k_readlink :: "string \<Rightarrow> string option"
  k_stat :: "string \<Rightarrow> bool"
  k_ntop4 :: "u8 list \<Rightarrow> string"
  k_ntop6 :: "u8 list \<Rightarrow> string"
  k_getaddrinfo :: resolver

section \<open>Laws\<close>

locale bpf_map =
  fixes update :: "('k, 'v) map_update"
  assumes update_ok: "update f k v m = (r, m') \<Longrightarrow> 0 \<le> r \<Longrightarrow> m' = m(k \<mapsto> v)"
    and update_err: "update f k v m = (r, m') \<Longrightarrow> r < 0 \<Longrightarrow> m' = m"
    and update_noexist: "m k = Some w \<Longrightarrow> fst (update BPF_NOEXIST k v m) < 0"
    and update_exist: "m k = None \<Longrightarrow> fst (update BPF_EXIST k v m) < 0"
begin

lemma update_cases:
  obtains "0 \<le> fst (update f k v m)" "snd (update f k v m) = m(k \<mapsto> v)"
  | "fst (update f k v m) < 0" "snd (update f k v m) = m"
proof (cases "0 \<le> fst (update f k v m)")
  case True
  then show ?thesis using update_ok [of f k v m] that(1) by (cases "update f k v m") auto
next
  case False
  then show ?thesis using update_err [of f k v m] that(2) by (cases "update f k v m") auto
qed

lemma update_dom: "dom (snd (update f k v m)) \<subseteq> insert k (dom m)"
  by (rule update_cases [of f k v m]) auto

lemma update_other: "j \<noteq> k \<Longrightarrow> snd (update f k v m) j = m j"
  by (rule update_cases [of f k v m]) auto

lemma update_keeps: "dom m \<subseteq> dom (snd (update f k v m))"
  by (rule update_cases [of f k v m]) auto

lemma noexist_same: "m k = Some w \<Longrightarrow> snd (update BPF_NOEXIST k v m) = m"
  using update_noexist [of m k w v] update_err [of BPF_NOEXIST k v m]
  by (cases "update BPF_NOEXIST k v m") auto

lemma exist_dom: "dom (snd (update BPF_EXIST k v m)) = dom m"
proof (cases "m k")
  case None
  then show ?thesis using update_exist [of m k v] by (rule_tac update_cases [of BPF_EXIST k v m]) auto
next
  case (Some w)
  then show ?thesis by (rule_tac update_cases [of BPF_EXIST k v m]) auto
qed

end

locale bpf_keys =
  fixes next_key :: "('k \<rightharpoonup> 'v) \<Rightarrow> 'k option"
  assumes next_key_in: "next_key m = Some k \<Longrightarrow> k \<in> dom m"
    and next_key_none: "next_key m = None \<Longrightarrow> m = Map.empty"
begin

lemma next_key_exists: "m \<noteq> Map.empty \<Longrightarrow> \<exists>k. next_key m = Some k \<and> k \<in> dom m"
  by (metis next_key_in next_key_none not_None_eq)

end

section \<open>A hash map of a given capacity\<close>

text \<open>\<open>-EEXIST\<close>, \<open>-ENOENT\<close> and \<open>-E2BIG\<close> are -17, -2 and -7 on Linux.\<close>

definition hash_update :: "nat \<Rightarrow> ('k, 'v) map_update" where
  "hash_update cap f k v m =
     (if f = BPF_NOEXIST \<and> m k \<noteq> None then (-17, m)
      else if f = BPF_EXIST \<and> m k = None then (-2, m)
      else if m k = None \<and> cap \<le> card (dom m) then (-7, m)
      else (0, m(k \<mapsto> v)))"

text \<open>The capacities the source declares for its maps.\<close>

definition tracked_pids_entries :: nat where "tracked_pids_entries = 8192"
definition allowlist_entries :: nat where "allowlist_entries = 4096"
definition mode_config_entries :: nat where "mode_config_entries = 1"

lemma hash_update_map: "bpf_map (hash_update cap)"
  by unfold_locales (auto simp: hash_update_def split: if_splits)

interpretation tracked_map: bpf_map "hash_update tracked_pids_entries"
  by (rule hash_update_map)

interpretation allow_map: bpf_map "hash_update allowlist_entries"
  by (rule hash_update_map)

text \<open>The kernel gives some key of a map that has one; here the least.\<close>

definition least_key :: "(u32 \<rightharpoonup> 'v) \<Rightarrow> u32 option" where
  "least_key m = (if m = Map.empty then None else Some (Min (dom m)))"

interpretation tracked_keys: bpf_keys "least_key :: (u32 \<rightharpoonup> tracked_pid_info) \<Rightarrow> u32 option"
proof unfold_locales
  fix m :: "u32 \<rightharpoonup> tracked_pid_info" and k
  have "Min (dom m) \<in> dom m" if "m \<noteq> Map.empty"
    by (rule Min_in) (use that in \<open>simp_all add: dom_eq_empty_conv\<close>)
  then show "least_key m = Some k \<Longrightarrow> k \<in> dom m"
    unfolding least_key_def by (metis option.distinct(1) option.inject)
  show "least_key m = None \<Longrightarrow> m = Map.empty"
    by (simp add: least_key_def split: if_splits)
qed

section \<open>The maps of the program\<close>

record bpf_maps =
  tracked_pids :: "u32 \<rightharpoonup> tracked_pid_info"
  mode_config :: "u32 \<rightharpoonup> u32"
  bpf_allowlist :: "ipv6 \<rightharpoonup> u8"
  ring :: "u8 list list" \<comment> \<open>the samples submitted and not yet consumed, oldest first\<close>

text \<open>The maps after loading: an array map holds zeros, a hash map nothing.\<close>

definition loaded_maps :: bpf_maps where
  "loaded_maps =
     \<lparr>tracked_pids = Map.empty, mode_config = [0 \<mapsto> 0], bpf_allowlist = Map.empty, ring = []\<rparr>"

end
