(* ===== verification/Bpf_Programs.thy ===== *)
theory Bpf_Programs
  imports Bpf_Maps
begin

text \<open>
  The kernel-side programs of \<^verbatim>\<open>src/bpf/blastguard.bpf.c\<close>. What a program reads from the
  kernel (process ids, user memory, the clock) is an argument. \<open>bpf_ringbuf_reserve\<close> is the
  argument \<open>sample\<close>: \<^const>\<open>None\<close> when there is no room, otherwise the memory of the
  reserved sample, whose old contents stay in every byte the program does not write.
\<close>

definition set_hdr :: "u8 \<Rightarrow> u32 \<Rightarrow> u32 \<Rightarrow> u64 \<Rightarrow> event_hdr \<Rightarrow> event_hdr" where
  "set_hdr ty pid ppid now h = h\<lparr>h_type := ty, h_pid := pid, h_ppid := ppid, h_ts_ns := now\<rparr>"

definition submit :: "u8 list \<Rightarrow> bpf_maps \<Rightarrow> bpf_maps" where
  "submit bs m = m\<lparr>ring := ring m @ [bs]\<rparr>"

section \<open>Processes\<close>

text \<open>
  A program looks the process up in \<open>tracked_pids\<close>, and goes on with the entry it has found;
  the definition named \<open>_commit\<close> is what it does from there.
\<close>

definition fork_commit ::
  "kernel \<Rightarrow> u8 list option \<Rightarrow> u64 \<Rightarrow> u32 \<Rightarrow> u32 \<Rightarrow> tracked_pid_info \<Rightarrow> bpf_maps \<Rightarrow> bpf_maps" where
  "fork_commit K sample now parent_pid child_pid new_info m =
     (let m = m\<lparr>tracked_pids :=
            snd (k_tracked_update K BPF_NOEXIST child_pid new_info (tracked_pids m))\<rparr> in
      case sample of
        None \<Rightarrow> m
      | Some mem \<Rightarrow>
          (let e = read_fork mem;
               e = e\<lparr>fk_hdr := set_hdr event_type_fork parent_pid 0 now (fk_hdr e),
                     fk_child_pid := child_pid,
                     fk_package_id := tp_package_id new_info\<rparr>
           in submit (write_fork e) m))"

definition on_fork ::
  "kernel \<Rightarrow> u8 list option \<Rightarrow> u64 \<Rightarrow> u32 \<Rightarrow> u32 \<Rightarrow> bpf_maps \<Rightarrow> bpf_maps" where
  "on_fork K sample now parent_pid child_pid m =
     (case tracked_pids m parent_pid of
        None \<Rightarrow> m
      | Some new_info \<Rightarrow> fork_commit K sample now parent_pid child_pid new_info m)"

definition on_exit :: "u32 \<Rightarrow> u32 \<Rightarrow> bpf_maps \<Rightarrow> bpf_maps" where
  "on_exit pid tgid m =
     (if pid \<noteq> tgid then m else m\<lparr>tracked_pids := (tracked_pids m)(tgid := None)\<rparr>)"

text \<open>
  What \<open>on_exec\<close> reads of the task: the parent, the command name (16 bytes), the bounds of
  the argument and environment areas, and the memory there: \<open>tx_user addr n\<close> is what
  \<open>bpf_probe_read_user\<close> leaves in a destination of \<open>n\<close> bytes.
\<close>

record task_exec =
  tx_ppid :: u32
  tx_comm :: "char list"
  tx_arg_start :: u64
  tx_arg_end :: u64
  tx_env_start :: u64
  tx_env_end :: u64
  tx_user :: "u64 \<Rightarrow> nat \<Rightarrow> char list"

definition area_len :: "nat \<Rightarrow> u64 \<Rightarrow> u64 \<Rightarrow> nat" where
  "area_len mx area_start area_end =
     (if area_start < area_end
      then (let total = unat (area_end - area_start) in if mx < total then mx else total)
      else 0)"

definition read_area :: "task_exec \<Rightarrow> u64 \<Rightarrow> nat \<Rightarrow> char list \<Rightarrow> char list" where
  "read_area t area_start n old =
     (if 0 < n then tx_user t area_start n @ drop n old else old)"

definition exec_commit ::
  "u8 list option \<Rightarrow> u64 \<Rightarrow> u32 \<Rightarrow> task_exec \<Rightarrow> tracked_pid_info \<Rightarrow> bpf_maps \<Rightarrow> bpf_maps" where
  "exec_commit sample now pid t info m =
     (case sample of
        None \<Rightarrow> m
      | Some mem \<Rightarrow>
          (let e = read_exec mem;
               arg_len = area_len argv_max (tx_arg_start t) (tx_arg_end t);
               env_len = area_len env_max (tx_env_start t) (tx_env_end t);
               e = e\<lparr>ex_hdr := set_hdr event_type_exec pid (tx_ppid t) now (ex_hdr e),
                     ex_package_id := tp_package_id info,
                     ex_comm := tx_comm t,
                     ex_argv := read_area t (tx_arg_start t) arg_len (ex_argv e),
                     ex_argv_len := word_of_nat arg_len,
                     ex_env := read_area t (tx_env_start t) env_len (ex_env e),
                     ex_env_len := word_of_nat env_len\<rparr>
           in submit (write_exec e) m))"

definition on_exec :: "u8 list option \<Rightarrow> u64 \<Rightarrow> u32 \<Rightarrow> task_exec \<Rightarrow> bpf_maps \<Rightarrow> bpf_maps" where
  "on_exec sample now pid t m =
     (case tracked_pids m pid of
        None \<Rightarrow> m
      | Some info \<Rightarrow> exec_commit sample now pid t info m)"

section \<open>Files\<close>

text \<open>
  \<open>emit_open\<close>: \<open>dfd\<close> and \<open>flags\<close> are the system call arguments 0 and 2; \<open>user_str\<close> is what
  \<open>bpf_probe_read_user_str\<close> does with argument 1: its return value and the contents it
  leaves in the destination \<open>path\<close>.
\<close>

definition open_commit ::
  "u8 list option \<Rightarrow> u64 \<Rightarrow> u32 \<Rightarrow> u64 \<Rightarrow> u64 \<Rightarrow> (char list \<Rightarrow> int \<times> char list) \<Rightarrow> bool \<Rightarrow>
   tracked_pid_info \<Rightarrow> bpf_maps \<Rightarrow> bpf_maps" where
  "open_commit sample now pid dfd flags user_str with_flags info m =
     (case sample of
        None \<Rightarrow> m
      | Some mem \<Rightarrow>
          (let e = read_open mem;
               (n, path) = user_str (op_path e) in
           if n \<le> 0 \<or> path ! 0 \<noteq> CHR ''/'' then m \<comment> \<open>\<open>bpf_ringbuf_discard\<close>\<close>
           else
             (let e = e\<lparr>op_hdr := set_hdr event_type_open pid 0 now (op_hdr e),
                        op_package_id := tp_package_id info,
                        op_dfd := ucast dfd,
                        op_flags := (if with_flags then ucast flags else 0),
                        op_path_len := word_of_int n,
                        op_path := path\<rparr>
              in submit (write_open e) m)))"

definition emit_open ::
  "u8 list option \<Rightarrow> u64 \<Rightarrow> u32 \<Rightarrow> u64 \<Rightarrow> u64 \<Rightarrow> (char list \<Rightarrow> int \<times> char list) \<Rightarrow> bool \<Rightarrow>
   bpf_maps \<Rightarrow> bpf_maps" where
  "emit_open sample now pid dfd flags user_str with_flags m =
     (case tracked_pids m pid of
        None \<Rightarrow> m
      | Some info \<Rightarrow> open_commit sample now pid dfd flags user_str with_flags info m)"

definition on_openat ::
  "u8 list option \<Rightarrow> u64 \<Rightarrow> u32 \<Rightarrow> u64 \<Rightarrow> u64 \<Rightarrow> (char list \<Rightarrow> int \<times> char list) \<Rightarrow> bpf_maps \<Rightarrow> bpf_maps"
where
  "on_openat sample now pid dfd flags user_str m =
     emit_open sample now pid dfd flags user_str True m"

definition on_openat2 ::
  "u8 list option \<Rightarrow> u64 \<Rightarrow> u32 \<Rightarrow> u64 \<Rightarrow> u64 \<Rightarrow> (char list \<Rightarrow> int \<times> char list) \<Rightarrow> bpf_maps \<Rightarrow> bpf_maps"
where
  "on_openat2 sample now pid dfd flags user_str m =
     emit_open sample now pid dfd flags user_str False m"

section \<open>Connections\<close>

definition bswap16 :: "u16 \<Rightarrow> u16" where
  "bswap16 x = or (push_bit 8 x) (drop_bit 8 x)"

definition bpf_ntohs :: "u32 \<Rightarrow> u16" where
  "bpf_ntohs x = bswap16 (ucast x)"

text \<open>
  The common part of the two connect programs, from the lookup of the mode on: \<open>key\<close> is the
  address as the allowlist keeps it. The result is the verdict (1: allowed, 0: refused).
\<close>

definition connect_verdict :: "bpf_maps \<Rightarrow> ipv6 \<Rightarrow> int \<times> u8" where
  "connect_verdict m key =
     (let enforce = (case mode_config m 0 of None \<Rightarrow> 0 | Some v \<Rightarrow> v) in
      if enforce \<noteq> 0 \<and> bpf_allowlist m key = None then (0, 1) else (1, 0))"

definition emit_connect ::
  "u8 list option \<Rightarrow> u64 \<Rightarrow> u32 \<Rightarrow> tracked_pid_info \<Rightarrow> u8 \<Rightarrow> ipv6 \<Rightarrow> u32 \<Rightarrow> bpf_maps \<Rightarrow> int \<times> bpf_maps"
where
  "emit_connect sample now pid info fam key user_port m =
     (let (verdict, blocked_flag) = connect_verdict m key in
      case sample of
        None \<Rightarrow> (verdict, m)
      | Some mem \<Rightarrow>
          (let e = read_connect mem;
               e = e\<lparr>cn_hdr := set_hdr event_type_connect pid 0 now (cn_hdr e),
                     cn_package_id := tp_package_id info,
                     cn_family := fam,
                     cn_blocked := blocked_flag,
                     cn_addr := key,
                     cn_port := bpf_ntohs user_port\<rparr>
           in (verdict, submit (write_connect e) m)))"

definition on_connect4 ::
  "u8 list option \<Rightarrow> u64 \<Rightarrow> u32 \<Rightarrow> u32 \<Rightarrow> u32 \<Rightarrow> bpf_maps \<Rightarrow> int \<times> bpf_maps" where
  "on_connect4 sample now pid user_ip4 user_port m =
     (case tracked_pids m pid of
        None \<Rightarrow> (1, m)
      | Some info \<Rightarrow>
          (let key = replicate 10 0 @ [0xff, 0xff] @ bytes32 user_ip4
           in emit_connect sample now pid info 4 key user_port m))"

text \<open>\<open>user_ip6\<close> is an array of four 32-bit words in network order.\<close>

definition on_connect6 ::
  "u8 list option \<Rightarrow> u64 \<Rightarrow> u32 \<Rightarrow> u32 \<times> u32 \<times> u32 \<times> u32 \<Rightarrow> u32 \<Rightarrow> bpf_maps \<Rightarrow> int \<times> bpf_maps" where
  "on_connect6 sample now pid user_ip6 user_port m =
     (case tracked_pids m pid of
        None \<Rightarrow> (1, m)
      | Some info \<Rightarrow>
          (let (w0, w1, w2, w3) = user_ip6;
               key = bytes32 w0 @ bytes32 w1 @ bytes32 w2 @ bytes32 w3
           in emit_connect sample now pid info 6 key user_port m))"

section \<open>A program and its run\<close>

text \<open>
  A program with all it reads from outside its maps. Every program but \<open>on_exit\<close> is a look-up
  of one process, and goes on only if the process is tracked.
\<close>

datatype program =
  Fork kernel "u8 list option" u64 u32 u32
| Exit u32 u32
| Exec "u8 list option" u64 u32 task_exec
| Openat "u8 list option" u64 u32 u64 u64 "char list \<Rightarrow> int \<times> char list"
| Openat2 "u8 list option" u64 u32 u64 u64 "char list \<Rightarrow> int \<times> char list"
| Connect4 "u8 list option" u64 u32 u32 u32
| Connect6 "u8 list option" u64 u32 "u32 \<times> u32 \<times> u32 \<times> u32" u32

fun run_program :: "program \<Rightarrow> bpf_maps \<Rightarrow> bpf_maps" where
  "run_program (Fork K sm now parent child) m = on_fork K sm now parent child m"
| "run_program (Exit pid tgid) m = on_exit pid tgid m"
| "run_program (Exec sm now pid t) m = on_exec sm now pid t m"
| "run_program (Openat sm now pid dfd flags us) m = on_openat sm now pid dfd flags us m"
| "run_program (Openat2 sm now pid dfd flags us) m = on_openat2 sm now pid dfd flags us m"
| "run_program (Connect4 sm now pid ip4 port) m = snd (on_connect4 sm now pid ip4 port m)"
| "run_program (Connect6 sm now pid ip6 port) m = snd (on_connect6 sm now pid ip6 port m)"

fun program_pid :: "program \<Rightarrow> u32" where
  "program_pid (Fork K sm now parent child) = parent"
| "program_pid (Exit pid tgid) = tgid"
| "program_pid (Exec sm now pid t) = pid"
| "program_pid (Openat sm now pid dfd flags us) = pid"
| "program_pid (Openat2 sm now pid dfd flags us) = pid"
| "program_pid (Connect4 sm now pid ip4 port) = pid"
| "program_pid (Connect6 sm now pid ip6 port) = pid"

fun looks_up :: "program \<Rightarrow> bool" where
  "looks_up (Exit pid tgid) = False"
| "looks_up p = True"

fun program_commit :: "program \<Rightarrow> tracked_pid_info \<Rightarrow> bpf_maps \<Rightarrow> bpf_maps" where
  "program_commit (Fork K sm now parent child) info m = fork_commit K sm now parent child info m"
| "program_commit (Exit pid tgid) info m = on_exit pid tgid m"
| "program_commit (Exec sm now pid t) info m = exec_commit sm now pid t info m"
| "program_commit (Openat sm now pid dfd flags us) info m = open_commit sm now pid dfd flags us True info m"
| "program_commit (Openat2 sm now pid dfd flags us) info m = open_commit sm now pid dfd flags us False info m"
| "program_commit (Connect4 sm now pid ip4 port) info m =
     snd (emit_connect sm now pid info 4 (replicate 10 0 @ [0xff, 0xff] @ bytes32 ip4) port m)"
| "program_commit (Connect6 sm now pid (w0, w1, w2, w3) port) info m =
     snd (emit_connect sm now pid info 6 (bytes32 w0 @ bytes32 w1 @ bytes32 w2 @ bytes32 w3) port m)"

lemma run_program_halves:
  "looks_up p \<Longrightarrow>
   run_program p m = (case tracked_pids m (program_pid p) of None \<Rightarrow> m | Some info \<Rightarrow> program_commit p info m)"
  by (cases p) (auto simp: on_fork_def on_exec_def on_openat_def on_openat2_def emit_open_def on_connect4_def
      on_connect6_def split: option.split prod.split)

section \<open>What the programs leave alone\<close>

lemmas programs_def = on_fork_def fork_commit_def on_exec_def exec_commit_def emit_open_def open_commit_def


lemma submit_fields [simp]:
  "tracked_pids (submit bs m) = tracked_pids m" "mode_config (submit bs m) = mode_config m"
  "bpf_allowlist (submit bs m) = bpf_allowlist m" "ring (submit bs m) = ring m @ [bs]"
  by (simp_all add: submit_def)

text \<open>A process that is not tracked is not touched: no event, no verdict against it.\<close>

lemma untracked:
  "tracked_pids m pid = None \<Longrightarrow> on_fork K sm now pid c m = m"
  "tracked_pids m pid = None \<Longrightarrow> on_exec sm now pid t m = m"
  "tracked_pids m pid = None \<Longrightarrow> emit_open sm now pid dfd fl us wfl m = m"
  "tracked_pids m pid = None \<Longrightarrow> on_connect4 sm now pid ip4 port m = (1, m)"
  "tracked_pids m pid = None \<Longrightarrow> on_connect6 sm now pid ip6 port m = (1, m)"
  by (simp_all add: programs_def on_connect4_def on_connect6_def)

lemma config_frame [simp]:
  "mode_config (on_fork K sm now p c m) = mode_config m"
  "bpf_allowlist (on_fork K sm now p c m) = bpf_allowlist m"
  "mode_config (on_exit p q m) = mode_config m" "bpf_allowlist (on_exit p q m) = bpf_allowlist m"
  "mode_config (on_exec sm now p t m) = mode_config m"
  "bpf_allowlist (on_exec sm now p t m) = bpf_allowlist m"
  "mode_config (emit_open sm now p dfd fl us wfl m) = mode_config m"
  "bpf_allowlist (emit_open sm now p dfd fl us wfl m) = bpf_allowlist m"
  "mode_config (snd (emit_connect sm now p i fam key port m)) = mode_config m"
  "bpf_allowlist (snd (emit_connect sm now p i fam key port m)) = bpf_allowlist m"
  "tracked_pids (on_exec sm now p t m) = tracked_pids m"
  "tracked_pids (emit_open sm now p dfd fl us wfl m) = tracked_pids m"
  "tracked_pids (snd (emit_connect sm now p i fam key port m)) = tracked_pids m"
  by (auto simp: programs_def on_exit_def emit_connect_def Let_def
      split: option.splits prod.splits)

lemma connect_frame [simp]:
  "mode_config (snd (on_connect4 sm now p ip4 port m)) = mode_config m"
  "bpf_allowlist (snd (on_connect4 sm now p ip4 port m)) = bpf_allowlist m"
  "tracked_pids (snd (on_connect4 sm now p ip4 port m)) = tracked_pids m"
  "mode_config (snd (on_connect6 sm now p ip6 port m)) = mode_config m"
  "bpf_allowlist (snd (on_connect6 sm now p ip6 port m)) = bpf_allowlist m"
  "tracked_pids (snd (on_connect6 sm now p ip6 port m)) = tracked_pids m"
  by (auto simp: on_connect4_def on_connect6_def Let_def split: option.splits prod.splits)

section \<open>Verdicts\<close>

definition enforcing :: "bpf_maps \<Rightarrow> bool" where
  "enforcing m \<longleftrightarrow> (\<exists>v. mode_config m 0 = Some v \<and> v \<noteq> 0)"

lemma connect_verdict_iff:
  "connect_verdict m key = (0, 1) \<longleftrightarrow> enforcing m \<and> bpf_allowlist m key = None"
  "connect_verdict m key = (1, 0) \<longleftrightarrow> \<not> (enforcing m \<and> bpf_allowlist m key = None)"
  by (auto simp: connect_verdict_def enforcing_def Let_def split: option.splits)

lemma fst_emit_connect: "fst (emit_connect sm now p i fam key port m) = fst (connect_verdict m key)"
  by (simp add: emit_connect_def Let_def split: option.splits prod.splits)

lemma connect4_verdict:
  "fst (on_connect4 sm now pid ip4 port m) = 0 \<longleftrightarrow>
   tracked_pids m pid \<noteq> None \<and> enforcing m \<and> bpf_allowlist m (mapV4 ip4) = None"
  by (auto simp: on_connect4_def fst_emit_connect mapV4_def connect_verdict_def enforcing_def Let_def
      split: option.splits)

lemma connect6_verdict:
  "fst (on_connect6 sm now pid (w0, w1, w2, w3) port m) = 0 \<longleftrightarrow>
   tracked_pids m pid \<noteq> None \<and> enforcing m \<and>
   bpf_allowlist m (bytes32 w0 @ bytes32 w1 @ bytes32 w2 @ bytes32 w3) = None"
  by (auto simp: on_connect6_def fst_emit_connect connect_verdict_def enforcing_def Let_def
      split: option.splits)

section \<open>The events the programs submit\<close>

text \<open>The length in the numbers of the addresses: the area, cut at the bound.\<close>

lemma area_len_min: "area_len mx s e = min mx (unat e - unat s)"
  by (auto simp: area_len_def Let_def min_def unat_sub word_less_nat_alt word_le_nat_alt not_less less_imp_le)

lemma area_len_le: "area_len mx s e \<le> mx"
  by (simp add: area_len_def Let_def)

text \<open>What the program relies on of the helpers that fill a buffer.\<close>

definition task_ok :: "task_exec \<Rightarrow> bool" where
  "task_ok t \<longleftrightarrow> length (tx_comm t) = comm_max \<and> (\<forall>a n. length (tx_user t a n) = n)"

definition user_str_ok :: "(char list \<Rightarrow> int \<times> char list) \<Rightarrow> bool" where
  "user_str_ok us \<longleftrightarrow> (\<forall>old. fst (us old) \<le> int (length old) \<and> length (snd (us old)) = length old)"

lemma length_read_area:
  "task_ok t \<Longrightarrow> n \<le> length old \<Longrightarrow> length (read_area t a n old) = length old"
  by (auto simp: read_area_def task_ok_def)

lemma set_hdr_wf [simp]: "wf_hdr (set_hdr ty pid ppid now h) = wf_hdr h"
  by (simp add: set_hdr_def wf_hdr_def)

lemma on_exec_event:
  assumes "tracked_pids m pid = Some info" "sizeof_event_exec \<le> length mem" "task_ok t"
  shows "\<exists>e. ring (on_exec (Some mem) now pid t m) = ring m @ [write_exec e] \<and> wf_exec e \<and>
     exec_lens_ok e \<and> h_pid (ex_hdr e) = pid \<and> h_type (ex_hdr e) = event_type_exec \<and>
     ex_package_id e = tp_package_id info \<and> ex_comm e = tx_comm t \<and>
     unat (ex_argv_len e) = area_len argv_max (tx_arg_start t) (tx_arg_end t) \<and>
     unat (ex_env_len e) = area_len env_max (tx_env_start t) (tx_env_end t) \<and>
     take (unat (ex_env_len e)) (ex_env e) =
       (let n = area_len env_max (tx_env_start t) (tx_env_end t)
        in if 0 < n then tx_user t (tx_env_start t) n else []) \<and>
     take (unat (ex_argv_len e)) (ex_argv e) =
       (let n = area_len argv_max (tx_arg_start t) (tx_arg_end t)
        in if 0 < n then tx_user t (tx_arg_start t) n else [])"
proof -
  let ?al = "area_len argv_max (tx_arg_start t) (tx_arg_end t)"
  let ?el = "area_len env_max (tx_env_start t) (tx_env_end t)"
  define e0 where "e0 = read_exec mem"
  define e where "e = e0\<lparr>ex_hdr := set_hdr event_type_exec pid (tx_ppid t) now (ex_hdr e0),
      ex_package_id := tp_package_id info, ex_comm := tx_comm t,
      ex_argv := read_area t (tx_arg_start t) ?al (ex_argv e0),
      ex_argv_len := word_of_nat ?al,
      ex_env := read_area t (tx_env_start t) ?el (ex_env e0),
      ex_env_len := word_of_nat ?el\<rparr>"
  have wf0: "wf_exec e0" unfolding e0_def by (rule wf_read_event(4) [OF assms(2)])
  have al: "?al \<le> 2048" and el: "?el \<le> 16384"
    using area_len_le [of argv_max] area_len_le [of env_max] by (simp_all add: event_bounds)
  have len: "length (ex_argv e) = 2048" "length (ex_env e) = 16384"
    using wf0 al el assms(3)
    by (simp_all add: e_def length_read_area wf_exec_def event_bounds)
  have u: "unat (ex_argv_len e) = ?al" "unat (ex_env_len e) = ?el"
    using al el by (simp_all add: e_def unat_of_nat take_bit_nat_eq_self)
  have "wf_exec e"
    using wf0 len assms(3) by (simp add: wf_exec_def e_def task_ok_def event_bounds)
  moreover have "exec_lens_ok e" using u len al el by (simp add: exec_lens_ok_def)
  moreover have "take (unat (ex_env_len e)) (ex_env e) =
      (if 0 < ?el then tx_user t (tx_env_start t) ?el else [])"
    using assms(3) unfolding u by (simp add: e_def read_area_def task_ok_def)
  moreover have "take (unat (ex_argv_len e)) (ex_argv e) =
      (if 0 < ?al then tx_user t (tx_arg_start t) ?al else [])"
    using assms(3) unfolding u by (simp add: e_def read_area_def task_ok_def)
  moreover have "ring (on_exec (Some mem) now pid t m) = ring m @ [write_exec e]"
    using assms(1) by (simp add: programs_def Let_def e_def e0_def)
  moreover note u
  ultimately show ?thesis
    by (intro exI [of _ e]) (simp add: Let_def, simp add: e_def set_hdr_def)
qed

lemma on_fork_event:
  assumes "tracked_pids m parent = Some info" "sizeof_event_fork \<le> length mem"
  shows "\<exists>e. ring (on_fork K (Some mem) now parent child m) = ring m @ [write_fork e] \<and> wf_fork e \<and>
     h_pid (fk_hdr e) = parent \<and> h_type (fk_hdr e) = event_type_fork \<and> fk_child_pid e = child \<and>
     fk_package_id e = tp_package_id info"
proof -
  define e where "e = (read_fork mem)\<lparr>fk_hdr := set_hdr event_type_fork parent 0 now (read_hdr mem),
      fk_child_pid := child, fk_package_id := tp_package_id info\<rparr>"
  have "wf_fork e" using wf_read_event(1) [OF assms(2)] by (simp add: e_def wf_fork_def)
  moreover have "ring (on_fork K (Some mem) now parent child m) = ring m @ [write_fork e]"
    using assms(1) by (simp add: programs_def Let_def e_def)
  ultimately show ?thesis by (intro exI [of _ e]) (simp add: e_def set_hdr_def)
qed

lemma emit_open_event:
  assumes "tracked_pids m pid = Some info" "sizeof_event_open \<le> length mem" "user_str_ok us"
    and us: "us (op_path (read_open mem)) = (n, path)" and n: "0 < n" "path ! 0 = CHR ''/''"
  shows "\<exists>e. ring (emit_open (Some mem) now pid dfd flags us wfl m) = ring m @ [write_open e] \<and>
     wf_open e \<and> h_pid (op_hdr e) = pid \<and> h_type (op_hdr e) = event_type_open \<and>
     op_package_id e = tp_package_id info \<and> op_path e = path \<and> unat (op_path_len e) = nat n \<and>
     nat n \<le> path_max \<and> op_flags e = (if wfl then ucast flags else 0)"
proof -
  define e0 where "e0 = read_open mem"
  define e where "e = e0\<lparr>op_hdr := set_hdr event_type_open pid 0 now (op_hdr e0),
      op_package_id := tp_package_id info, op_dfd := ucast dfd,
      op_flags := (if wfl then ucast flags else 0), op_path_len := word_of_int n, op_path := path\<rparr>"
  have wf0: "wf_open e0" unfolding e0_def by (rule wf_read_event(3) [OF assms(2)])
  then have len: "length (op_path e0) = 192" by (simp add: wf_open_def event_bounds)
  have le: "n \<le> 192" "length path = 192"
    using assms(3) us len by (auto simp: user_str_ok_def e0_def dest!: spec [of _ "op_path (read_open mem)"])
  then have "wf_open e" using wf0 by (simp add: e_def wf_open_def event_bounds)
  moreover have "unat (word_of_int n :: u32) = nat n"
    using n(1) le(1) by (simp add: unat_eq_nat_uint uint_word_of_int take_bit_int_eq_self)
  moreover have "ring (emit_open (Some mem) now pid dfd flags us wfl m) = ring m @ [write_open e]"
    using assms(1) us n by (simp add: programs_def Let_def e_def e0_def)
  ultimately show ?thesis
    using le(1) by (intro exI [of _ e]) (simp add: e_def set_hdr_def event_bounds)
qed

lemma emit_open_relative:
  assumes "fst (us (op_path (read_open mem))) \<le> 0 \<or> snd (us (op_path (read_open mem))) ! 0 \<noteq> CHR ''/''"
  shows "emit_open (Some mem) now pid dfd flags us wfl m = m"
  using assms by (auto simp: programs_def Let_def split: option.splits prod.splits)

lemma emit_connect_event:
  assumes "sizeof_event_connect \<le> length mem" "length key = 16"
  shows "\<exists>e. ring (snd (emit_connect (Some mem) now pid info fam key port m)) = ring m @ [write_connect e] \<and>
     wf_connect e \<and> h_pid (cn_hdr e) = pid \<and> h_type (cn_hdr e) = event_type_connect \<and>
     cn_package_id e = tp_package_id info \<and> cn_addr e = key \<and> cn_family e = fam \<and>
     cn_port e = bpf_ntohs port \<and>
     (cn_blocked e \<noteq> 0 \<longleftrightarrow> fst (emit_connect (Some mem) now pid info fam key port m) = 0)"
proof -
  obtain v b where vb: "connect_verdict m key = (v, b)" by fastforce
  define e0 where "e0 = read_connect mem"
  define e where "e = e0\<lparr>cn_hdr := set_hdr event_type_connect pid 0 now (cn_hdr e0),
      cn_package_id := tp_package_id info, cn_family := fam, cn_blocked := b, cn_addr := key,
      cn_port := bpf_ntohs port\<rparr>"
  have "wf_connect e0" unfolding e0_def by (rule wf_read_event(2) [OF assms(1)])
  then have "wf_connect e" using assms(2) by (simp add: e_def wf_connect_def)
  moreover have "snd (emit_connect (Some mem) now pid info fam key port m) = submit (write_connect e) m"
    and "fst (emit_connect (Some mem) now pid info fam key port m) = v"
    by (simp_all add: emit_connect_def Let_def vb e_def e0_def)
  moreover have "b \<noteq> 0 \<longleftrightarrow> v = 0"
    using vb by (auto simp: connect_verdict_def Let_def split: if_splits option.splits)
  ultimately show ?thesis by (intro exI [of _ e]) (simp add: e_def set_hdr_def)
qed

section \<open>Properties\<close>

lemma fst_connect:
  "fst (on_connect4 sm now pid ip4 port m) =
     (if tracked_pids m pid \<noteq> None \<and> enforcing m \<and> bpf_allowlist m (mapV4 ip4) = None then 0 else 1) \<and>
   fst (on_connect6 sm now pid (w0, w1, w2, w3) port m) =
     (if tracked_pids m pid \<noteq> None \<and> enforcing m \<and>
        bpf_allowlist m (bytes32 w0 @ bytes32 w1 @ bytes32 w2 @ bytes32 w3) = None then 0 else 1)"
proof -
  have v: "fst (connect_verdict m key) = (if enforcing m \<and> bpf_allowlist m key = None then 0 else 1)" for key
    by (auto simp: connect_verdict_def enforcing_def Let_def split: option.splits)
  show ?thesis
    by (simp add: on_connect4_def on_connect6_def fst_emit_connect v mapV4_def Let_def split: option.split)
qed

lemma mapped_key: "bytes32 0 @ bytes32 0 @ bytes32 0xffff0000 @ bytes32 ip4 = mapV4 ip4"
proof -
  have four: "(4::nat) = Suc (Suc (Suc (Suc 0)))" by simp
  have "unat (0xffff0000 :: u32) = 4294901760" by simp
  then have "bytes32 0 = [0, 0, 0, 0]" "bytes32 0xffff0000 = [0, 0, 0xff, 0xff]"
    unfolding bytes32_def by (simp_all only: four le_bytes.simps unat_0) simp_all
  then show ?thesis by (simp add: mapV4_def numeral_eq_Suc)
qed

text \<open>
  The connect programs refuse a connection exactly when the process is tracked, the mode
  is enforcing and the address is not in the kernel's allowlist, an IPv4 address in its
  mapped form; otherwise they allow it.
\<close>

theorem connect_verdicts:
  "fst (on_connect4 sm now pid ip4 port m) =
     (if tracked_pids m pid \<noteq> None \<and> enforcing m \<and> bpf_allowlist m (mapV4 ip4) = None then 0 else 1) \<and>
   fst (on_connect6 sm now pid (w0, w1, w2, w3) port m) =
     (if tracked_pids m pid \<noteq> None \<and> enforcing m \<and>
        bpf_allowlist m (bytes32 w0 @ bytes32 w1 @ bytes32 w2 @ bytes32 w3) = None then 0 else 1)"
  by (simp only: fst_connect)

text \<open>
  A process cannot get around the IPv4 rules with an IPv4-mapped IPv6 address: the
  program for IPv6 looks up the same key and gives the same verdict.
\<close>

theorem mapped_address_same_verdict:
  "fst (on_connect6 sm now pid (0, 0, 0xffff0000, ip4) port m) = fst (on_connect4 sm' now' pid ip4 port' m)"
  by (simp only: fst_connect mapped_key)

text \<open>
  C30: The event of a tracked process that executes a program has the process, its package and
  command name, and the first bytes of its arguments and of its environment: all of the area
  between its start and its end, or the first \<open>argv_max\<close> or \<open>env_max\<close> bytes of a larger one.
  The copy never goes beyond the end of the area or of the array, and an area that is empty or
  ends before it starts has length 0.
\<close>

theorem exec_event_bounded:
  assumes "tracked_pids m pid = Some info" "length mem = sizeof_event_exec" "task_ok t"
  defines "n \<equiv> min argv_max (unat (tx_arg_end t) - unat (tx_arg_start t))"
    and "k \<equiv> min env_max (unat (tx_env_end t) - unat (tx_env_start t))"
  shows "\<exists>e. ring (on_exec (Some mem) now pid t m) = ring m @ [write_exec e] \<and>
    read_exec (write_exec e) = e \<and> h_pid (ex_hdr e) = pid \<and> ex_package_id e = tp_package_id info \<and>
    ex_comm e = tx_comm t \<and> length (ex_argv e) = argv_max \<and> length (ex_env e) = env_max \<and>
    unat (ex_argv_len e) = n \<and> (0 < n \<longrightarrow> take n (ex_argv e) = tx_user t (tx_arg_start t) n) \<and>
    unat (ex_env_len e) = k \<and> (0 < k \<longrightarrow> take k (ex_env e) = tx_user t (tx_env_start t) k)"
proof -
  have "sizeof_event_exec \<le> length mem" using assms(2) by simp
  from on_exec_event [OF assms(1) this assms(3), of now] obtain e where
    e: "ring (on_exec (Some mem) now pid t m) = ring m @ [write_exec e]" "wf_exec e"
      "h_pid (ex_hdr e) = pid" "ex_package_id e = tp_package_id info" "ex_comm e = tx_comm t"
      "unat (ex_argv_len e) = n" "unat (ex_env_len e) = k"
      "take (unat (ex_env_len e)) (ex_env e) = (if 0 < k then tx_user t (tx_env_start t) k else [])"
      "take (unat (ex_argv_len e)) (ex_argv e) = (if 0 < n then tx_user t (tx_arg_start t) n else [])"
    unfolding area_len_min n_def k_def by (auto simp: Let_def)
  then show ?thesis
    by (intro exI [of _ e]) (simp add: read_write_exec wf_exec_def)
qed

lemma exec_event_bounded_witness:
  "\<exists>e. ring (on_exec (Some (replicate sizeof_event_exec 0)) 0 7
       \<lparr>tx_ppid = 1, tx_comm = replicate 16 NUL, tx_arg_start = 10, tx_arg_end = 5000, tx_env_start = 6000,
        tx_env_end = 6004, tx_user = (\<lambda>a n. replicate n CHR ''x'')\<rparr>
       (loaded_maps\<lparr>tracked_pids := [7 \<mapsto> \<lparr>tp_session_id = 1, tp_package_id = 2\<rparr>]\<rparr>)) = [write_exec e] \<and>
     unat (ex_argv_len e) = 2048 \<and> unat (ex_env_len e) = 4 \<and> take 4 (ex_env e) = ''xxxx''"
proof -
  define t where "t = \<lparr>tx_ppid = 1, tx_comm = replicate 16 NUL, tx_arg_start = 10, tx_arg_end = 5000,
    tx_env_start = 6000, tx_env_end = 6004, tx_user = (\<lambda>a n. replicate n CHR ''x'')\<rparr>"
  define m where "m = loaded_maps\<lparr>tracked_pids := [7 \<mapsto> \<lparr>tp_session_id = 1, tp_package_id = 2\<rparr>]\<rparr>"
  define n where "n = min argv_max (unat (tx_arg_end t) - unat (tx_arg_start t))"
  define k where "k = min env_max (unat (tx_env_end t) - unat (tx_env_start t))"
  have "tracked_pids m 7 = Some \<lparr>tp_session_id = 1, tp_package_id = 2\<rparr>" by (simp add: m_def)
  moreover have "task_ok t" by (simp add: t_def task_ok_def event_bounds)
  ultimately obtain e where e: "ring (on_exec (Some (replicate sizeof_event_exec 0)) 0 7 t m) = ring m @ [write_exec e]"
    "unat (ex_argv_len e) = n" "unat (ex_env_len e) = k" "0 < k \<longrightarrow> take k (ex_env e) = tx_user t (tx_env_start t) k"
    using exec_event_bounded [OF _ length_replicate, of m 7 _ t 0 0, folded n_def k_def] by blast
  have n: "n = 2048" and k: "k = 4" by (simp_all add: n_def k_def t_def event_bounds)
  have "tx_user t (tx_env_start t) 4 = ''xxxx''" by (simp add: t_def numeral_eq_Suc)
  moreover have "ring m = []" by (simp add: m_def loaded_maps_def)
  ultimately show ?thesis using e unfolding n k t_def [symmetric] m_def [symmetric] by (intro exI [of _ e]) simp
qed

text \<open>
  Of the files a tracked process opens, only those opened by an absolute path are
  reported: for any other path the program discards the sample.
\<close>

theorem open_events_lost:
  assumes "\<forall>old. \<exists>n c p. us old = (n, c # p) \<and> c \<noteq> CHR ''/''"
  shows "on_openat sm now pid dfd flags us m = m \<and> on_openat2 sm now pid dfd flags us m = m"
proof -
  have "fst (us old) \<le> 0 \<or> snd (us old) ! 0 \<noteq> CHR ''/''" for old
    using assms by (metis nth_Cons_0 snd_conv)
  then show ?thesis
    using emit_open_relative [of us] by (cases sm) (simp_all add: on_openat_def on_openat2_def programs_def split: option.split)
qed

lemma open_events_lost_witness:
  "on_openat (Some (replicate 232 0)) 0 7 0 577 (\<lambda>old. (7, ''.npmrc'' @ [NUL] @ drop 7 old))
     (loaded_maps\<lparr>tracked_pids := [7 \<mapsto> \<lparr>tp_session_id = 1, tp_package_id = 2\<rparr>]\<rparr>) =
   loaded_maps\<lparr>tracked_pids := [7 \<mapsto> \<lparr>tp_session_id = 1, tp_package_id = 2\<rparr>]\<rparr>"
  using open_events_lost [of "\<lambda>old. (7, ''.npmrc'' @ [NUL] @ drop 7 old)"] by simp

end
