(* ===== verification/Daemon_Args.thy ===== *)
theory Daemon_Args
  imports Name_Table
begin

text \<open>
  The command line of \<open>blastguardd\<close>, \<^verbatim>\<open>src/daemon/args.h\<close> and \<^verbatim>\<open>src/daemon/args.cpp\<close>.
  \<open>usage()\<close> ends the process, so parsing returns either the message printed before it and
  the exit status, or the arguments.
\<close>

datatype mode = Audit | Enforce

definition mode_table :: "(mode \<times> string) list" where
  "mode_table = [(Audit, ''audit''), (Enforce, ''enforce'')]"

definition modeToString :: "mode \<Rightarrow> string" where
  "modeToString m = table_to_string mode_table m"

definition modeFromString :: "string \<Rightarrow> mode option" where
  "modeFromString s = table_from_string mode_table s"

interpretation mode_names: name_table mode_table
proof unfold_locales
  show "v \<in> fst ` set mode_table" for v by (cases v) (simp_all add: mode_table_def)
qed (simp_all add: mode_table_def)

lemma modeFromString_inverse [simp]: "modeFromString (modeToString m) = Some m"
  by (simp add: modeFromString_def modeToString_def mode_names.from_to)

record daemon_args =
  da_mode :: mode
  da_allowed_hosts :: "string list"
  da_verbose :: bool

definition default_daemon_args :: daemon_args where
  "default_daemon_args = \<lparr>da_mode = Audit, da_allowed_hosts = [], da_verbose = False\<rparr>"

text \<open>The process ended by \<open>usage()\<close>: the message on stderr and the exit status.\<close>

datatype usage_exit = Usage string int

definition exit_failure :: int where "exit_failure = 1"

definition usage_fail :: "string \<Rightarrow> usage_exit + 'a" where
  "usage_fail msg = Inl (Usage msg exit_failure)"

text \<open>What \<open>usage()\<close> prints on stdout.\<close>

definition daemon_usageText :: string where
  "daemon_usageText =
     ''Usage: blastguardd [options]'' @ [LF] @
     ''  --mode <audit|enforce>     - operating mode (default: audit)'' @ [LF] @
     ''  -a, --allow <host>         - allowlist a hostname (resolved at startup); repeatable'' @ [LF] @
     ''  -v, --verbose              - log every event to stdout'' @ [LF]"

text \<open>\<open>shift()\<close>: the next argument, or the empty string when there is none.\<close>

fun shift_arg :: "string list \<Rightarrow> string \<times> string list" where
  "shift_arg [] = ([], [])"
| "shift_arg (a # rest) = (a, rest)"

lemma shift_arg_shorter: "shift_arg rest = (a, rest') \<Longrightarrow> length rest' \<le> length rest"
  by (cases rest) auto

text \<open>The loop starts at \<open>argv[0]\<close>: \<open>argv\<close> is the whole list.\<close>

fun daemon_parse_loop :: "string list \<Rightarrow> daemon_args \<Rightarrow> usage_exit + daemon_args" where
  "daemon_parse_loop [] ret = Inr ret"
| "daemon_parse_loop (arg # rest) ret =
     (if arg = [] then Inr ret
      else if arg = ''--mode'' then
        (case rest of
           [] \<Rightarrow> usage_fail ''--mode requires an argument''
         | value # rest' \<Rightarrow>
             if value = [] then usage_fail ''--mode requires an argument''
             else (case modeFromString value of
                     None \<Rightarrow> usage_fail (''invalid --mode value: '' @ value)
                   | Some m \<Rightarrow> daemon_parse_loop rest' (ret\<lparr>da_mode := m\<rparr>)))
      else if arg = ''-a'' \<or> arg = ''--allow'' then
        (case rest of
           [] \<Rightarrow> usage_fail ''--allow requires an argument''
         | value # rest' \<Rightarrow>
             if value = [] then usage_fail ''--allow requires an argument''
             else daemon_parse_loop rest' (ret\<lparr>da_allowed_hosts := da_allowed_hosts ret @ [value]\<rparr>))
      else if arg = ''-v'' \<or> arg = ''--verbose'' then daemon_parse_loop rest (ret\<lparr>da_verbose := True\<rparr>)
      else daemon_parse_loop rest ret)"

definition daemon_parseArgs :: "string list \<Rightarrow> usage_exit + daemon_args" where
  "daemon_parseArgs argv = daemon_parse_loop argv default_daemon_args"

text \<open>A command line written out from arguments.\<close>

definition daemon_cmdline :: "string \<Rightarrow> daemon_args \<Rightarrow> string list" where
  "daemon_cmdline prog a =
     prog # ''--mode'' # modeToString (da_mode a) #
     concat (map (\<lambda>h. [''--allow'', h]) (da_allowed_hosts a)) @
     (if da_verbose a then [''--verbose''] else [])"

definition other_arg :: "string \<Rightarrow> bool" where
  "other_arg a \<longleftrightarrow> a \<noteq> [] \<and> a \<notin> {''--mode'', ''-a'', ''--allow'', ''-v'', ''--verbose''}"

lemma daemon_parse_other: "other_arg a \<Longrightarrow> daemon_parse_loop (a # rest) ret = daemon_parse_loop rest ret"
  by (simp add: other_arg_def)

lemma daemon_parse_mode:
  "daemon_parse_loop (''--mode'' # modeToString m # rest) ret = daemon_parse_loop rest (ret\<lparr>da_mode := m\<rparr>)"
  using mode_names.to_nonempty [of m] by (simp flip: modeToString_def)

lemma daemon_parse_allow:
  "[] \<notin> set hs \<Longrightarrow>
   daemon_parse_loop (concat (map (\<lambda>h. [''--allow'', h]) hs) @ rest) ret =
   daemon_parse_loop rest (ret\<lparr>da_allowed_hosts := da_allowed_hosts ret @ hs\<rparr>)"
  by (induction hs arbitrary: ret) auto

lemma daemon_parse_cmdline:
  assumes "other_arg prog" "[] \<notin> set (da_allowed_hosts a)"
  shows "daemon_parseArgs (daemon_cmdline prog a) = Inr a"
  using assms
  by (cases a) (simp add: daemon_parseArgs_def daemon_cmdline_def daemon_parse_other daemon_parse_mode
      daemon_parse_allow default_daemon_args_def del: daemon_parse_loop.simps(2),
      simp add: default_daemon_args_def)

section \<open>Failures\<close>

text \<open>A command line that is refused ends the process with status 1.\<close>

definition fails_1 :: "usage_exit + 'a \<Rightarrow> bool" where
  "fails_1 r \<longleftrightarrow> (\<forall>msg n. r = Inl (Usage msg n) \<longrightarrow> n = exit_failure)"

lemma fails_1_intros:
  "fails_1 (Inr x)" "fails_1 (usage_fail m)"
  "(b \<Longrightarrow> fails_1 r) \<Longrightarrow> (\<not> b \<Longrightarrow> fails_1 r') \<Longrightarrow> fails_1 (if b then r else r')"
  "(as = [] \<Longrightarrow> fails_1 r) \<Longrightarrow> (\<And>v vs. as = v # vs \<Longrightarrow> fails_1 (f v vs)) \<Longrightarrow>
   fails_1 (case as of [] \<Rightarrow> r | v # vs \<Rightarrow> f v vs)"
  "(opt = None \<Longrightarrow> fails_1 r) \<Longrightarrow> (\<And>v. opt = Some v \<Longrightarrow> fails_1 (g v)) \<Longrightarrow>
   fails_1 (case opt of None \<Rightarrow> r | Some v \<Rightarrow> g v)"
  by (simp_all add: fails_1_def usage_fail_def split: list.split option.split)

lemma parse_loop_fails_1: "fails_1 (daemon_parse_loop as ret)"
proof (induction as ret rule: daemon_parse_loop.induct)
  case (1 ret)
  show ?case by (simp add: fails_1_intros)
next
  case (2 arg rest ret)
  show ?case unfolding daemon_parse_loop.simps(2)
    by (intro fails_1_intros; rule 2; assumption)
qed
section \<open>Properties\<close>

text \<open>
  The daemon reads back the mode, the allowed hosts in order and the verbose flag from a
  command line written with its options.
\<close>

theorem daemon_args_round_trip:
  assumes "other_arg prog" "[] \<notin> set (da_allowed_hosts a)"
  shows "daemon_parseArgs (daemon_cmdline prog a) = Inr a"
  by (rule daemon_parse_cmdline [OF assms])

lemma daemon_args_round_trip_witness:
  "daemon_parseArgs [''blastguardd'', ''--mode'', ''enforce'', ''--allow'', ''registry.npmjs.org'', ''--verbose''] =
     Inr \<lparr>da_mode = Enforce, da_allowed_hosts = [''registry.npmjs.org''], da_verbose = True\<rparr>"
  using daemon_args_round_trip [of "''blastguardd''"
      "\<lparr>da_mode = Enforce, da_allowed_hosts = [''registry.npmjs.org''], da_verbose = True\<rparr>"]
  by (simp add: other_arg_def daemon_cmdline_def modeToString_def mode_table_def)

text \<open>
  The daemon accepts and ignores an option it does not know; the form
  \<open>--mode=enforce\<close>, which the client's parser accepts for its own options, starts it in
  audit mode without a word.
\<close>

theorem mode_with_equals_ignored:
  "daemon_parseArgs [''blastguardd'', ''--mode='' @ v] = Inr default_daemon_args"
  by (simp add: daemon_parseArgs_def)

end
