(* ===== verification/Ebpf_Manager.thy ===== *)
theory Ebpf_Manager
  imports Bpf_Programs Daemon_Args
begin

text \<open>
  The daemon's side of the BPF maps, \<^verbatim>\<open>src/daemon/ebpfmanager.cpp\<close>: tracking a process,
  attributing a tracked process to a package, clearing the tracked processes, the mode and
  the allowed addresses. The file descriptors lead to the maps of \<open>bpf_maps\<close>.
\<close>

definition trackPid :: "kernel \<Rightarrow> u32 \<Rightarrow> bpf_maps \<Rightarrow> bool \<times> bpf_maps" where
  "trackPid K pid m =
     (let info = \<lparr>tp_session_id = 1, tp_package_id = 0\<rparr>;
          (err, t) = k_tracked_update K BPF_NOEXIST pid info (tracked_pids m)
      in (\<not> err < 0, m\<lparr>tracked_pids := t\<rparr>))"

text \<open>
  The loop deletes the first key until there is none: \<^const>\<open>None\<close> if it does not end.
\<close>

partial_function (option) clear_loop ::
  "kernel \<Rightarrow> (u32 \<rightharpoonup> tracked_pid_info) \<Rightarrow> (u32 \<rightharpoonup> tracked_pid_info) option" where
  "clear_loop K t =
     (case k_next_key K t of None \<Rightarrow> Some t | Some key \<Rightarrow> clear_loop K (t(key := None)))"

definition clearTrackedPids :: "kernel \<Rightarrow> bpf_maps \<Rightarrow> bpf_maps option" where
  "clearTrackedPids K m = map_option (\<lambda>t. m\<lparr>tracked_pids := t\<rparr>) (clear_loop K (tracked_pids m))"

definition setPackageForPid :: "kernel \<Rightarrow> u32 \<Rightarrow> u32 \<Rightarrow> bpf_maps \<Rightarrow> bool \<times> bpf_maps" where
  "setPackageForPid K pid package_id m =
     (case tracked_pids m pid of
        None \<Rightarrow> (False, m)
      | Some info \<Rightarrow>
          (let (err, t) = k_tracked_update K BPF_EXIST pid (info\<lparr>tp_package_id := package_id\<rparr>)
                 (tracked_pids m)
           in (\<not> err < 0, m\<lparr>tracked_pids := t\<rparr>)))"

definition setMode :: "kernel \<Rightarrow> mode \<Rightarrow> bpf_maps \<Rightarrow> bool \<times> bpf_maps" where
  "setMode K md m =
     (let val = (if md = Enforce then 1 else 0);
          (err, t) = k_mode_update K BPF_ANY 0 val (mode_config m)
      in (\<not> err < 0, m\<lparr>mode_config := t\<rparr>))"

definition addAllowedAddr :: "kernel \<Rightarrow> ipv6 \<Rightarrow> bpf_maps \<Rightarrow> bool \<times> bpf_maps" where
  "addAllowedAddr K addr m =
     (let (err, t) = k_allow_update K BPF_ANY addr 1 (bpf_allowlist m)
      in (\<not> err < 0, m\<lparr>bpf_allowlist := t\<rparr>))"

section \<open>Laws of the kernel the program relies on\<close>

definition kernel_ok :: "kernel \<Rightarrow> bool" where
  "kernel_ok K \<longleftrightarrow> bpf_map (k_tracked_update K) \<and> bpf_map (k_allow_update K) \<and>
     bpf_map (k_mode_update K) \<and> bpf_keys (k_next_key K)"

lemma kernel_okD:
  "kernel_ok K \<Longrightarrow> bpf_map (k_tracked_update K)" "kernel_ok K \<Longrightarrow> bpf_map (k_allow_update K)"
  "kernel_ok K \<Longrightarrow> bpf_map (k_mode_update K)" "kernel_ok K \<Longrightarrow> bpf_keys (k_next_key K)"
  by (simp_all add: kernel_ok_def)

text \<open>A kernel that has the maps of the source, and knows no file, process or host.\<close>

definition plain_kernel :: kernel where
  "plain_kernel =
     \<lparr>k_tracked_update = hash_update tracked_pids_entries,
      k_allow_update = hash_update allowlist_entries,
      k_mode_update = hash_update mode_config_entries,
      k_next_key = least_key,
      k_readlink = (\<lambda>_. None), k_stat = (\<lambda>_. False),
      k_ntop4 = (\<lambda>_. []), k_ntop6 = (\<lambda>_. []), k_getaddrinfo = (\<lambda>_. None)\<rparr>"

lemma plain_kernel_ok [simp]: "kernel_ok plain_kernel"
  by (simp add: kernel_ok_def plain_kernel_def hash_update_map tracked_keys.bpf_keys_axioms)

text \<open>Its answers about files, processes, addresses and hosts play no part in the laws.\<close>

lemma kernel_ok_answers [simp]:
  "kernel_ok (K\<lparr>k_readlink := a\<rparr>) = kernel_ok K" "kernel_ok (K\<lparr>k_stat := b\<rparr>) = kernel_ok K"
  "kernel_ok (K\<lparr>k_ntop4 := c\<rparr>) = kernel_ok K" "kernel_ok (K\<lparr>k_ntop6 := d\<rparr>) = kernel_ok K"
  "kernel_ok (K\<lparr>k_getaddrinfo := e\<rparr>) = kernel_ok K"
  by (simp_all add: kernel_ok_def)

section \<open>Effects\<close>

lemma manager_frame [simp]:
  "mode_config (snd (trackPid K p m)) = mode_config m"
  "bpf_allowlist (snd (trackPid K p m)) = bpf_allowlist m" "ring (snd (trackPid K p m)) = ring m"
  "mode_config (snd (setPackageForPid K p i m)) = mode_config m"
  "bpf_allowlist (snd (setPackageForPid K p i m)) = bpf_allowlist m"
  "ring (snd (setPackageForPid K p i m)) = ring m"
  "tracked_pids (snd (setMode K md m)) = tracked_pids m"
  "bpf_allowlist (snd (setMode K md m)) = bpf_allowlist m" "ring (snd (setMode K md m)) = ring m"
  "tracked_pids (snd (addAllowedAddr K a m)) = tracked_pids m"
  "mode_config (snd (addAllowedAddr K a m)) = mode_config m"
  "ring (snd (addAllowedAddr K a m)) = ring m"
  by (auto simp: trackPid_def setPackageForPid_def setMode_def addAllowedAddr_def Let_def
      split: prod.splits option.splits)

lemma trackPid_result:
  assumes "bpf_map (k_tracked_update K)"
  shows "fst (trackPid K pid m) \<Longrightarrow> tracked_pids (snd (trackPid K pid m)) =
           (tracked_pids m)(pid \<mapsto> \<lparr>tp_session_id = 1, tp_package_id = 0\<rparr>) \<and> tracked_pids m pid = None"
    and "\<not> fst (trackPid K pid m) \<Longrightarrow> tracked_pids (snd (trackPid K pid m)) = tracked_pids m"
proof -
  obtain r t where u: "k_tracked_update K BPF_NOEXIST pid \<lparr>tp_session_id = 1, tp_package_id = 0\<rparr>
      (tracked_pids m) = (r, t)" by fastforce
  have ok: "0 \<le> r \<Longrightarrow> t = (tracked_pids m)(pid \<mapsto> \<lparr>tp_session_id = 1, tp_package_id = 0\<rparr>)"
    by (rule bpf_map.update_ok [OF assms u])
  have err: "r < 0 \<Longrightarrow> t = tracked_pids m" by (rule bpf_map.update_err [OF assms u])
  have new: "0 \<le> r \<Longrightarrow> tracked_pids m pid = None"
    using bpf_map.update_noexist [OF assms, of "tracked_pids m" pid] u
    by (metis fst_conv not_le option.exhaust)
  have res: "trackPid K pid m = (\<not> r < 0, m\<lparr>tracked_pids := t\<rparr>)"
    unfolding trackPid_def Let_def u by simp
  show "fst (trackPid K pid m) \<Longrightarrow> tracked_pids (snd (trackPid K pid m)) =
      (tracked_pids m)(pid \<mapsto> \<lparr>tp_session_id = 1, tp_package_id = 0\<rparr>) \<and> tracked_pids m pid = None"
    using ok new by (simp add: res not_less)
  show "\<not> fst (trackPid K pid m) \<Longrightarrow> tracked_pids (snd (trackPid K pid m)) = tracked_pids m"
    using err by (simp add: res)
qed

lemma setPackageForPid_tracked:
  "tracked_pids (snd (setPackageForPid K pid i m)) =
     (case tracked_pids m pid of
        None \<Rightarrow> tracked_pids m
      | Some info \<Rightarrow> snd (k_tracked_update K BPF_EXIST pid (info\<lparr>tp_package_id := i\<rparr>) (tracked_pids m)))"
  by (simp add: setPackageForPid_def Let_def split: option.split prod.split)

lemma setPackageForPid_dom:
  assumes "bpf_map (k_tracked_update K)"
  shows "dom (tracked_pids (snd (setPackageForPid K pid i m))) = dom (tracked_pids m)"
  by (cases "tracked_pids m pid")
    (simp_all add: setPackageForPid_tracked bpf_map.exist_dom [OF assms])

lemma setPackageForPid_other:
  assumes "bpf_map (k_tracked_update K)" "q \<noteq> pid"
  shows "tracked_pids (snd (setPackageForPid K pid i m)) q = tracked_pids m q"
  by (cases "tracked_pids m pid")
    (simp_all add: setPackageForPid_tracked bpf_map.update_other [OF assms])

text \<open>Clearing ends, and leaves no tracked process, because the map is finite.\<close>

lemma clear_loop_result:
  assumes "bpf_keys (k_next_key K)" "finite (dom t)"
  shows "clear_loop K t = Some Map.empty"
  using assms(2)
proof (induction "card (dom t)" arbitrary: t rule: less_induct)
  case less
  show ?case
  proof (cases "k_next_key K t")
    case None
    then have "t = Map.empty" by (rule bpf_keys.next_key_none [OF assms(1)])
    with None show ?thesis by (simp add: clear_loop.simps)
  next
    case (Some k)
    then have k: "k \<in> dom t" by (rule bpf_keys.next_key_in [OF assms(1)])
    have "dom (t(k := None)) = dom t - {k}" by auto
    then have "clear_loop K (t(k := None)) = Some Map.empty"
      using less k by (metis card_Diff1_less finite_Diff)
    with Some show ?thesis by (simp add: clear_loop.simps [of K t])
  qed
qed

lemma clearTrackedPids_result:
  assumes "bpf_keys (k_next_key K)"
  shows "clearTrackedPids K m = Some (m\<lparr>tracked_pids := Map.empty\<rparr>)"
  using clear_loop_result [OF assms, of "tracked_pids m"] by (simp add: clearTrackedPids_def)

section \<open>The kernel's allowlist\<close>

text \<open>
  With an update that does not fail, the kernel's map is a set of addresses like the
  daemon's list (\<^const>\<open>BPF_ANY\<close> replaces an entry that is there).
\<close>

definition kernel_has :: "(ipv6 \<rightharpoonup> u8) \<Rightarrow> ipv6 \<Rightarrow> bool" where
  "kernel_has al a \<longleftrightarrow> al a \<noteq> None"

definition kernel_add :: "ipv6 \<Rightarrow> (ipv6 \<rightharpoonup> u8) \<Rightarrow> (ipv6 \<rightharpoonup> u8)" where
  "kernel_add a al = al(a \<mapsto> 1)"

interpretation kernel_addrs: address_set kernel_has kernel_add
  by unfold_locales (auto simp: kernel_has_def kernel_add_def)

lemma addAllowedAddr_ok:
  assumes "bpf_map (k_allow_update K)" "fst (addAllowedAddr K a m)"
  shows "bpf_allowlist (snd (addAllowedAddr K a m)) = kernel_add a (bpf_allowlist m)"
  using bpf_map.update_ok [OF assms(1)] assms(2)
  by (auto simp: addAllowedAddr_def kernel_add_def Let_def not_less split: prod.splits)

section \<open>Properties\<close>

text \<open>
  Clearing the tracked processes ends, whatever key the kernel gives first each time, and
  leaves no tracked process and every other map as it was.
\<close>

theorem clearing_ends:
  assumes "bpf_keys (k_next_key K)"
  shows "clearTrackedPids K m = Some (m\<lparr>tracked_pids := Map.empty\<rparr>)"
  by (rule clearTrackedPids_result [OF assms])

lemma clearing_ends_witness:
  "clearTrackedPids plain_kernel (loaded_maps\<lparr>tracked_pids := [3 \<mapsto> \<lparr>tp_session_id = 1, tp_package_id = 0\<rparr>,
     5 \<mapsto> \<lparr>tp_session_id = 1, tp_package_id = 2\<rparr>]\<rparr>) = Some loaded_maps"
proof -
  have "bpf_keys (k_next_key plain_kernel)" by (rule kernel_okD) simp
  from clearing_ends [OF this, of "loaded_maps\<lparr>tracked_pids := [3 \<mapsto> \<lparr>tp_session_id = 1, tp_package_id = 0\<rparr>,
     5 \<mapsto> \<lparr>tp_session_id = 1, tp_package_id = 2\<rparr>]\<rparr>"] show ?thesis
    by (simp add: loaded_maps_def)
qed

end
