(* ===== verification/Nul_Blocks.thy ===== *)
theory Nul_Blocks
  imports Prelude
begin

text \<open>
  Argument and environment blocks: arrays of NUL-terminated entries, of which the first
  \<open>len\<close> bytes count. Three loops of the program walk such a block
  (\<open>scanEnvForTokens\<close> and \<open>formatArgv\<close> in \<^verbatim>\<open>src/daemon/daemon.cpp\<close>,
  \<open>Attributor::phaseFromEnv\<close>); all three advance by
  \<open>pos += strnlen(buf + pos, len - pos) + 1\<close> on a 32-bit \<open>pos\<close>. This theory has the
  entries of a block as a list and the one step the three loops share.
\<close>

definition advance :: "nat \<Rightarrow> nat \<Rightarrow> nat" where
  "advance pos k = (pos + k + 1) mod 2 ^ 32" \<comment> \<open>\<open>pos\<close> is a \<open>std::uint32_t\<close>\<close>

text \<open>The entries of a block, in order.\<close>

function split_nul :: "char list \<Rightarrow> string list" where
  "split_nul s =
     (if s = [] then []
      else takeWhile (\<lambda>c. c \<noteq> NUL) s # split_nul (drop (Suc (length (takeWhile (\<lambda>c. c \<noteq> NUL) s))) s))"
  by pat_completeness auto
termination by (relation "measure length") auto

declare split_nul.simps [simp del]

lemma split_nul_Nil [simp]: "split_nul [] = []"
  by (simp add: split_nul.simps)

lemma split_nul_entry: "NUL \<notin> set e \<Longrightarrow> split_nul (e @ NUL # s) = e # split_nul s"
  by (subst split_nul.simps) (simp add: takeWhile_neq_append)

lemma split_nul_last: "NUL \<notin> set e \<Longrightarrow> e \<noteq> [] \<Longrightarrow> split_nul e = [e]"
  by (subst split_nul.simps) (simp add: takeWhile_neq_all)

text \<open>A block as the kernel lays it out: each entry followed by its NUL.\<close>

definition nul_block :: "string list \<Rightarrow> char list" where
  "nul_block es = concat (map (\<lambda>e. e @ [NUL]) es)"

lemma nul_block_simps [simp]:
  "nul_block [] = []" "nul_block (e # es) = e @ NUL # nul_block es"
  by (simp_all add: nul_block_def)

lemma split_nul_block:
  "\<forall>e \<in> set es. NUL \<notin> set e \<Longrightarrow> split_nul (nul_block es) = es"
  by (induction es) (auto simp: split_nul_entry)

text \<open>A block that is in bounds: what every step of a loop over it may rely on.\<close>

definition block_ok :: "char list \<Rightarrow> nat \<Rightarrow> bool" where
  "block_ok buf len \<longleftrightarrow> len \<le> length buf \<and> len + 1 < 2 ^ 32"

definition entry_at :: "char list \<Rightarrow> nat \<Rightarrow> nat \<Rightarrow> string" where
  "entry_at buf len pos = takeWhile (\<lambda>c. c \<noteq> NUL) (drop pos (take len buf))"

lemma block_step:
  assumes "block_ok buf len" "pos < len"
  defines "k \<equiv> length (entry_at buf len pos)"
  shows "strnlen_at buf pos (len - pos) = Some k"
    and "take k (drop pos buf) = entry_at buf len pos"
    and "advance pos k = pos + k + 1"
    and "split_nul (drop pos (take len buf)) =
           entry_at buf len pos # split_nul (drop (pos + k + 1) (take len buf))"
    and "pos + k \<le> len"
proof -
  have blk: "drop pos (take len buf) = take (len - pos) (drop pos buf)"
    by (simp add: drop_take)
  show s: "strnlen_at buf pos (len - pos) = Some k"
    using assms by (simp add: strnlen_at_in_bounds block_ok_def entry_at_def blk)
  then have le: "k \<le> len - pos" by (rule strnlen_at_le)
  have "entry_at buf len pos = take k (take (len - pos) (drop pos buf))"
    unfolding k_def entry_at_def blk by (rule takeWhile_eq_take)
  then show "take k (drop pos buf) = entry_at buf len pos"
    using le by (simp add: min_def)
  show "pos + k \<le> len" using le assms(2) by simp
  then show "advance pos k = pos + k + 1"
    using assms(1) by (simp add: advance_def block_ok_def)
  have "drop pos (take len buf) \<noteq> []"
    using assms(1,2) by (simp add: block_ok_def)
  then have "split_nul (drop pos (take len buf)) =
      entry_at buf len pos # split_nul (drop (Suc k) (drop pos (take len buf)))"
    unfolding k_def entry_at_def by (subst split_nul.simps) simp
  moreover have "Suc k + pos = pos + k + 1" by simp
  ultimately show "split_nul (drop pos (take len buf)) =
      entry_at buf len pos # split_nul (drop (pos + k + 1) (take len buf))"
    by (simp only: drop_drop)
qed

lemmas block_steps = block_step(1-4)

lemma drop_block_end: "len \<le> pos \<Longrightarrow> drop pos (take len buf) = []"
  by simp

end
