(* ===== verification/Attributor.thy ===== *)
theory Attributor
  imports Nul_Blocks
begin

text \<open>
  Package and phase attribution, \<^verbatim>\<open>src/daemon/attributor.cpp\<close>: from a path to the npm package
  whose directory it is in, and from an environment block to the npm lifecycle event.
\<close>

section \<open>The elements of a path\<close>

text \<open>
  \<open>std::filesystem::path\<close> as POSIX has it: its iteration gives the root directory, if the
  path starts with a slash, then the file names between slashes, then an empty name if the
  path has a file name and ends in a slash.
\<close>

fun split_slash :: "string \<Rightarrow> string list" where
  "split_slash [] = [[]]"
| "split_slash (c # s) =
     (if c = CHR ''/'' then [] # split_slash s
      else (case split_slash s of [] \<Rightarrow> [[c]] | w # ws \<Rightarrow> (c # w) # ws))"

definition path_names :: "string \<Rightarrow> string list" where
  "path_names p = filter (\<lambda>w. w \<noteq> []) (split_slash p)"

definition path_parts :: "string \<Rightarrow> string list" where
  "path_parts p =
     (if p \<noteq> [] \<and> hd p = CHR ''/'' then [''/''] else []) @ path_names p @
     (if path_names p \<noteq> [] \<and> last p = CHR ''/'' then [[]] else [])"

section \<open>The code\<close>

definition node_modules :: string where "node_modules = ''node_modules''"

text \<open>The downward loop for \<open>last_nm\<close>; the second argument is \<open>i + 1\<close>.\<close>

fun last_nm :: "string list \<Rightarrow> nat \<Rightarrow> int" where
  "last_nm parts 0 = -1"
| "last_nm parts (Suc i) = (if parts ! i = node_modules then int i else last_nm parts i)"

text \<open>The loop of the \<open>.pnpm\<close> branch.\<close>

function pnpm_loop :: "string list \<Rightarrow> nat \<Rightarrow> string option" where
  "pnpm_loop parts j =
     (if j + 1 < length parts
      then if parts ! j = node_modules then Some (parts ! (j + 1)) else pnpm_loop parts (j + 1)
      else None)"
  by pat_completeness auto
termination by (relation "measure (\<lambda>(parts, j). length parts - j)") auto

declare pnpm_loop.simps [simp del]

definition packageFromPath :: "string \<Rightarrow> string option" where
  "packageFromPath path =
     (if path = [] then None
      else let parts = path_parts path; nm = last_nm parts (length parts) in
        if nm < 0 then None
        else let next_idx = nat nm + 1 in
          if length parts \<le> next_idx then None
          else let next = parts ! next_idx in
            if next = ''.pnpm'' then pnpm_loop parts (next_idx + 1)
            else if starts_with next ''@'' \<and> next_idx + 1 < length parts
            then Some (next @ ''/'' @ parts ! (next_idx + 1))
            else if starts_with next ''.'' \<or> starts_with next ''_'' then None
            else Some next)"

definition packageFromCwd :: "string \<Rightarrow> string option" where
  "packageFromCwd cwd = packageFromPath cwd"

definition lifecycle_key :: string where "lifecycle_key = ''npm_lifecycle_event=''"

text \<open>
  The result: \<^const>\<open>None\<close> if the loop reads out of bounds or does not end, otherwise
  \<^term>\<open>Some r\<close> with \<open>r\<close> the value the function returns.
\<close>

partial_function (option) phase_loop :: "char list \<Rightarrow> nat \<Rightarrow> nat \<Rightarrow> string option option" where
  "phase_loop env env_len pos =
     (if pos < env_len then do {
        entry_len \<leftarrow> strnlen_at env pos (env_len - pos);
        if starts_with (take entry_len (drop pos env)) lifecycle_key
        then Some (Some (drop (length lifecycle_key) (take entry_len (drop pos env))))
        else phase_loop env env_len (advance pos entry_len)
      }
      else Some None)"

definition phaseFromEnv :: "char list \<Rightarrow> u32 \<Rightarrow> string option option" where
  "phaseFromEnv env env_len = phase_loop env (unat env_len) 0"

section \<open>The lifecycle event of an environment block\<close>

text \<open>The first entry of the block that sets the variable.\<close>

fun first_value :: "string \<Rightarrow> string list \<Rightarrow> string option" where
  "first_value key [] = None"
| "first_value key (e # es) =
     (if starts_with e key then Some (drop (length key) e) else first_value key es)"

lemma phase_loop_entries:
  assumes "block_ok env len"
  shows "phase_loop env len pos = Some (first_value lifecycle_key (split_nul (drop pos (take len env))))"
proof (induction "len - pos" arbitrary: pos rule: less_induct)
  case less
  show ?case
  proof (cases "pos < len")
    case True
    note st = block_step [OF assms True]
    have "phase_loop env len (pos + length (entry_at env len pos) + 1) =
        Some (first_value lifecycle_key
          (split_nul (drop (pos + length (entry_at env len pos) + 1) (take len env))))"
      by (rule less) (use True in simp)
    then show ?thesis using True by (subst phase_loop.simps) (simp add: st(1-4))
  next
    case False
    then show ?thesis by (subst phase_loop.simps) simp
  qed
qed

lemma phaseFromEnv_entries:
  "block_ok env (unat len) \<Longrightarrow>
   phaseFromEnv env len = Some (first_value lifecycle_key (split_nul (take (unat len) env)))"
  by (simp add: phaseFromEnv_def phase_loop_entries)

section \<open>The package of a path\<close>

text \<open>The code by the names after the last \<open>node_modules\<close>.\<close>

fun after_last :: "string \<Rightarrow> string list \<Rightarrow> string list option" where
  "after_last m [] = None"
| "after_last m (w # ws) =
     (case after_last m ws of Some r \<Rightarrow> Some r | None \<Rightarrow> if w = m then Some ws else None)"

fun package_of_names :: "string list \<Rightarrow> string option" where
  "package_of_names [] = None"
| "package_of_names (n # ns) =
     (if n = ''.pnpm'' then None
      else if starts_with n ''@'' \<and> ns \<noteq> [] then Some (n @ ''/'' @ hd ns)
      else if starts_with n ''.'' \<or> starts_with n ''_'' then None
      else Some n)"

definition package_spec :: "string list \<Rightarrow> string option" where
  "package_spec parts = Option.bind (after_last node_modules parts) package_of_names"

lemma after_last_None: "after_last m ws = None \<longleftrightarrow> m \<notin> set ws"
  by (induction ws) (auto split: option.splits)

lemma after_last_append:
  "after_last m (us @ m # ws) = Some ws" if "m \<notin> set ws"
proof -
  have "after_last m ws = None" using that by (simp add: after_last_None)
  then show ?thesis by (induction us) auto
qed

lemma last_nm_append_irrelevant:
  "n \<le> length us \<Longrightarrow> last_nm (us @ ws) n = last_nm us n"
  by (induction n) (auto simp: nth_append)

lemma last_nm_after:
  "node_modules \<notin> set ws \<Longrightarrow>
   last_nm (us @ node_modules # ws) (Suc (length us + length ws)) = int (length us)"
proof (induction ws rule: rev_induct)
  case Nil
  then show ?case by simp
next
  case (snoc w ws)
  let ?p = "us @ node_modules # ws"
  have "last_nm (?p @ [w]) (Suc (length us + length ws)) = last_nm ?p (Suc (length us + length ws))"
    by (rule last_nm_append_irrelevant) simp
  then have "last_nm (?p @ [w]) (Suc (length us + length ws)) = int (length us)"
    using snoc by simp
  moreover have "(?p @ [w]) ! Suc (length us + length ws) = w"
    using nth_append_length [of ?p w] by simp
  moreover have "w \<noteq> node_modules" using snoc.prems by auto
  ultimately show ?case by simp
qed

lemma last_nm_none: "node_modules \<notin> set parts \<Longrightarrow> n \<le> length parts \<Longrightarrow> last_nm parts n = -1"
  by (induction n) (auto simp: in_set_conv_nth)

text \<open>
  The loop of the \<open>.pnpm\<close> branch never finds anything: it starts after the last
  \<open>node_modules\<close> of the path.
\<close>

lemma pnpm_loop_none:
  "(\<forall>i. j \<le> i \<and> i < length parts \<longrightarrow> parts ! i \<noteq> node_modules) \<Longrightarrow> pnpm_loop parts j = None"
proof (induction parts j rule: pnpm_loop.induct)
  case (1 parts j)
  then show ?case by (subst pnpm_loop.simps) auto
qed

lemma packageFromPath_names:
  assumes "node_modules \<notin> set ws" "path_parts path = us @ node_modules # ws" "path \<noteq> []"
  shows "packageFromPath path = package_of_names ws"
proof -
  define parts where "parts = path_parts path"
  have parts: "parts = us @ node_modules # ws" by (simp add: parts_def assms(2))
  have len: "length parts = Suc (length us + length ws)" by (simp add: parts)
  have nm: "last_nm parts (length parts) = int (length us)"
    using last_nm_after [OF assms(1), of us] by (simp add: parts len)
  have nth: "parts ! (Suc (length us + i)) = ws ! i" for i
    by (simp add: parts nth_append)
  have loop: "pnpm_loop parts (length us + 1 + 1) = None"
  proof (rule pnpm_loop_none, intro allI impI)
    fix i assume i: "length us + 1 + 1 \<le> i \<and> i < length parts"
    then have "parts ! i = ws ! (i - Suc (length us))"
      using nth [of "i - Suc (length us)"] by simp
    moreover have "i - Suc (length us) < length ws" using i len by arith
    ultimately show "parts ! i \<noteq> node_modules" using assms(1) by (metis nth_mem)
  qed
  show ?thesis
  proof (cases ws)
    case Nil
    then show ?thesis
      using assms(3) nm by (simp add: packageFromPath_def Let_def len flip: parts_def)
  next
    case (Cons n ns)
    have "parts ! (length us + 1) = n" using nth [of 0] Cons by simp
    moreover have "ns \<noteq> [] \<Longrightarrow> parts ! (length us + 1 + 1) = hd ns"
      using nth [of 1] Cons by (simp add: hd_conv_nth)
    moreover have "length us + 1 + 1 < length parts \<longleftrightarrow> ns \<noteq> []" by (simp add: len Cons)
    moreover have "\<not> length parts \<le> length us + 1" by (simp add: len Cons)
    ultimately show ?thesis
      using assms(3)
      by (simp add: packageFromPath_def Let_def nm loop Cons flip: parts_def
          del: One_nat_def add_Suc_right)
  qed
qed

lemma packageFromPath_spec: "packageFromPath path = package_spec (path_parts path)"
proof (cases "node_modules \<in> set (path_parts path)")
  case True
  then obtain us ws where p: "path_parts path = us @ node_modules # ws" "node_modules \<notin> set ws"
    by (metis split_list_last)
  have "path \<noteq> []" using True by (auto simp: path_parts_def path_names_def)
  with p show ?thesis
    by (simp add: packageFromPath_names [OF p(2,1)] package_spec_def after_last_append)
next
  case False
  then show ?thesis
    by (auto simp: packageFromPath_def package_spec_def last_nm_none Let_def
        after_last_None [THEN iffD2])
qed

section \<open>Paths built from names\<close>

definition plain_name :: "string \<Rightarrow> bool" where
  "plain_name w \<longleftrightarrow> w \<noteq> [] \<and> CHR ''/'' \<notin> set w"

lemma split_slash_append: "split_slash (p @ CHR ''/'' # q) = split_slash p @ split_slash q"
proof (induction p)
  case Nil
  then show ?case by simp
next
  case (Cons c p)
  have "split_slash p \<noteq> []" by (cases p) (auto split: list.splits)
  with Cons show ?case by (auto split: list.splits)
qed

lemma split_slash_plain: "CHR ''/'' \<notin> set w \<Longrightarrow> split_slash w = [w]"
  by (induction w) auto

lemma path_names_append: "path_names (p @ CHR ''/'' # q) = path_names p @ path_names q"
  by (simp add: path_names_def split_slash_append)

lemma path_names_plain [simp]: "plain_name w \<Longrightarrow> path_names w = [w]"
  by (simp add: path_names_def split_slash_plain plain_name_def)

text \<open>An absolute path from its names: a slash before each.\<close>

fun abs_path :: "string list \<Rightarrow> string" where
  "abs_path [] = []"
| "abs_path (w # ws) = CHR ''/'' # w @ abs_path ws"

lemma path_names_abs_path:
  "\<forall>w \<in> set ws. plain_name w \<Longrightarrow> path_names (p @ abs_path ws) = path_names p @ ws"
proof (induction ws arbitrary: p)
  case Nil
  then show ?case by simp
next
  case (Cons w ws)
  have "path_names ((p @ CHR ''/'' # w) @ abs_path ws) = path_names (p @ CHR ''/'' # w) @ ws"
    using Cons.IH [of "p @ CHR ''/'' # w"] Cons.prems by simp
  then show ?case using Cons.prems by (simp add: path_names_append)
qed

lemma abs_path_append: "abs_path (us @ ws) = abs_path us @ abs_path ws"
  by (induction us) auto

lemma abs_path_last:
  assumes "\<forall>w \<in> set ws. plain_name w" "ws \<noteq> []"
  shows "last (p @ abs_path ws) \<noteq> CHR ''/''" and "abs_path ws \<noteq> []"
proof -
  obtain us w where ws: "ws = us @ [w]" using assms(2) by (metis rev_exhaust)
  then have w: "w \<noteq> []" "CHR ''/'' \<notin> set w" using assms(1) by (auto simp: plain_name_def)
  then have "last w \<noteq> CHR ''/''" using last_in_set by metis
  with w show "last (p @ abs_path ws) \<noteq> CHR ''/''" and "abs_path ws \<noteq> []"
    by (auto simp: ws abs_path_append)
qed

lemma path_parts_abs_path:
  assumes "\<forall>w \<in> set ws. plain_name w" "ws \<noteq> []"
  shows "path_parts (abs_path ws) = ''/'' # ws"
proof -
  have "path_names (abs_path ws) = ws"
    using path_names_abs_path [OF assms(1), of "[]"] by (simp add: path_names_def)
  moreover have "hd (abs_path ws) = CHR ''/''" using assms(2) by (cases ws) auto
  moreover have "last (abs_path ws) \<noteq> CHR ''/''" "abs_path ws \<noteq> []"
    using abs_path_last(1) [OF assms, of "[]"] abs_path_last(2) [OF assms] by simp_all
  ultimately show ?thesis by (simp add: path_parts_def)
qed

lemma packageFromPath_abs:
  assumes "\<forall>w \<in> set (us @ node_modules # ws). plain_name w" "node_modules \<notin> set ws"
  shows "packageFromPath (abs_path (us @ node_modules # ws)) = package_of_names ws"
proof -
  have "path_parts (abs_path (us @ node_modules # ws)) = (''/'' # us) @ node_modules # ws"
    using path_parts_abs_path [OF assms(1)] by simp
  moreover have "abs_path (us @ node_modules # ws) \<noteq> []"
    using abs_path_last(2) [OF assms(1)] by simp
  ultimately show ?thesis by (rule packageFromPath_names [OF assms(2)])
qed

section \<open>Properties\<close>

text \<open>
  C22: \<open>packageFromPath\<close> computes the package of the directory under the last
  \<open>node_modules\<close> of the path: its name, or scope and name, and none for a path without such
  a directory or where it is a hidden one.
\<close>

theorem packageFromPath_correct:
  "packageFromPath path = package_spec (path_parts path)"
  by (rule packageFromPath_spec)

text \<open>
  C23: For an installed package, npm's \<open>.../node_modules/name/...\<close>, a scoped
  \<open>.../node_modules/@scope/name/...\<close>, or pnpm's
  \<open>.../node_modules/.pnpm/store/node_modules/name/...\<close> (where \<open>us\<close> ends in \<open>store\<close>), the
  result is the name, with its scope. A last \<open>node_modules\<close> followed by \<open>.pnpm\<close> never gives
  a package: the loop the source has for this case finds nothing.
\<close>

theorem installed_package:
  assumes "\<forall>w \<in> set (us @ node_modules # dir # rest). plain_name w"
    and "node_modules \<notin> set (dir # rest)"
  shows "packageFromPath (abs_path (us @ node_modules # dir # rest)) =
    (if starts_with dir ''@'' \<and> rest \<noteq> [] then Some (dir @ ''/'' @ hd rest)
     else if starts_with dir ''.'' \<or> starts_with dir ''_'' then None
     else Some dir)"
  using packageFromPath_abs [OF assms] by (auto simp: starts_with_def)

lemma installed_package_witness:
  "packageFromPath ''/app/node_modules/.pnpm/@s+a@1.0.0/node_modules/@s/a/lib'' = Some ''@s/a''"
proof -
  let ?us = "[''app'', node_modules, ''.pnpm'', ''@s+a@1.0.0'']" and ?rest = "[''a'', ''lib'']"
  have path: "abs_path (?us @ node_modules # ''@s'' # ?rest) =
      ''/app/node_modules/.pnpm/@s+a@1.0.0/node_modules/@s/a/lib''"
    by (simp add: node_modules_def)
  have "packageFromPath (abs_path (?us @ node_modules # ''@s'' # ?rest)) = Some (''@s'' @ ''/'' @ ''a'')"
    by (subst installed_package) (simp_all add: plain_name_def node_modules_def starts_with_def)
  then show ?thesis unfolding path by simp
qed

end
