(* ===== verification/Json_Text.thy ===== *)
theory Json_Text
  imports Prelude
begin

text \<open>
  The part of JSON (RFC 8259) that a report uses, as a specification: values, the grammar of
  their texts as an inductive relation, and a parser. The parser reads back every text of
  the grammar, so a text denotes one value only. Strings are byte strings: a byte from 0x20
  up stands for itself, which is what a UTF-8 text has for characters beyond ASCII.
\<close>

datatype json =
    JString string
  | JNumber nat
  | JBool bool
  | JArray "json list"
  | JObject "(string \<times> json) list"

abbreviation DQ :: char where "DQ \<equiv> CHR 0x22"
abbreviation BSL :: char where "BSL \<equiv> CHR 0x5C"

definition is_ws :: "char \<Rightarrow> bool" where
  "is_ws c \<longleftrightarrow> c = SP \<or> c = LF \<or> c = CR \<or> c = CHR 0x09"

abbreviation skip_ws :: "string \<Rightarrow> string" where "skip_ws s \<equiv> dropWhile is_ws s"

definition all_ws :: "string \<Rightarrow> bool" where "all_ws w \<longleftrightarrow> (\<forall>c \<in> set w. is_ws c)"

definition is_ctrl :: "char \<Rightarrow> bool" where "is_ctrl c \<longleftrightarrow> (of_char c :: nat) < 0x20"

definition hex_digit :: "nat \<Rightarrow> char" where
  "hex_digit n = (if n < 10 then char_of (48 + n) else char_of (87 + n))"

definition hex_val :: "char \<Rightarrow> nat option" where
  "hex_val c = (let n = of_char c in
     if 48 \<le> n \<and> n \<le> 57 then Some (n - 48)
     else if 97 \<le> n \<and> n \<le> 102 then Some (n - 87)
     else if 65 \<le> n \<and> n \<le> 70 then Some (n - 55) else None)"

text \<open>The value of four hexadecimal digits that denote an ASCII character.\<close>

definition hex4_val :: "char \<Rightarrow> char \<Rightarrow> char \<Rightarrow> char \<Rightarrow> nat option" where
  "hex4_val a b c d = do {
     a \<leftarrow> hex_val a; b \<leftarrow> hex_val b; c \<leftarrow> hex_val c; d \<leftarrow> hex_val d;
     let n = 4096 * a + 256 * b + 16 * c + d;
     if n < 128 then Some n else None
   }"

definition simple_escape :: "char \<Rightarrow> char option" where
  "simple_escape e =
     (if e = DQ then Some DQ else if e = BSL then Some BSL else if e = CHR ''/'' then Some CHR ''/''
      else if e = CHR ''b'' then Some CHR 0x08 else if e = CHR ''f'' then Some CHR 0x0C
      else if e = CHR ''n'' then Some LF else if e = CHR ''r'' then Some CR
      else if e = CHR ''t'' then Some CHR 0x09 else None)"

section \<open>The grammar\<close>

text \<open>\<open>str_body s t\<close>: between quotes, the text \<open>t\<close> denotes the string \<open>s\<close>.\<close>

inductive str_body :: "string \<Rightarrow> string \<Rightarrow> bool" where
  sb_nil: "str_body [] []"
| sb_plain: "\<not> is_ctrl c \<Longrightarrow> c \<noteq> DQ \<Longrightarrow> c \<noteq> BSL \<Longrightarrow> str_body s t \<Longrightarrow> str_body (c # s) (c # t)"
| sb_escape: "simple_escape e = Some c \<Longrightarrow> str_body s t \<Longrightarrow> str_body (c # s) (BSL # e # t)"
| sb_unicode: "hex4_val h1 h2 h3 h4 = Some n \<Longrightarrow> str_body s t \<Longrightarrow>
     str_body (char_of n # s) (BSL # CHR ''u'' # h1 # h2 # h3 # h4 # t)"

inductive json_text :: "json \<Rightarrow> string \<Rightarrow> bool"
  and json_elems :: "json list \<Rightarrow> string \<Rightarrow> bool"
  and json_members :: "(string \<times> json) list \<Rightarrow> string \<Rightarrow> bool" where
  jt_string: "str_body s t \<Longrightarrow> json_text (JString s) (DQ # t @ [DQ])"
| jt_number: "json_text (JNumber n) (dec_nat n)"
| jt_true: "json_text (JBool True) ''true''"
| jt_false: "json_text (JBool False) ''false''"
| jt_array_empty: "all_ws w \<Longrightarrow> json_text (JArray []) (CHR ''['' # w @ '']'')"
| jt_array: "json_elems vs t \<Longrightarrow> json_text (JArray vs) (CHR ''['' # t @ '']'')"
| jt_object_empty: "all_ws w \<Longrightarrow> json_text (JObject []) (CHR ''{'' # w @ ''}'')"
| jt_object: "json_members ms t \<Longrightarrow> json_text (JObject ms) (CHR ''{'' # t @ ''}'')"
| je_one: "all_ws w1 \<Longrightarrow> json_text v t \<Longrightarrow> all_ws w2 \<Longrightarrow> json_elems [v] (w1 @ t @ w2)"
| je_more: "all_ws w1 \<Longrightarrow> json_text v t \<Longrightarrow> all_ws w2 \<Longrightarrow> json_elems vs ts \<Longrightarrow>
     json_elems (v # vs) (w1 @ t @ w2 @ CHR '','' # ts)"
| jm_one: "all_ws w1 \<Longrightarrow> str_body k kt \<Longrightarrow> all_ws w2 \<Longrightarrow> all_ws w3 \<Longrightarrow> json_text v t \<Longrightarrow> all_ws w4 \<Longrightarrow>
     json_members [(k, v)] (w1 @ DQ # kt @ DQ # w2 @ CHR '':'' # w3 @ t @ w4)"
| jm_more: "all_ws w1 \<Longrightarrow> str_body k kt \<Longrightarrow> all_ws w2 \<Longrightarrow> all_ws w3 \<Longrightarrow> json_text v t \<Longrightarrow> all_ws w4 \<Longrightarrow>
     json_members ms ts \<Longrightarrow>
     json_members ((k, v) # ms) (w1 @ DQ # kt @ DQ # w2 @ CHR '':'' # w3 @ t @ w4 @ CHR '','' # ts)"

section \<open>The parser\<close>

text \<open>The rest of a string, after its opening quote: the string and what follows it.\<close>

fun parse_str :: "string \<Rightarrow> (string \<times> string) option" where
  "parse_str [] = None"
| "parse_str (c # s) =
     (if c = DQ then Some ([], s)
      else if c = BSL then
        (case s of
           [] \<Rightarrow> None
         | e # s' \<Rightarrow>
             if e = CHR ''u'' then
               (case s' of
                  h1 # h2 # h3 # h4 # s'' \<Rightarrow>
                    (case hex4_val h1 h2 h3 h4 of
                       None \<Rightarrow> None
                     | Some n \<Rightarrow> map_option (\<lambda>(r, q). (char_of n # r, q)) (parse_str s''))
                | _ \<Rightarrow> None)
             else (case simple_escape e of
                     None \<Rightarrow> None
                   | Some d \<Rightarrow> map_option (\<lambda>(r, q). (d # r, q)) (parse_str s')))
      else if is_ctrl c then None
      else map_option (\<lambda>(r, q). (c # r, q)) (parse_str s))"

text \<open>
  The parser proper; the number is fuel, one unit per value or list cell. A text of
  \<open>n\<close> bytes needs at most \<open>n\<close> units.
\<close>

fun parse_value :: "nat \<Rightarrow> string \<Rightarrow> (json \<times> string) option"
  and parse_elems :: "nat \<Rightarrow> string \<Rightarrow> (json list \<times> string) option"
  and parse_members :: "nat \<Rightarrow> string \<Rightarrow> ((string \<times> json) list \<times> string) option" where
  "parse_value 0 s = None"
| "parse_value (Suc n) s =
     (case s of
        [] \<Rightarrow> None
      | c # r \<Rightarrow>
          if c = DQ then map_option (\<lambda>(x, q). (JString x, q)) (parse_str r)
          else if c = CHR ''['' then
            (if starts_with (skip_ws r) '']'' then Some (JArray [], drop 1 (skip_ws r))
             else map_option (\<lambda>(vs, q). (JArray vs, q)) (parse_elems n r))
          else if c = CHR ''{'' then
            (if starts_with (skip_ws r) ''}'' then Some (JObject [], drop 1 (skip_ws r))
             else map_option (\<lambda>(ms, q). (JObject ms, q)) (parse_members n r))
          else if is_digit c then
            Some (JNumber (digits_val (takeWhile is_digit s)), dropWhile is_digit s)
          else if starts_with s ''true'' then Some (JBool True, drop 4 s)
          else if starts_with s ''false'' then Some (JBool False, drop 5 s)
          else None)"
| "parse_elems 0 s = None"
| "parse_elems (Suc n) s = do {
     (v, q) \<leftarrow> parse_value n (skip_ws s);
     if starts_with (skip_ws q) '','' then do {
       (vs, q') \<leftarrow> parse_elems n (drop 1 (skip_ws q));
       Some (v # vs, q')
     }
     else if starts_with (skip_ws q) '']'' then Some ([v], drop 1 (skip_ws q))
     else None
   }"
| "parse_members 0 s = None"
| "parse_members (Suc n) s =
     (if starts_with (skip_ws s) [DQ] then do {
        (k, p) \<leftarrow> parse_str (drop 1 (skip_ws s));
        if starts_with (skip_ws p) '':'' then do {
          (v, q) \<leftarrow> parse_value n (skip_ws (drop 1 (skip_ws p)));
          if starts_with (skip_ws q) '','' then do {
            (ms, q') \<leftarrow> parse_members n (drop 1 (skip_ws q));
            Some ((k, v) # ms, q')
          }
          else if starts_with (skip_ws q) ''}'' then Some ([(k, v)], drop 1 (skip_ws q))
          else None
        }
        else None
      }
      else None)"

definition parse_json :: "string \<Rightarrow> json option" where
  "parse_json s =
     (case parse_value (length s) (skip_ws s) of
        None \<Rightarrow> None
      | Some (v, r) \<Rightarrow> if skip_ws r = [] then Some v else None)"

section \<open>The parser reads the grammar\<close>

lemma parse_str_body: "str_body s t \<Longrightarrow> parse_str (t @ DQ # r) = Some (s, r)"
proof (induction rule: str_body.induct)
  case (sb_escape e c s t)
  then have "e \<noteq> CHR ''u''" by (auto simp: simple_escape_def)
  with sb_escape show ?case by simp
qed simp_all

lemma skip_ws_append: "all_ws w \<Longrightarrow> skip_ws (w @ s) = skip_ws s"
  by (simp add: all_ws_def dropWhile_append2)

lemma skip_ws_Cons [simp]: "\<not> is_ws c \<Longrightarrow> skip_ws (c # s) = c # s"
  by simp

lemma not_ws [simp]:
  "\<not> is_ws CHR '']''" "\<not> is_ws CHR ''}''" "\<not> is_ws CHR '',''" "\<not> is_ws CHR '':''" "\<not> is_ws DQ"
  "\<not> is_ws CHR ''[''" "\<not> is_ws CHR ''{''" "\<not> is_ws CHR ''t''" "\<not> is_ws CHR ''f''"
  by (simp_all add: is_ws_def)

lemma ws_not_digit: "is_ws c \<Longrightarrow> \<not> is_digit c"
  by (auto simp: is_ws_def is_digit_def)

lemma not_digit [simp]:
  "\<not> is_digit CHR '']''" "\<not> is_digit CHR ''}''" "\<not> is_digit CHR '',''" "\<not> is_digit DQ"
  "\<not> is_digit CHR ''[''" "\<not> is_digit CHR ''{''" "\<not> is_digit CHR ''t''" "\<not> is_digit CHR ''f''"
  by (simp_all add: is_digit_def)

definition no_digit_follows :: "string \<Rightarrow> bool" where
  "no_digit_follows r \<longleftrightarrow> r = [] \<or> \<not> is_digit (hd r)"

lemma no_digit_follows_Cons [simp]: "no_digit_follows (c # r) \<longleftrightarrow> \<not> is_digit c"
  by (simp add: no_digit_follows_def)

lemma no_digit_follows_ws: "all_ws w \<Longrightarrow> no_digit_follows r \<Longrightarrow> no_digit_follows (w @ r)"
  by (cases w) (auto simp: all_ws_def ws_not_digit)

lemma starts_with_Cons [simp]: "starts_with (c # s) [d] \<longleftrightarrow> c = d"
  by (auto simp: starts_with_def)

lemma starts_with_Nil [simp]: "\<not> starts_with [] [d]"
  by (simp add: starts_with_def)

text \<open>A text starts with none of the characters that end or separate.\<close>

definition value_start :: "char \<Rightarrow> bool" where
  "value_start c \<longleftrightarrow> is_digit c \<or> c \<in> set [DQ, CHR ''['', CHR ''{'', CHR ''t'', CHR ''f'']"

lemma value_start_neq:
  "value_start c \<Longrightarrow> \<not> is_ws c \<and> c \<noteq> CHR '']'' \<and> c \<noteq> CHR ''}''"
  using ws_not_digit not_digit by (auto simp: value_start_def)

lemma dec_nat_Cons: "\<exists>c u. dec_nat n = c # u \<and> is_digit c"
  using dec_nat_digits [of _ n] dec_nat_nonempty [of n] by (cases "dec_nat n") auto

lemma json_text_start: "json_text v t \<Longrightarrow> \<exists>c u. t = c # u \<and> value_start c"
  by (cases rule: json_text.cases) (use dec_nat_Cons in \<open>fastforce simp: value_start_def\<close>)+

lemma skip_ws_text: "json_text v t \<Longrightarrow> skip_ws (t @ r) = t @ r"
  using json_text_start value_start_neq by fastforce

lemma parse_value_digit:
  assumes "is_digit c"
  shows "parse_value (Suc m) (c # u) =
    Some (JNumber (digits_val (takeWhile is_digit (c # u))), dropWhile is_digit (c # u))"
proof -
  have "c \<noteq> DQ" "c \<noteq> CHR ''[''" "c \<noteq> CHR ''{''" using assms not_digit by auto
  then show ?thesis using assms by simp
qed

lemma parse_number:
  assumes "no_digit_follows r"
  shows "parse_value (Suc m) (dec_nat n @ r) = Some (JNumber n, r)"
proof -
  have t: "takeWhile is_digit (dec_nat n @ r) = dec_nat n"
    using assms by (intro takeWhile_digits_dec_nat) (simp add: no_digit_follows_def)
  have d: "dropWhile is_digit (dec_nat n @ r) = r"
    using t takeWhile_dropWhile_id [of is_digit "dec_nat n @ r"] by simp
  obtain c u where c: "dec_nat n = c # u" "is_digit c" using dec_nat_Cons by blast
  have "parse_value (Suc m) (c # (u @ r)) =
      Some (JNumber (digits_val (takeWhile is_digit (c # (u @ r)))), dropWhile is_digit (c # (u @ r)))"
    by (rule parse_value_digit [OF c(2)])
  moreover have "c # (u @ r) = dec_nat n @ r" by (simp add: c(1))
  ultimately show ?thesis by (simp only: t d digits_val_dec_nat)
qed

lemma elems_start:
  assumes "json_elems vs t"
  shows "\<exists>c u. skip_ws (t @ r) = c # u \<and> value_start c"
proof -
  have "\<exists>w1 v t' rest. t = w1 @ t' @ rest \<and> all_ws w1 \<and> json_text v t'"
    using assms by (cases rule: json_elems.cases) blast+
  then obtain w1 v t' rest where t: "t = w1 @ t' @ rest" "all_ws w1" "json_text v t'" by blast
  obtain c u where "t' = c # u" "value_start c" using json_text_start [OF t(3)] by blast
  then show ?thesis using t skip_ws_append [of w1] value_start_neq [of c] by simp
qed

lemma members_start: "json_members ms t \<Longrightarrow> \<exists>u. skip_ws (t @ r) = DQ # u"
  by (cases rule: json_members.cases) (auto simp: skip_ws_append)

text \<open>
  The parser on the texts of the grammar, with enough fuel and a rest that does not extend a
  number. The three statements are proved together, by induction on the grammar.
\<close>

lemma parse_grammar:
  "json_text v t \<Longrightarrow> length t \<le> n \<Longrightarrow> no_digit_follows r \<Longrightarrow> parse_value n (t @ r) = Some (v, r)"
  "json_elems vs t \<Longrightarrow> length t < n \<Longrightarrow> parse_elems n (t @ CHR '']'' # r) = Some (vs, r)"
  "json_members ms t \<Longrightarrow> length t < n \<Longrightarrow> parse_members n (t @ CHR ''}'' # r) = Some (ms, r)"
proof (induction arbitrary: n r and n r and n r rule: json_text_json_elems_json_members.inducts)
  case (jt_string s t)
  then obtain m where "n = Suc m" by (cases n) auto
  then show ?case using parse_str_body [OF jt_string(1), of r] by simp
next
  case (jt_number k)
  then obtain m where "n = Suc m" by (cases n) auto
  then show ?case using parse_number jt_number by simp
next
  case jt_true
  then obtain m where "n = Suc m" by (cases n) auto
  then show ?case by (simp add: starts_with_def)
next
  case jt_false
  then obtain m where "n = Suc m" by (cases n) auto
  then show ?case by (simp add: starts_with_def)
next
  case (jt_array_empty w)
  then obtain m where "n = Suc m" by (cases n) auto
  then show ?case using skip_ws_append [OF jt_array_empty(1)] by simp
next
  case (jt_array vs t)
  then obtain m where m: "n = Suc m" "length t < m" by (cases n) auto
  obtain c u where "skip_ws (t @ CHR '']'' # r) = c # u" "value_start c"
    using elems_start [OF jt_array(1)] by blast
  then have "\<not> starts_with (skip_ws (t @ CHR '']'' # r)) '']''" using value_start_neq by auto
  then show ?case using m jt_array.IH [of m r] by simp
next
  case (jt_object_empty w)
  then obtain m where "n = Suc m" by (cases n) auto
  then show ?case using skip_ws_append [OF jt_object_empty(1)] by simp
next
  case (jt_object ms t)
  then obtain m where m: "n = Suc m" "length t < m" by (cases n) auto
  obtain u where "skip_ws (t @ CHR ''}'' # r) = DQ # u"
    using members_start [OF jt_object(1)] by blast
  then have "\<not> starts_with (skip_ws (t @ CHR ''}'' # r)) ''}''" by simp
  then show ?case using m jt_object.IH [of m r] by simp
next
  case (je_one w1 v t w2)
  then obtain m where m: "n = Suc m" "length t \<le> m" by (cases n) auto
  have "parse_value m (t @ w2 @ CHR '']'' # r) = Some (v, w2 @ CHR '']'' # r)"
    using je_one m(2) no_digit_follows_ws [of w2 "CHR '']'' # r"] by simp
  then show ?case using m(1) je_one skip_ws_append skip_ws_text by simp
next
  case (je_more w1 v t w2 vs ts)
  then obtain m where m: "n = Suc m" "length t \<le> m" "length ts < m" by (cases n) auto
  have "parse_value m (t @ w2 @ CHR '','' # ts @ CHR '']'' # r) = Some (v, w2 @ CHR '','' # ts @ CHR '']'' # r)"
    using je_more m(2) no_digit_follows_ws [of w2 "CHR '','' # ts @ CHR '']'' # r"] by simp
  moreover have "parse_elems m (ts @ CHR '']'' # r) = Some (vs, r)" using je_more m(3) by simp
  ultimately show ?case using m(1) je_more skip_ws_append skip_ws_text by simp
next
  case (jm_one w1 k kt w2 w3 v t w4)
  then obtain m where m: "n = Suc m" "length t \<le> m" by (cases n) auto
  have "parse_value m (t @ w4 @ CHR ''}'' # r) = Some (v, w4 @ CHR ''}'' # r)"
    using jm_one m(2) no_digit_follows_ws [of w4 "CHR ''}'' # r"] by simp
  then show ?case using m(1) jm_one skip_ws_append skip_ws_text
    parse_str_body [OF jm_one(2), of "w2 @ CHR '':'' # w3 @ t @ w4 @ CHR ''}'' # r"] by simp
next
  case (jm_more w1 k kt w2 w3 v t w4 ms ts)
  then obtain m where m: "n = Suc m" "length t \<le> m" "length ts < m" by (cases n) auto
  have "parse_value m (t @ w4 @ CHR '','' # ts @ CHR ''}'' # r) = Some (v, w4 @ CHR '','' # ts @ CHR ''}'' # r)"
    using jm_more m(2) no_digit_follows_ws [of w4 "CHR '','' # ts @ CHR ''}'' # r"] by simp
  moreover have "parse_members m (ts @ CHR ''}'' # r) = Some (ms, r)" using jm_more m(3) by simp
  ultimately show ?case using m(1) jm_more skip_ws_append skip_ws_text
    parse_str_body [OF jm_more(2), of "w2 @ CHR '':'' # w3 @ t @ w4 @ CHR '','' # ts @ CHR ''}'' # r"]
    by simp
qed

lemma parse_json_text:
  assumes "json_text v t" "all_ws w" "all_ws w'"
  shows "parse_json (w @ t @ w') = Some v"
proof -
  have "no_digit_follows w'" using no_digit_follows_ws [OF assms(3), of "[]"]
    by (simp add: no_digit_follows_def)
  then have "parse_value (length (w @ t @ w')) (t @ w') = Some (v, w')"
    by (intro parse_grammar(1)) (use assms(1) in simp_all)
  moreover have "skip_ws (w @ t @ w') = t @ w'"
    using skip_ws_append [OF assms(2)] skip_ws_text [OF assms(1)] by simp
  moreover have "skip_ws w' = []" using assms(3) by (simp add: all_ws_def)
  ultimately show ?thesis by (simp add: parse_json_def)
qed

text \<open>A text denotes one value.\<close>

lemma json_text_unique: "json_text v t \<Longrightarrow> json_text v' t \<Longrightarrow> v = v'"
  using parse_json_text [of v t "[]" "[]"] parse_json_text [of v' t "[]" "[]"]
  by (simp add: all_ws_def)

end
