(* ===== verification/Report.thy ===== *)
theory Report
  imports Rules Json_Text "HOL-Library.Char_ord" "HOL-Library.List_Lexorder"
begin

text \<open>
  The report of a session, \<^verbatim>\<open>src/daemon/report.cpp\<close>: the tokens to rotate, the packages
  without observed scripts, and the Markdown and JSON renderers. Characters beyond ASCII are
  written as their UTF-8 bytes. The second half relates the renderers to what they mean: the
  JSON text denotes the value \<open>report_json\<close> of the session.
\<close>

section \<open>Code\<close>

fun severityEmoji :: "severity \<Rightarrow> string" where
  "severityEmoji SevNone = []"
| "severityEmoji SevLow = [CHR 0xF0, CHR 0x9F, CHR 0x9F, CHR 0xA1]"
| "severityEmoji SevMedium = [CHR 0xF0, CHR 0x9F, CHR 0x9F, CHR 0xA0]"
| "severityEmoji SevHigh = [CHR 0xF0, CHR 0x9F, CHR 0x94, CHR 0xB4]"

text \<open>
  A \<open>std::set<std::string>\<close> as its elements in iteration order: increasing, by the bytes as
  unsigned numbers.
\<close>

fun set_insert :: "string \<Rightarrow> string list \<Rightarrow> string list" where
  "set_insert x [] = [x]"
| "set_insert x (y # ys) =
     (if x < y then x # y # ys else if x = y then y # ys else y # set_insert x ys)"

fun rotation_inner :: "string list \<Rightarrow> string list \<Rightarrow> string list" where
  "rotation_inner [] out = out"
| "rotation_inner (t # ts) out =
     rotation_inner ts (if t \<noteq> ''GITHUB_TOKEN'' then set_insert t out else out)"

fun rotation_loop :: "finding list \<Rightarrow> string list \<Rightarrow> string list" where
  "rotation_loop [] out = out"
| "rotation_loop (f # fs) out =
     (if f_severity f \<noteq> SevHigh then rotation_loop fs out
      else rotation_loop fs (rotation_inner (f_tokens_exposed f) out))"

definition rotationTokens :: "session \<Rightarrow> string list" where
  "rotationTokens s = rotation_loop (findings s) []"

definition suppressedPackages :: "session \<Rightarrow> string list" where
  "suppressedPackages s = filter (\<lambda>pkg. \<not> packageHadExec pkg s) (extractedPackages s)"

definition siren :: string where "siren = [CHR 0xF0, CHR 0x9F, CHR 0x9A, CHR 0xA8]"
definition warning_sign :: string where "warning_sign = [CHR 0xE2, CHR 0x9A, CHR 0xA0]"
definition check_mark :: string where "check_mark = [CHR 0xE2, CHR 0x9C, CHR 0x85]"

definition bullet_lines :: "string list \<Rightarrow> string" where
  "bullet_lines ts = concat (map (\<lambda>t. ''- `'' @ t @ ''`'' @ [LF]) ts)"

definition md_finding :: "finding \<Rightarrow> string" where
  "md_finding f =
     (let info = ruleInfo (f_rule_id f) in
      ''- **'' @ severityEmoji (f_severity f) @ '' '' @ severityToString (f_severity f) @ ''** '' @
      em_dash @ '' '' @ f_message f @ '' *(rule `'' @ ri_code info @ ''` '' @ em_dash @ '' '' @
      ri_title info @ '', package `'' @ f_package f @ ''`'' @
      (if f_blocked f then '', blocked'' else []) @ '')*'' @ [LF])"

definition renderMarkdown :: "session \<Rightarrow> string" where
  "renderMarkdown s =
     (let out = ''# Blastguard report '' @ em_dash @ '' phase `'' @ phaseName s @ ''`'' @ [LF, LF];
          tokens = rotationTokens s;
          out = (if tokens \<noteq> [] then
                   out @ ''## '' @ siren @ '' Rotate the following tokens'' @ [LF, LF] @
                   bullet_lines tokens @ [LF]
                 else out);
          suppressed = suppressedPackages s;
          out = (if suppressed \<noteq> [] then
                   out @ ''## '' @ warning_sign @ '' '' @ dec_nat (length suppressed) @
                   '' package(s) installed without observed lifecycle scripts'' @ [LF, LF] @
                   bullet_lines suppressed @
                   [LF] @ ''No install / postinstall script ran for these packages during this phase. '' @
                   ''This is normal for packages that declare none, but if you expected scripts '' @
                   ''to run (e.g. `node-gyp-build`, `node-pre-gyp install`), check whether '' @
                   ''`ignore-scripts=true` is set in your npm config.'' @ [LF, LF]
                 else out)
      in if findings s = [] then out @ ''## '' @ check_mark @ '' No findings'' @ [LF, LF]
         else out @ ''## Findings ('' @ dec_nat (length (findings s)) @ '' total)'' @ [LF, LF] @
              concat (map md_finding (findings s)))"

text \<open>\<open>std::format("\u{:04x}", c)\<close> for a byte.\<close>

definition hex4 :: "nat \<Rightarrow> string" where
  "hex4 n = [hex_digit (n div 4096 mod 16), hex_digit (n div 256 mod 16), hex_digit (n div 16 mod 16),
     hex_digit (n mod 16)]"

fun escape_loop :: "string \<Rightarrow> string" where
  "escape_loop [] = []"
| "escape_loop (c # s) =
     (if c = DQ then [BSL, DQ]
      else if c = BSL then [BSL, BSL]
      else if c = LF then [BSL, CHR ''n'']
      else if c = CR then [BSL, CHR ''r'']
      else if c = CHR 0x09 then [BSL, CHR ''t'']
      else if (of_char c :: nat) < 0x20 then [BSL, CHR ''u''] @ hex4 (of_char c)
      else [c]) @ escape_loop s"

definition escapeJson :: "string \<Rightarrow> string" where
  "escapeJson s = [DQ] @ escape_loop s @ [DQ]"

text \<open>The loops that append escaped strings, with their \<open>first\<close> flag.\<close>

fun json_list_loop :: "string list \<Rightarrow> bool \<Rightarrow> string \<Rightarrow> string" where
  "json_list_loop [] first out = out"
| "json_list_loop (t # ts) first out =
     json_list_loop ts False ((if \<not> first then out @ '', '' else out) @ escapeJson t)"

definition json_key :: "string \<Rightarrow> string" where
  "json_key k = [DQ] @ k @ [DQ] @ '': ''"

definition json_finding :: "finding \<Rightarrow> string" where
  "json_finding f =
     [LF] @ ''    { '' @
     json_key ''rule'' @ escapeJson (ri_code (ruleInfo (f_rule_id f))) @ '', '' @
     json_key ''severity'' @ escapeJson (severityToString (f_severity f)) @ '', '' @
     json_key ''pid'' @ dec_u32 (f_pid f) @ '', '' @
     json_key ''package'' @ escapeJson (f_package f) @ '', '' @
     json_key ''phase'' @ escapeJson (f_lifecycle_phase f) @ '', '' @
     json_key ''message'' @ escapeJson (f_message f) @ '', '' @
     json_key ''tokens'' @ ''['' @ json_list_loop (f_tokens_exposed f) True [] @ ''], '' @
     json_key ''blocked'' @ (if f_blocked f then ''true'' else ''false'') @
     '' }''"

fun json_findings_loop :: "finding list \<Rightarrow> bool \<Rightarrow> string \<Rightarrow> string" where
  "json_findings_loop [] first out = out"
| "json_findings_loop (f # fs) first out =
     json_findings_loop fs False ((if \<not> first then out @ '','' else out) @ json_finding f)"

definition renderJson :: "session \<Rightarrow> string" where
  "renderJson s =
     ''{'' @ [LF] @
     ''  '' @ json_key ''phase'' @ escapeJson (phaseName s) @ '','' @ [LF] @
     ''  '' @ json_key ''rotate'' @ ''['' @ json_list_loop (rotationTokens s) True [] @ ''],'' @ [LF] @
     ''  '' @ json_key ''installed_without_scripts'' @ ''['' @
       json_list_loop (suppressedPackages s) True [] @ ''],'' @ [LF] @
     ''  '' @ json_key ''findings'' @ ''['' @ json_findings_loop (findings s) True [] @ [LF] @ ''  ]'' @ [LF] @
     ''}'' @ [LF]"

definition render :: "session \<Rightarrow> format \<Rightarrow> string" where
  "render s fmt = (if fmt = Json then renderJson s else renderMarkdown s)"

section \<open>The tokens to rotate\<close>

lemma set_set_insert [simp]: "set (set_insert x ys) = insert x (set ys)"
  by (induction ys) auto

lemma sorted_set_insert: "sorted_wrt (<) ys \<Longrightarrow> sorted_wrt (<) (set_insert x ys)"
  by (induction ys) (auto simp: not_less order.order_iff_strict)

lemma set_rotation_inner:
  "set (rotation_inner ts out) = {t \<in> set ts. t \<noteq> ''GITHUB_TOKEN''} \<union> set out"
  by (induction ts out rule: rotation_inner.induct) auto

lemma sorted_rotation_inner: "sorted_wrt (<) out \<Longrightarrow> sorted_wrt (<) (rotation_inner ts out)"
  by (induction ts out rule: rotation_inner.induct) (simp_all add: sorted_set_insert)

lemma set_rotation_loop:
  "set (rotation_loop fs out) =
   {t. \<exists>f \<in> set fs. f_severity f = SevHigh \<and> t \<in> set (f_tokens_exposed f) \<and> t \<noteq> ''GITHUB_TOKEN''} \<union> set out"
  by (induction fs out rule: rotation_loop.induct) (auto simp: set_rotation_inner)

lemma sorted_rotation_loop: "sorted_wrt (<) out \<Longrightarrow> sorted_wrt (<) (rotation_loop fs out)"
  by (induction fs out rule: rotation_loop.induct) (simp_all add: sorted_rotation_inner)

lemma rotationTokens_iff:
  "t \<in> set (rotationTokens s) \<longleftrightarrow>
   t \<noteq> ''GITHUB_TOKEN'' \<and> (\<exists>f \<in> set (findings s). f_severity f = SevHigh \<and> t \<in> set (f_tokens_exposed f))"
  by (auto simp: rotationTokens_def set_rotation_loop)

lemma rotationTokens_sorted: "sorted_wrt (<) (rotationTokens s)"
  by (simp add: rotationTokens_def sorted_rotation_loop)

lemma suppressedPackages_iff:
  "p \<in> set (suppressedPackages s) \<longleftrightarrow> p \<in> set (extractedPackages s) \<and> \<not> packageHadExec p s"
  by (auto simp: suppressedPackages_def)

section \<open>What the JSON report denotes\<close>

definition finding_json :: "finding \<Rightarrow> json" where
  "finding_json f = JObject
     [(''rule'', JString (ri_code (ruleInfo (f_rule_id f)))),
      (''severity'', JString (severityToString (f_severity f))),
      (''pid'', JNumber (unat (f_pid f))),
      (''package'', JString (f_package f)),
      (''phase'', JString (f_lifecycle_phase f)),
      (''message'', JString (f_message f)),
      (''tokens'', JArray (map JString (f_tokens_exposed f))),
      (''blocked'', JBool (f_blocked f))]"

definition report_json :: "session \<Rightarrow> json" where
  "report_json s = JObject
     [(''phase'', JString (phaseName s)),
      (''rotate'', JArray (map JString (rotationTokens s))),
      (''installed_without_scripts'', JArray (map JString (suppressedPackages s))),
      (''findings'', JArray (map finding_json (findings s)))]"

lemma hex_val_digit: "n < 16 \<Longrightarrow> hex_val (hex_digit n) = Some n"
  by (auto simp: hex_val_def hex_digit_def Let_def)

lemma hex4_val_ctrl:
  assumes "n < 0x20"
  shows "\<exists>a b c d. hex4 n = [a, b, c, d] \<and> hex4_val a b c d = Some n"
proof -
  have "n div 16 < 16" "n div 4096 = 0" "n div 256 = 0" using assms by auto
  then have "16 * (n div 16 mod 16) + n mod 16 = n" by simp
  then show ?thesis using assms by (simp add: hex4_def hex4_val_def hex_val_digit Let_def)
qed

lemma simple_escapes:
  "simple_escape DQ = Some DQ" "simple_escape BSL = Some BSL" "simple_escape CHR ''n'' = Some LF"
  "simple_escape CHR ''r'' = Some CR" "simple_escape CHR ''t'' = Some CHR 0x09"
  by (simp_all add: simple_escape_def)

lemma escape_loop_body: "str_body s (escape_loop s)"
proof (induction s)
  case Nil
  then show ?case by (simp add: sb_nil)
next
  case (Cons c s)
  consider "c \<in> {DQ, BSL, LF, CR, CHR 0x09}" | "c \<notin> {DQ, BSL, LF, CR, CHR 0x09}" "is_ctrl c"
    | "c \<notin> {DQ, BSL, LF, CR, CHR 0x09}" "\<not> is_ctrl c" by blast
  then show ?case
  proof cases
    case 1
    then show ?thesis
      by (elim insertE emptyE) (simp_all add: sb_escape [OF _ Cons] simple_escapes)
  next
    case 2
    obtain h1 h2 h3 h4 where h: "hex4 (of_char c) = [h1, h2, h3, h4]"
        "hex4_val h1 h2 h3 h4 = Some (of_char c)"
      using hex4_val_ctrl [of "of_char c"] 2(2) unfolding is_ctrl_def by blast
    have "str_body (char_of (of_char c :: nat) # s) (BSL # CHR ''u'' # h1 # h2 # h3 # h4 # escape_loop s)"
      by (rule sb_unicode [OF h(2) Cons])
    then show ?thesis using 2 h(1) by (simp add: is_ctrl_def)
  next
    case 3
    then show ?thesis using Cons sb_plain [of c s "escape_loop s"] by (auto simp: is_ctrl_def)
  qed
qed

lemma escapeJson_text: "json_text (JString s) (escapeJson s)"
  using jt_string [OF escape_loop_body] by (simp add: escapeJson_def)

lemma all_ws_simps [simp]:
  "all_ws []" "all_ws [LF]" "all_ws [SP]" "all_ws (LF # s) = all_ws s" "all_ws (SP # s) = all_ws s"
  by (auto simp: all_ws_def is_ws_def)

lemma json_list_loop_concat:
  "json_list_loop ts False out = out @ concat (map (\<lambda>t. '', '' @ escapeJson t) ts)"
  by (induction ts arbitrary: out) auto

lemma json_string_elems:
  "all_ws w \<Longrightarrow> json_elems (map JString (t # ts))
     (w @ escapeJson t @ concat (map (\<lambda>t. '', '' @ escapeJson t) ts))"
proof (induction ts arbitrary: w t)
  case Nil
  then show ?case using je_one [OF Nil escapeJson_text [of t], of "[]"] by simp
next
  case (Cons u ts)
  have "json_elems (map JString (u # ts)) ([SP] @ escapeJson u @ concat (map (\<lambda>t. '', '' @ escapeJson t) ts))"
    by (rule Cons.IH) simp
  then show ?case using je_more [OF Cons.prems escapeJson_text [of t], of "[]"] by simp
qed

lemma json_list_text: "json_text (JArray (map JString ts)) (''['' @ json_list_loop ts True [] @ '']'')"
proof (cases ts)
  case Nil
  then show ?thesis using jt_array_empty [of "[]"] by simp
next
  case (Cons t ts')
  have "json_elems (map JString ts) (json_list_loop ts True [])"
    using json_string_elems [of "[]" t ts'] by (simp add: Cons json_list_loop_concat)
  then show ?thesis using jt_array by simp
qed

lemma plain_body: "list_all (\<lambda>c. \<not> is_ctrl c \<and> c \<noteq> DQ \<and> c \<noteq> BSL) k \<Longrightarrow> str_body k k"
  by (induction k) (auto intro: str_body.intros)

lemma member_last:
  assumes "list_all (\<lambda>c. \<not> is_ctrl c \<and> c \<noteq> DQ \<and> c \<noteq> BSL) k" "json_text v t" "all_ws w" "all_ws w'"
  shows "json_members [(k, v)] (w @ json_key k @ t @ w')"
  using jm_one [OF assms(3) plain_body [OF assms(1)], of "[]" "[SP]" v t w'] assms
  by (simp add: json_key_def)

lemma member_more:
  assumes "list_all (\<lambda>c. \<not> is_ctrl c \<and> c \<noteq> DQ \<and> c \<noteq> BSL) k" "json_text v t" "all_ws w" "json_members ms ts"
  shows "json_members ((k, v) # ms) (w @ json_key k @ t @ '','' @ ts)"
  using jm_more [OF assms(3) plain_body [OF assms(1)], of "[]" "[SP]" v t "[]" ms ts] assms
  by (simp add: json_key_def)

lemma json_bool_text: "json_text (JBool b) (if b then ''true'' else ''false'')"
  using jt_true jt_false by simp

lemma finding_text: "\<exists>t. json_finding f = [LF] @ ''    '' @ t \<and> json_text (finding_json f) t"
proof -
  let ?P = "\<lambda>k. list_all (\<lambda>c. \<not> is_ctrl c \<and> c \<noteq> DQ \<and> c \<noteq> BSL) k"
  have keys: "?P ''rule''" "?P ''severity''" "?P ''pid''" "?P ''package''" "?P ''phase''"
    "?P ''message''" "?P ''tokens''" "?P ''blocked''"
    by (simp_all add: is_ctrl_def)
  note more = member_more [where w = "[SP]"]
  have "json_members
     [(''rule'', JString (ri_code (ruleInfo (f_rule_id f)))),
      (''severity'', JString (severityToString (f_severity f))),
      (''pid'', JNumber (unat (f_pid f))),
      (''package'', JString (f_package f)),
      (''phase'', JString (f_lifecycle_phase f)),
      (''message'', JString (f_message f)),
      (''tokens'', JArray (map JString (f_tokens_exposed f))),
      (''blocked'', JBool (f_blocked f))]
     ([SP] @ json_key ''rule'' @ escapeJson (ri_code (ruleInfo (f_rule_id f))) @ '','' @
      [SP] @ json_key ''severity'' @ escapeJson (severityToString (f_severity f)) @ '','' @
      [SP] @ json_key ''pid'' @ dec_u32 (f_pid f) @ '','' @
      [SP] @ json_key ''package'' @ escapeJson (f_package f) @ '','' @
      [SP] @ json_key ''phase'' @ escapeJson (f_lifecycle_phase f) @ '','' @
      [SP] @ json_key ''message'' @ escapeJson (f_message f) @ '','' @
      [SP] @ json_key ''tokens'' @ (''['' @ json_list_loop (f_tokens_exposed f) True [] @ '']'') @ '','' @
      [SP] @ json_key ''blocked'' @ (if f_blocked f then ''true'' else ''false'') @ [SP])"
    by (intro more member_last keys escapeJson_text json_list_text json_bool_text jt_number) simp_all
  from jt_object [OF this] show ?thesis
    by (intro exI conjI) (simp_all add: json_finding_def finding_json_def)
qed

lemma json_findings_loop_concat:
  "json_findings_loop fs False out = out @ concat (map (\<lambda>f. '','' @ json_finding f) fs)"
  by (induction fs arbitrary: out) auto

lemma json_findings_elems:
  "all_ws w \<Longrightarrow> json_elems (map finding_json (f # fs))
     (json_finding f @ concat (map (\<lambda>f. '','' @ json_finding f) fs) @ w)"
proof (induction fs arbitrary: f)
  case Nil
  obtain t where t: "json_finding f = [LF] @ ''    '' @ t" "json_text (finding_json f) t"
    using finding_text by blast
  then show ?case using je_one [of "[LF] @ ''    ''" "finding_json f" t w] Nil by simp
next
  case (Cons g fs)
  obtain t where t: "json_finding f = [LF] @ ''    '' @ t" "json_text (finding_json f) t"
    using finding_text by blast
  then show ?case
    using je_more [of "[LF] @ ''    ''" "finding_json f" t "[]"] Cons.IH [of g] Cons.prems by simp
qed

lemma json_findings_text:
  assumes "all_ws w"
  shows "json_text (JArray (map finding_json fs)) (''['' @ json_findings_loop fs True [] @ w @ '']'')"
proof (cases fs)
  case Nil
  then show ?thesis using jt_array_empty [OF assms] by simp
next
  case (Cons f fs')
  then show ?thesis
    using jt_array [OF json_findings_elems [OF assms, of f fs']]
    by (simp add: json_findings_loop_concat)
qed

lemma renderJson_text: "\<exists>t. renderJson s = t @ [LF] \<and> json_text (report_json s) t"
proof -
  let ?P = "\<lambda>k. list_all (\<lambda>c. \<not> is_ctrl c \<and> c \<noteq> DQ \<and> c \<noteq> BSL) k"
  have keys: "?P ''phase''" "?P ''rotate''" "?P ''installed_without_scripts''" "?P ''findings''"
    by (simp_all add: is_ctrl_def)
  note more = member_more [where w = "[LF, SP, SP]"]
  have "json_members
     [(''phase'', JString (phaseName s)),
      (''rotate'', JArray (map JString (rotationTokens s))),
      (''installed_without_scripts'', JArray (map JString (suppressedPackages s))),
      (''findings'', JArray (map finding_json (findings s)))]
     ([LF, SP, SP] @ json_key ''phase'' @ escapeJson (phaseName s) @ '','' @
      [LF, SP, SP] @ json_key ''rotate'' @ (''['' @ json_list_loop (rotationTokens s) True [] @ '']'') @ '','' @
      [LF, SP, SP] @ json_key ''installed_without_scripts'' @
        (''['' @ json_list_loop (suppressedPackages s) True [] @ '']'') @ '','' @
      [LF, SP, SP] @ json_key ''findings'' @
        (''['' @ json_findings_loop (findings s) True [] @ [LF, SP, SP] @ '']'') @ [LF])"
    by (intro more member_last keys escapeJson_text json_list_text json_findings_text) simp_all
  from jt_object [OF this] show ?thesis
    by (intro exI conjI) (simp_all add: renderJson_def report_json_def)
qed

lemma parse_renderJson: "parse_json (renderJson s) = Some (report_json s)"
proof -
  obtain t where "renderJson s = t @ [LF]" "json_text (report_json s) t"
    using renderJson_text by blast
  then show ?thesis using parse_json_text [of "report_json s" t "[]" "[LF]"] by simp
qed

section \<open>Properties\<close>

text \<open>The same with the newline the server adds.\<close>

lemma parse_renderJson_LF: "parse_json (renderJson s @ [LF]) = Some (report_json s)"
proof -
  obtain t where "renderJson s = t @ [LF]" "json_text (report_json s) t"
    using renderJson_text by blast
  then show ?thesis using parse_json_text [of "report_json s" t "[]" "[LF, LF]"] by simp
qed

text \<open>
  C4: The JSON report is a JSON text, whatever bytes the phase name, the package names, the
  arguments and the paths of the findings hold: a JSON parser reads back exactly the phase,
  the tokens to rotate, the packages without scripts, and every field of every finding.
\<close>

theorem json_report_faithful:
  "parse_json (renderJson s) = Some (report_json s)"
  by (rule parse_renderJson)

text \<open>
  C19: The tokens to rotate are those exposed by a finding of high severity, without
  \<open>GITHUB_TOKEN\<close>, each once, in increasing order.
\<close>

theorem rotation_exact:
  "set (rotationTokens s) = {t. t \<noteq> ''GITHUB_TOKEN'' \<and>
     (\<exists>f \<in> set (findings s). f_severity f = SevHigh \<and> t \<in> set (f_tokens_exposed f))} \<and>
   distinct (rotationTokens s) \<and> sorted_wrt (<) (rotationTokens s)"
  using rotationTokens_sorted [of s]
  by (auto simp: rotationTokens_iff strict_sorted_iff)

lemma rotation_exact_witness:
  "set (rotationTokens (addFinding (default_finding\<lparr>f_severity := SevHigh,
     f_tokens_exposed := [''NPM_TOKEN'', ''GITHUB_TOKEN'']\<rparr>) new_session)) = {''NPM_TOKEN''}"
  unfolding conjunct1 [OF rotation_exact]
  by (auto simp: findings_def session_simps new_session_def)

lemma sub_l: "sublist x y \<Longrightarrow> sublist x (y @ b)"
  using sublist_append by blast

lemma sub_r: "sublist x y \<Longrightarrow> sublist x (a @ y)"
  using sublist_append by blast

lemma markdown_tokens:
  assumes "sublist x (bullet_lines (rotationTokens s))" "rotationTokens s \<noteq> []"
  shows "sublist x (renderMarkdown s)"
proof -
  have "sublist x (h @ a @ b @ c @ d @ bullet_lines (rotationTokens s) @ e)" for h a b c d e
    using assms(1) by (blast intro: sub_l sub_r)
  then show ?thesis
    unfolding renderMarkdown_def Let_def using assms(2)
    by (cases "suppressedPackages s = []"; cases "findings s = []"; simp only: if_True if_False simp_thms)
      (intro sub_l; assumption | blast intro: sub_l)+
qed

lemma markdown_suppressed:
  assumes "sublist x (bullet_lines (suppressedPackages s))" "suppressedPackages s \<noteq> []"
  shows "sublist x (renderMarkdown s)"
proof -
  have "sublist x (h @ a @ b @ c @ d @ e @ f @ bullet_lines (suppressedPackages s) @ g)" for h a b c d e f g
    using assms(1) by (blast intro: sub_l sub_r)
  then show ?thesis
    unfolding renderMarkdown_def Let_def using assms(2)
    by (cases "rotationTokens s = []"; cases "findings s = []"; simp only: if_True if_False simp_thms)
      (rule sub_l; assumption | blast intro: sub_l)+
qed

lemma sublist_concat: "x \<in> set xs \<Longrightarrow> sublist x (concat xs)"
  by (metis concat.simps(2) concat_append split_list sublist_appendI)

lemma bullet_line: "t \<in> set ts \<Longrightarrow> sublist (''- `'' @ t @ ''`'' @ [LF]) (bullet_lines ts)"
  unfolding bullet_lines_def by (intro sublist_concat) simp

text \<open>The report opens with the name of the phase and closes with its findings.\<close>

lemma markdown_ends:
  "prefix (''# Blastguard report '' @ em_dash @ '' phase `'' @ phaseName s @ ''`'' @ [LF, LF]) (renderMarkdown s)"
  "findings s = [] \<Longrightarrow> suffix (''## '' @ check_mark @ '' No findings'' @ [LF, LF]) (renderMarkdown s)"
  "findings s \<noteq> [] \<Longrightarrow> suffix (''## Findings ('' @ dec_nat (length (findings s)) @ '' total)'' @ [LF, LF] @
     concat (map md_finding (findings s))) (renderMarkdown s)"
proof -
  have suf: "suffix y (a @ y)" for a y :: string by (simp add: suffix_def)
  show "prefix (''# Blastguard report '' @ em_dash @ '' phase `'' @ phaseName s @ ''`'' @ [LF, LF]) (renderMarkdown s)"
    unfolding renderMarkdown_def Let_def by (simp add: prefix_def)
  show "findings s = [] \<Longrightarrow> suffix (''## '' @ check_mark @ '' No findings'' @ [LF, LF]) (renderMarkdown s)"
    unfolding renderMarkdown_def Let_def by (simp only: if_True simp_thms) (rule suf)
  show "findings s \<noteq> [] \<Longrightarrow> suffix (''## Findings ('' @ dec_nat (length (findings s)) @ '' total)'' @ [LF, LF] @
     concat (map md_finding (findings s))) (renderMarkdown s)"
    unfolding renderMarkdown_def Let_def by (simp only: if_False simp_thms) (rule suf)
qed

text \<open>What the line of a finding shows.\<close>

definition md_shows :: "finding \<Rightarrow> string \<Rightarrow> bool" where
  "md_shows f l \<longleftrightarrow>
     prefix (''- **'' @ severityEmoji (f_severity f) @ '' '' @ severityToString (f_severity f) @ ''** '') l \<and>
     contains_sub l (f_message f) \<and>
     contains_sub l (''(rule `'' @ ri_code (ruleInfo (f_rule_id f)) @ ''`'') \<and>
     contains_sub l (ri_title (ruleInfo (f_rule_id f))) \<and>
     contains_sub l (''package `'' @ f_package f @ ''`'') \<and>
     (suffix ('', blocked)*'' @ [LF]) l \<longleftrightarrow> f_blocked f) \<and> suffix [LF] l"

lemma md_finding_shows: "md_shows f (md_finding f)"
proof -
  let ?i = "ruleInfo (f_rule_id f)"
  define h where "h = ''- **'' @ severityEmoji (f_severity f) @ '' '' @ severityToString (f_severity f) @ ''** ''"
  define e where "e = '')*'' @ [LF]"
  have l: "md_finding f = h @ (em_dash @ '' '') @ f_message f @ '' *'' @ (''(rule `'' @ ri_code ?i @ ''`'') @
      ('' '' @ em_dash @ '' '') @ ri_title ?i @ '', '' @ (''package `'' @ f_package f @ ''`'') @
      (if f_blocked f then '', blocked'' else []) @ e"
    by (simp add: md_finding_def Let_def h_def e_def)
  have "suffix ('', blocked)*'' @ [LF]) (md_finding f) \<longleftrightarrow> f_blocked f"
  proof (cases "f_blocked f")
    case True
    then have "md_finding f = (h @ (em_dash @ '' '') @ f_message f @ '' *'' @ (''(rule `'' @ ri_code ?i @ ''`'') @
      ('' '' @ em_dash @ '' '') @ ri_title ?i @ '', '' @ (''package `'' @ f_package f @ ''`'')) @ ('', blocked)*'' @ [LF])"
      by (simp add: l e_def)
    then show ?thesis using True by (metis suffixI)
  next
    case False
    then have "md_finding f = (h @ (em_dash @ '' '') @ f_message f @ '' *'' @ (''(rule `'' @ ri_code ?i @ ''`'') @
      ('' '' @ em_dash @ '' '') @ ri_title ?i @ '', '' @ (''package `'' @ f_package f)) @ ''`)*'' @ [LF]"
      by (simp add: l e_def)
    then have "\<not> suffix ('', blocked)*'' @ [LF]) (md_finding f)" by (simp add: suffix_def append_eq_append_conv2 append_eq_Cons_conv Cons_eq_append_conv)
    then show ?thesis using False by simp
  qed
  moreover have "prefix h (md_finding f)" unfolding l by (simp add: prefix_def)
  moreover have "suffix [LF] (md_finding f)" unfolding l e_def by (simp add: suffix_def)
  moreover have "sublist (f_message f) (md_finding f)"
    "sublist (''(rule `'' @ ri_code ?i @ ''`'') (md_finding f)"
    "sublist (ri_title ?i) (md_finding f)"
    "sublist (''package `'' @ f_package f @ ''`'') (md_finding f)"
    unfolding l
    by (rule sub_r, rule sub_r, rule sublist_append_rightI,
        rule sub_r, rule sub_r, rule sub_r, rule sub_r, rule sublist_append_rightI,
        rule sub_r, rule sub_r, rule sub_r, rule sub_r, rule sub_r, rule sub_r, rule sublist_append_rightI,
        rule sub_r, rule sub_r, rule sub_r, rule sub_r, rule sub_r, rule sub_r, rule sub_r, rule sub_r, rule sublist_append_rightI)
  ultimately show ?thesis
    unfolding md_shows_def contains_sub_sublist h_def [symmetric] by (intro conjI)
qed

text \<open>
  C40: The Markdown report names the phase, lists every token to rotate and every package
  whose scripts did not run, and closes with the findings: that there are none, or how many
  and one line for each, in their order. The line shows the severity, the message, the code
  and the title of the rule and the package, and that the connection was blocked exactly when
  it was. The message is copied as it is, so text of the attacker (an argument with line
  feeds) becomes Markdown of the report.
\<close>

theorem markdown_complete:
  "prefix (''# Blastguard report '' @ em_dash @ '' phase `'' @ phaseName s @ ''`'' @ [LF, LF]) (renderMarkdown s) \<and>
   (\<forall>t \<in> set (rotationTokens s) \<union> set (suppressedPackages s).
      contains_sub (renderMarkdown s) (''- `'' @ t @ ''`'' @ [LF])) \<and>
   (if findings s = [] then suffix (''## '' @ check_mark @ '' No findings'' @ [LF, LF]) (renderMarkdown s)
    else \<exists>ls. suffix (''## Findings ('' @ dec_nat (length (findings s)) @ '' total)'' @ [LF, LF] @ concat ls)
        (renderMarkdown s) \<and> list_all2 md_shows (findings s) ls)"
proof -
  have bullets: "\<forall>t \<in> set (rotationTokens s) \<union> set (suppressedPackages s).
      contains_sub (renderMarkdown s) (''- `'' @ t @ ''`'' @ [LF])"
  proof
    fix t assume t: "t \<in> set (rotationTokens s) \<union> set (suppressedPackages s)"
    show "contains_sub (renderMarkdown s) (''- `'' @ t @ ''`'' @ [LF])"
    proof (cases "t \<in> set (rotationTokens s)")
      case True
      then show ?thesis unfolding contains_sub_sublist by (intro markdown_tokens bullet_line) auto
    next
      case False
      then have "t \<in> set (suppressedPackages s)" using t by simp
      then show ?thesis unfolding contains_sub_sublist by (intro markdown_suppressed bullet_line) auto
    qed
  qed
  have shown: "list_all2 md_shows (findings s) (map md_finding (findings s))"
    by (simp add: list_all2_conv_all_nth md_finding_shows)
  show ?thesis
  proof (cases "findings s = []")
    case True
    show ?thesis unfolding if_P [OF True] by (intro conjI markdown_ends(1) bullets markdown_ends(2) True)
  next
    case False
    show ?thesis unfolding if_not_P [OF False]
      by (intro conjI markdown_ends(1) bullets exI [of _ "map md_finding (findings s)"] markdown_ends(3) False shown)
  qed
qed

lemma markdown_complete_witness:
  "\<exists>l. suffix (''## Findings ('' @ dec_nat 1 @ '' total)'' @ [LF, LF] @ l)
       (renderMarkdown (addFinding (default_finding\<lparr>f_message := ''x'' @ [LF] @ ''## No findings''\<rparr>) new_session)) \<and>
     md_shows (default_finding\<lparr>f_message := ''x'' @ [LF] @ ''## No findings''\<rparr>) l \<and>
     contains_sub l (''x'' @ [LF] @ ''## No findings'')"
proof -
  define f where "f = default_finding\<lparr>f_message := ''x'' @ [LF] @ ''## No findings''\<rparr>"
  have s: "findings (addFinding f new_session) = [f]"
    by (simp add: findings_def session_simps) (simp add: new_session_def)
  obtain ls where ls: "list_all2 md_shows [f] ls" "suffix (''## Findings ('' @ dec_nat 1 @ '' total)'' @ [LF, LF] @ concat ls)
      (renderMarkdown (addFinding f new_session))"
    using markdown_complete [of "addFinding f new_session"] by (auto simp: s)
  then obtain l where l: "ls = [l]" "md_shows f l" by (auto simp: list_all2_Cons1)
  have "contains_sub l (''x'' @ [LF] @ ''## No findings'')" using l(2) by (simp add: md_shows_def f_def)
  with ls(2) l show ?thesis unfolding f_def [symmetric] by auto
qed

end
