(* ===== verification/Daemon.thy ===== *)
theory Daemon
  imports Ebpf_Manager Attributor Report
begin

text \<open>
  The daemon, \<^verbatim>\<open>src/daemon/daemon.h\<close> and \<^verbatim>\<open>src/daemon/daemon.cpp\<close>: start-up, the
  decoding of ring buffer samples, the four event handlers and the five request handlers.
  \<open>m_bpf\<close> stands for the kernel maps \<open>m_mgr\<close> holds file descriptors of; \<open>m_stdout\<close> is
  what the verbose log has written, line by line. Diagnostics on stderr are left out.
  A handler returns an option: \<^const>\<open>None\<close> is a read out of bounds or a loop that does not
  end.
\<close>

unbundle bit_operations_syntax

record daemon =
  m_args :: daemon_args
  m_session :: session
  m_allowlist :: allowlist
  m_bpf :: bpf_maps
  m_shouldExit :: bool
  m_stdout :: "string list"

section \<open>Argument and environment blocks\<close>

definition scan_tokens :: "string \<Rightarrow> u32 \<Rightarrow> u32" where
  "scan_tokens entry_view m =
     fold (\<lambda>t m. if starts_with entry_view (t_prefix t) then m OR t_bit t else m) token_table m"

partial_function (option) scan_loop :: "char list \<Rightarrow> nat \<Rightarrow> nat \<Rightarrow> u32 \<Rightarrow> u32 option" where
  "scan_loop buf len pos m =
     (if pos < len then do {
        entry_len \<leftarrow> strnlen_at buf pos (len - pos);
        scan_loop buf len (advance pos entry_len) (scan_tokens (take entry_len (drop pos buf)) m)
      }
      else Some m)"

definition scanEnvForTokens :: "char list \<Rightarrow> u32 \<Rightarrow> u32 option" where
  "scanEnvForTokens buf len = scan_loop buf (unat len) 0 0"

partial_function (option) argv_loop ::
  "char list \<Rightarrow> nat \<Rightarrow> nat \<Rightarrow> bool \<Rightarrow> string \<Rightarrow> string option" where
  "argv_loop buf len pos first out =
     (if pos < len then do {
        arg_len \<leftarrow> strnlen_at buf pos (len - pos);
        if arg_len = 0 \<and> 0 < pos then Some out
        else argv_loop buf len (advance pos arg_len) False
               ((if \<not> first then out @ '' '' else out) @ take arg_len (drop pos buf))
      }
      else Some out)"

definition formatArgv :: "char list \<Rightarrow> u32 \<Rightarrow> string option" where
  "formatArgv buf len = argv_loop buf (unat len) 0 True []"

section \<open>The process file system\<close>

definition readlink_max :: nat where "readlink_max = 4096" \<comment> \<open>\<open>PATH_MAX\<close>\<close>

definition readCwd :: "kernel \<Rightarrow> u32 \<Rightarrow> string" where
  "readCwd K pid =
     (case k_readlink K (''/proc/'' @ dec_u32 pid @ ''/cwd'') of
        None \<Rightarrow> []
      | Some target \<Rightarrow> take readlink_max target)"

definition pidExists :: "kernel \<Rightarrow> u32 \<Rightarrow> bool" where
  "pidExists K pid = k_stat K (''/proc/'' @ dec_u32 pid)"

section \<open>Event handlers\<close>

text \<open>
  The step the fork and the exec handler share: a process with no package takes that of its
  working directory. The result is the package number and the daemon afterwards.
\<close>

definition package_by_cwd :: "kernel \<Rightarrow> u32 \<Rightarrow> daemon \<Rightarrow> u32 \<times> daemon" where
  "package_by_cwd K pid d =
     (let cwd = readCwd K pid in
      case packageFromCwd cwd of
        None \<Rightarrow> (0, d)
      | Some pkg \<Rightarrow>
          (let (i, s) = internPackage pkg (m_session d);
               s = setPidPackage pid i s;
               (_, b) = setPackageForPid K pid i (m_bpf d)
           in (i, d\<lparr>m_session := s, m_bpf := b\<rparr>)))"

definition onForkEvent :: "kernel \<Rightarrow> event_fork \<Rightarrow> daemon \<Rightarrow> daemon" where
  "onForkEvent K e d =
     (let pid = h_pid (fk_hdr e);
          parent_pkg = pidPackage pid (m_session d);
          parent_pkg = (if parent_pkg = 0 \<and> fk_package_id e \<noteq> 0 then fk_package_id e else parent_pkg);
          (parent_pkg, d) = (if parent_pkg = 0 then package_by_cwd K pid d else (parent_pkg, d));
          d = d\<lparr>m_session := setPidPackage (fk_child_pid e) parent_pkg (m_session d)\<rparr>
      in if parent_pkg \<noteq> 0
         then d\<lparr>m_bpf := snd (setPackageForPid K (fk_child_pid e) parent_pkg (m_bpf d))\<rparr>
         else d)"

definition event_package :: "u32 \<Rightarrow> u32 \<Rightarrow> session \<Rightarrow> u32" where
  "event_package pid kernel_id s =
     (let pkg_id = pidPackage pid s in
      if pkg_id = 0 \<and> kernel_id \<noteq> 0 then kernel_id else pkg_id)"

definition package_label :: "u32 \<Rightarrow> session \<Rightarrow> string" where
  "package_label pkg_id s = (if pkg_id \<noteq> 0 then packageName pkg_id s else [])"

definition log_line :: "string \<Rightarrow> daemon \<Rightarrow> daemon" where
  "log_line l d = (if da_verbose (m_args d) then d\<lparr>m_stdout := m_stdout d @ [l]\<rparr> else d)"

definition connect_ip :: "kernel \<Rightarrow> event_connect \<Rightarrow> string" where
  "connect_ip K e =
     (if cn_family e = 4 then k_ntop4 K (take 4 (drop 12 (cn_addr e))) else k_ntop6 K (cn_addr e))"

definition onConnectEvent :: "kernel \<Rightarrow> event_connect \<Rightarrow> daemon \<Rightarrow> daemon" where
  "onConnectEvent K e d =
     (let ipbuf = connect_ip K e;
          pid = h_pid (cn_hdr e);
          pkg_id = event_package pid (cn_package_id e) (m_session d);
          pkg_name = package_label pkg_id (m_session d);
          d = d\<lparr>m_session := onConnect e ipbuf (m_allowlist d) pkg_id pkg_name (m_session d)\<rparr>
      in log_line (''CONNECT pid='' @ dec_u32 pid @ '' addr='' @ ipbuf @ '':'' @ dec_u16 (cn_port e) @
           '' family=v'' @ dec_nat (unat (cn_family e)) @ '' package='' @ pkg_name @ '' blocked='' @
           (if cn_blocked e \<noteq> 0 then ''yes'' else ''no'')) d)"

text \<open>The path of an open event: bounded, without its final NUL.\<close>

definition event_path :: "event_open \<Rightarrow> string" where
  "event_path e =
     (let path_len = unat (op_path_len e);
          path_len = (if path_max < path_len then path_max else path_len);
          path_len = (if 0 < path_len \<and> op_path e ! (path_len - 1) = NUL then path_len - 1 else path_len)
      in take path_len (op_path e))"

fun hex_nat :: "nat \<Rightarrow> string" where
  "hex_nat n = (if n < 16 then [hex_digit n] else hex_nat (n div 16) @ [hex_digit (n mod 16)])"

declare hex_nat.simps [simp del]

definition hex_s32 :: "u32 \<Rightarrow> string" where
  "hex_s32 w = (if sint w < 0 then ''-'' @ hex_nat (nat (- sint w)) else hex_nat (nat (sint w)))"

definition onOpenEvent :: "kernel \<Rightarrow> event_open \<Rightarrow> daemon \<Rightarrow> daemon" where
  "onOpenEvent K e d =
     (let path = event_path e;
          pid = h_pid (op_hdr e);
          pkg_id = event_package pid (op_package_id e) (m_session d);
          pkg_name = package_label pkg_id (m_session d);
          s = onOpen e path pkg_id pkg_name (m_session d);
          writable = writable_flags (op_flags e);
          s = (if writable \<and> isActive s then
                 (case packageFromPath path of None \<Rightarrow> s | Some pkg \<Rightarrow> markExtracted pkg s)
               else s)
      in log_line (''OPEN pid='' @ dec_u32 pid @ '' path='' @ path @ '' flags=0x'' @
           hex_s32 (op_flags e) @ '' package='' @ pkg_name) (d\<lparr>m_session := s\<rparr>))"

fun token_log_loop :: "u32 \<Rightarrow> token_info list \<Rightarrow> string \<Rightarrow> string" where
  "token_log_loop m [] tokens = tokens"
| "token_log_loop m (t # ts) tokens =
     token_log_loop m ts
       (if has_token m t then (if tokens \<noteq> [] then tokens @ '','' else tokens) @ t_name t else tokens)"

text \<open>What \<open>onExecEvent\<close> does once the two blocks of the event are decoded.\<close>

definition exec_body ::
  "kernel \<Rightarrow> event_exec \<Rightarrow> string \<Rightarrow> u32 \<Rightarrow> string option \<Rightarrow> daemon \<Rightarrow> daemon" where
  "exec_body K e argv_str m phase_opt d =
     (let pid = h_pid (ex_hdr e);
          d = d\<lparr>m_session := setPidTokens pid m (m_session d)\<rparr>;
          pkg_id = event_package pid (ex_package_id e) (m_session d);
          (pkg_id, d) = (if pkg_id = 0 then package_by_cwd K pid d else (pkg_id, d));
          pkg_name = package_label pkg_id (m_session d);
          phase = (case phase_opt of None \<Rightarrow> [] | Some p \<Rightarrow> p);
          d = d\<lparr>m_session := onExec e argv_str m pkg_id pkg_name phase (m_session d)\<rparr>
      in log_line (''EXEC pid='' @ dec_u32 pid @ '' ppid='' @ dec_u32 (h_ppid (ex_hdr e)) @ '' comm='' @
           event_comm e @ '' argv=['' @ argv_str @ ''] tokens=['' @ token_log_loop m token_table [] @
           ''] package='' @ pkg_name @ '' phase='' @ phase) d)"

definition onExecEvent :: "kernel \<Rightarrow> event_exec \<Rightarrow> daemon \<Rightarrow> daemon option" where
  "onExecEvent K e d = do {
     argv_str \<leftarrow> formatArgv (ex_argv e) (ex_argv_len e);
     m \<leftarrow> scanEnvForTokens (ex_env e) (ex_env_len e);
     phase_opt \<leftarrow> phaseFromEnv (ex_env e) (ex_env_len e);
     Some (exec_body K e argv_str m phase_opt d)
   }"

definition onEvent :: "kernel \<Rightarrow> u8 list \<Rightarrow> daemon \<Rightarrow> daemon option" where
  "onEvent K data d =
     (if length data < sizeof_event_hdr then Some d
      else let ty = h_type (read_hdr data) in
      if ty = event_type_fork then
        (if sizeof_event_fork \<le> length data then Some (onForkEvent K (read_fork data) d) else Some d)
      else if ty = event_type_connect then
        (if sizeof_event_connect \<le> length data then Some (onConnectEvent K (read_connect data) d) else Some d)
      else if ty = event_type_open then
        (if sizeof_event_open \<le> length data then Some (onOpenEvent K (read_open data) d) else Some d)
      else if ty = event_type_exec then
        (if sizeof_event_exec \<le> length data then onExecEvent K (read_exec data) d else Some d)
      else Some d)"

text \<open>
  \<open>EBPFManager::consume\<close>: libbpf hands every sample of the ring to the callback, oldest
  first; the callback always returns 0, so none is skipped.
\<close>

fun consume_loop :: "kernel \<Rightarrow> u8 list list \<Rightarrow> daemon \<Rightarrow> daemon option" where
  "consume_loop K [] d = Some d"
| "consume_loop K (data # rest) d =
     do { d \<leftarrow> onEvent K data d; consume_loop K rest d }"

definition consume :: "kernel \<Rightarrow> daemon \<Rightarrow> daemon option" where
  "consume K d = consume_loop K (ring (m_bpf d)) (d\<lparr>m_bpf := (m_bpf d)\<lparr>ring := []\<rparr>\<rparr>)"

section \<open>Request handlers\<close>

definition onPingRequest :: "daemon \<Rightarrow> (error + pong_response) \<times> daemon" where
  "onPingRequest d = (Inr PongResponse, d)"

definition onStartPhaseRequest ::
  "kernel \<Rightarrow> u32 \<Rightarrow> string \<Rightarrow> daemon \<Rightarrow> (error + ok_response) \<times> daemon" where
  "onStartPhaseRequest K pid phase d =
     (if isActive (m_session d) then
        (Inl (Error (''phase '' @ phaseName (m_session d) @ '' is already active'')), d)
      else if \<not> pidExists K pid then
        (Inl (Error (''pid '' @ dec_u32 pid @ '' does not exist'')), d)
      else
        (let d = d\<lparr>m_session := reset_session (m_session d)\<rparr>;
             (ok, b) = trackPid K pid (m_bpf d);
             d = d\<lparr>m_bpf := b\<rparr>
         in if \<not> ok then (Inl (Error (''failed to track pid '' @ dec_u32 pid)), d)
            else (Inr OkResponse, d\<lparr>m_session := startPhase phase pid (m_session d)\<rparr>)))"

definition onEndPhaseRequest :: "kernel \<Rightarrow> daemon \<Rightarrow> ((error + ok_response) \<times> daemon) option" where
  "onEndPhaseRequest K d = do {
     let d = d\<lparr>m_session := endPhase (m_session d)\<rparr>;
     b \<leftarrow> clearTrackedPids K (m_bpf d);
     Some (Inr OkResponse, d\<lparr>m_bpf := b\<rparr>)
   }"

definition onReportRequest :: "format \<Rightarrow> daemon \<Rightarrow> (error + report_response) \<times> daemon" where
  "onReportRequest fmt d =
     (if isActive (m_session d) then
        (Inl (Error (''cannot generate report during an active phase ('' @ phaseName (m_session d) @ '')'')), d)
      else
        (Inr \<lparr>max_severity = maxSeverity (m_session d), body = render (m_session d) fmt\<rparr>, d))"

definition onShutdownRequest :: "daemon \<Rightarrow> (error + ok_response) \<times> daemon" where
  "onShutdownRequest d = (Inr OkResponse, d\<lparr>m_shouldExit := True\<rparr>)"

section \<open>Start-up\<close>

definition new_daemon :: "daemon_args \<Rightarrow> daemon" where
  "new_daemon args =
     \<lparr>m_args = args, m_session = new_session, m_allowlist = [], m_bpf = loaded_maps,
      m_shouldExit = False, m_stdout = []\<rparr>"

definition add_hosts :: "kernel \<Rightarrow> string list \<Rightarrow> allowlist \<Rightarrow> allowlist" where
  "add_hosts K hosts as = fold (addHost (k_getaddrinfo K)) hosts as"

text \<open>The result of \<open>addAllowedAddr\<close> is not looked at.\<close>

definition add_addrs :: "kernel \<Rightarrow> ipv6 list \<Rightarrow> bpf_maps \<Rightarrow> bpf_maps" where
  "add_addrs K as b = fold (\<lambda>a b. snd (addAllowedAddr K a b)) as b"

text \<open>
  \<open>Daemon::init\<close>: \<open>mgr_init\<close>, \<open>ipc_init\<close> and \<open>epoll_init\<close> are the results of loading and
  attaching the kernel programs, of opening the socket, and of setting up epoll.
\<close>

definition daemon_init :: "kernel \<Rightarrow> bool \<Rightarrow> bool \<Rightarrow> bool \<Rightarrow> daemon \<Rightarrow> bool \<times> daemon" where
  "daemon_init K mgr_init ipc_init epoll_init d =
     (if \<not> mgr_init then (False, d)
      else
        (let d = d\<lparr>m_allowlist := add_hosts K (da_allowed_hosts (m_args d)) (m_allowlist d)\<rparr>;
             (ok, b) = setMode K (da_mode (m_args d)) (m_bpf d);
             d = d\<lparr>m_bpf := b\<rparr>
         in if \<not> ok then (False, d)
            else
              (let as = addrs (m_allowlist d);
                   d = (if da_mode (m_args d) = Enforce
                        then d\<lparr>m_bpf := add_addrs K as (m_bpf d)\<rparr> else d)
               in if \<not> ipc_init then (False, d) else (epoll_init, d))))"

end
