(* ===== verification/Daemon_Blocks.thy ===== *)
theory Daemon_Blocks
  imports Daemon
begin

text \<open>
  What the loops over argument and environment blocks compute: the mask of the tokens whose
  variable is set, the arguments up to the first empty one, the lifecycle event. With these
  the exec handler is a function of the entries of its event.
\<close>

unbundle bit_operations_syntax

section \<open>Tokens\<close>

lemma scan_tokens_filter:
  "scan_tokens e m =
   fold (\<lambda>t m. m OR t_bit t) (filter (\<lambda>t. starts_with e (t_prefix t)) token_table) m"
proof -
  have "fold (\<lambda>t m. if starts_with e (t_prefix t) then m OR t_bit t else m) ts m =
      fold (\<lambda>t m. m OR t_bit t) (filter (\<lambda>t. starts_with e (t_prefix t)) ts) m" for ts
    by (induction ts arbitrary: m) auto
  then show ?thesis by (simp add: scan_tokens_def)
qed

lemma has_token_scan:
  assumes "t \<in> set token_table"
  shows "has_token (scan_tokens e m) t \<longleftrightarrow> starts_with e (t_prefix t) \<or> has_token m t"
  unfolding scan_tokens_filter by (subst fold_or_token) (use assms in auto)

lemma mask_ok_scan: "mask_ok m \<Longrightarrow> mask_ok (scan_tokens e m)"
proof -
  have "mask_ok m \<Longrightarrow> set ts \<subseteq> set token_table \<Longrightarrow> mask_ok (fold (\<lambda>t m. m OR t_bit t) ts m)" for ts
    by (induction ts arbitrary: m) (auto intro: mask_ok_or)
  then show "mask_ok m \<Longrightarrow> mask_ok (scan_tokens e m)"
    unfolding scan_tokens_filter by (metis filter_is_subset)
qed

definition tokens_of_entries :: "string list \<Rightarrow> u32" where
  "tokens_of_entries es = fold scan_tokens es 0"

lemma has_token_entries:
  assumes "t \<in> set token_table"
  shows "has_token (tokens_of_entries es) t \<longleftrightarrow> (\<exists>e \<in> set es. starts_with e (t_prefix t))"
proof -
  have "has_token (fold scan_tokens es m) t \<longleftrightarrow> (\<exists>e \<in> set es. starts_with e (t_prefix t)) \<or> has_token m t" for m
    by (induction es arbitrary: m) (auto simp: has_token_scan [OF assms])
  then show ?thesis by (simp add: tokens_of_entries_def has_token_def)
qed

lemma mask_ok_entries [simp]: "mask_ok (tokens_of_entries es)"
proof -
  have "mask_ok m \<Longrightarrow> mask_ok (fold scan_tokens es m)" for m
    by (induction es arbitrary: m) (auto intro: mask_ok_scan)
  then show ?thesis by (simp add: tokens_of_entries_def mask_ok_def)
qed

lemma scan_loop_entries:
  assumes "block_ok buf len"
  shows "scan_loop buf len pos m = Some (fold scan_tokens (split_nul (drop pos (take len buf))) m)"
proof (induction "len - pos" arbitrary: pos m rule: less_induct)
  case less
  show ?case
  proof (cases "pos < len")
    case True
    note st = block_step [OF assms True]
    show ?thesis
      by (subst scan_loop.simps) (use True less in \<open>simp add: st(1-4)\<close>)
  next
    case False
    then show ?thesis by (subst scan_loop.simps) simp
  qed
qed

lemma scanEnv_entries:
  "block_ok buf (unat len) \<Longrightarrow>
   scanEnvForTokens buf len = Some (tokens_of_entries (split_nul (take (unat len) buf)))"
  by (simp add: scanEnvForTokens_def scan_loop_entries tokens_of_entries_def)

section \<open>Arguments\<close>

text \<open>The arguments that are shown: the first, and the others up to an empty one.\<close>

fun shown_args :: "string list \<Rightarrow> string list" where
  "shown_args [] = []"
| "shown_args (a # as) = a # takeWhile (\<lambda>b. b \<noteq> []) as"

definition join_args :: "string list \<Rightarrow> string" where
  "join_args as = (case as of [] \<Rightarrow> [] | a # as \<Rightarrow> a @ concat (map (\<lambda>b. SP # b) as))"

lemma argv_loop_entries:
  assumes "block_ok buf len" "0 < pos"
  shows "argv_loop buf len pos False out =
     Some (out @ concat (map (\<lambda>b. SP # b) (takeWhile (\<lambda>b. b \<noteq> []) (split_nul (drop pos (take len buf))))))"
  using assms(2)
proof (induction "len - pos" arbitrary: pos out rule: less_induct)
  case less
  show ?case
  proof (cases "pos < len")
    case True
    note st = block_step [OF assms(1) True]
    show ?thesis
      by (subst argv_loop.simps) (use True less in \<open>simp add: st(1-4)\<close>)
  next
    case False
    then show ?thesis by (subst argv_loop.simps) simp
  qed
qed

lemma formatArgv_entries:
  assumes "block_ok buf (unat len)"
  shows "formatArgv buf len = Some (join_args (shown_args (split_nul (take (unat len) buf))))"
proof (cases "0 < unat len")
  case True
  note st = block_step [OF assms True]
  show ?thesis
    unfolding formatArgv_def
    by (subst argv_loop.simps)
      (use True st argv_loop_entries [OF assms] in \<open>simp add: join_args_def\<close>)
next
  case False
  then show ?thesis
    by (simp add: formatArgv_def argv_loop.simps join_args_def)
qed

section \<open>The exec handler on decoded blocks\<close>

definition exec_args :: "event_exec \<Rightarrow> string list" where
  "exec_args e = split_nul (take (unat (ex_argv_len e)) (ex_argv e))"

definition exec_env :: "event_exec \<Rightarrow> string list" where
  "exec_env e = split_nul (take (unat (ex_env_len e)) (ex_env e))"

definition exec_phase :: "event_exec \<Rightarrow> string option" where
  "exec_phase e = first_value lifecycle_key (exec_env e)"

definition exec_mask :: "event_exec \<Rightarrow> u32" where
  "exec_mask e = tokens_of_entries (exec_env e)"

lemma exec_blocks_ok:
  assumes "exec_lens_ok e"
  shows "block_ok (ex_argv e) (unat (ex_argv_len e))" "block_ok (ex_env e) (unat (ex_env_len e))"
  using assms by (auto simp: exec_lens_ok_def block_ok_def)

lemma onExecEvent_eq:
  assumes "exec_lens_ok e"
  shows "onExecEvent K e d =
     Some (exec_body K e (join_args (shown_args (exec_args e))) (exec_mask e) (exec_phase e) d)"
  using exec_blocks_ok [OF assms]
  by (simp add: onExecEvent_def formatArgv_entries scanEnv_entries phaseFromEnv_entries
      exec_args_def exec_env_def exec_mask_def exec_phase_def)

section \<open>Properties\<close>

text \<open>
  C21: The three loops over an argument or environment block never read past its end and
  always end, whatever bytes the block holds: empty entries, no final NUL, no NUL at all.
\<close>

theorem block_loops_safe:
  assumes "unat len \<le> length buf" "length buf < 2 ^ 31"
  shows "\<exists>m argv phase. scanEnvForTokens buf len = Some m \<and> formatArgv buf len = Some argv \<and>
    phaseFromEnv buf len = Some phase"
proof -
  have "block_ok buf (unat len)" using assms by (simp add: block_ok_def)
  then show ?thesis by (simp add: scanEnv_entries formatArgv_entries phaseFromEnv_entries)
qed

lemma block_loops_safe_witness:
  "\<exists>m argv phase. scanEnvForTokens [NUL, CHR ''a'', NUL, NUL, CHR ''b''] 5 = Some m \<and>
     formatArgv [NUL, CHR ''a'', NUL, NUL, CHR ''b''] 5 = Some argv \<and>
     phaseFromEnv [NUL, CHR ''a'', NUL, NUL, CHR ''b''] 5 = Some phase"
  by (rule block_loops_safe) simp_all

text \<open>
  C20: On a block as the kernel lays it out, each entry followed by a NUL: the token mask has
  exactly the tokens some entry sets, the phase is the value of the first
  \<open>npm_lifecycle_event\<close> entry, and the displayed command line is the arguments joined by
  blanks, up to the first empty argument after the first.
\<close>

theorem block_loops_correct:
  assumes "\<forall>e \<in> set es. NUL \<notin> set e" "take (unat len) buf = nul_block es" "unat len \<le> length buf"
    and "length buf < 2 ^ 31"
  shows "scanEnvForTokens buf len = Some (tokens_of_entries es) \<and>
    (\<forall>t \<in> set token_table. has_token (tokens_of_entries es) t \<longleftrightarrow> (\<exists>e \<in> set es. starts_with e (t_prefix t))) \<and>
    phaseFromEnv buf len = Some (first_value lifecycle_key es) \<and>
    formatArgv buf len = Some (join_args (shown_args es))"
proof -
  have "block_ok buf (unat len)" using assms(3,4) by (simp add: block_ok_def)
  then show ?thesis
    using has_token_entries
    by (simp add: scanEnv_entries formatArgv_entries phaseFromEnv_entries assms(2) split_nul_block [OF assms(1)])
qed

lemma block_loops_correct_witness:
  "formatArgv (nul_block [''sh'', ''-c'', ''x'']) 8 = Some ''sh -c x''"
  using block_loops_correct [of "[''sh'', ''-c'', ''x'']" 8 "nul_block [''sh'', ''-c'', ''x'']"]
  by (simp add: join_args_def)

end
