(* ===== verification/Daemon_Facts.thy ===== *)
theory Daemon_Facts
  imports Daemon_Blocks
begin

text \<open>
  What the daemon's handlers do to its state: the fields they leave alone, the one finding a
  handler may add, package attribution, and the independence of everything but the log from
  the verbose flag.
\<close>

named_theorems daemon_simps \<comment> \<open>fields a daemon operation leaves alone\<close>

section \<open>Frames\<close>

lemma log_line_fields [simp, daemon_simps]:
  "m_args (log_line l d) = m_args d" "m_session (log_line l d) = m_session d"
  "m_allowlist (log_line l d) = m_allowlist d" "m_bpf (log_line l d) = m_bpf d"
  "m_shouldExit (log_line l d) = m_shouldExit d"
  by (simp_all add: log_line_def)

lemma package_by_cwd_none:
  "packageFromCwd (readCwd K pid) = None \<Longrightarrow> package_by_cwd K pid d = (0, d)"
  by (simp add: package_by_cwd_def)

lemma package_by_cwd_some:
  "packageFromCwd (readCwd K pid) = Some pkg \<Longrightarrow>
   package_by_cwd K pid d =
     (fst (internPackage pkg (m_session d)),
      d\<lparr>m_session := setPidPackage pid (fst (internPackage pkg (m_session d)))
            (snd (internPackage pkg (m_session d))),
        m_bpf := snd (setPackageForPid K pid (fst (internPackage pkg (m_session d))) (m_bpf d))\<rparr>)"
  by (simp add: package_by_cwd_def Let_def split: prod.splits)

lemma package_by_cwd_frame [simp, daemon_simps]:
  "m_args (snd (package_by_cwd K pid d)) = m_args d"
  "m_allowlist (snd (package_by_cwd K pid d)) = m_allowlist d"
  "m_shouldExit (snd (package_by_cwd K pid d)) = m_shouldExit d"
  "m_stdout (snd (package_by_cwd K pid d)) = m_stdout d"
  "m_findings (m_session (snd (package_by_cwd K pid d))) = m_findings (m_session d)"
  "m_active (m_session (snd (package_by_cwd K pid d))) = m_active (m_session d)"
  "m_pidTokens (m_session (snd (package_by_cwd K pid d))) = m_pidTokens (m_session d)"
  "m_extractedPackages (m_session (snd (package_by_cwd K pid d))) = m_extractedPackages (m_session d)"
  "mode_config (m_bpf (snd (package_by_cwd K pid d))) = mode_config (m_bpf d)"
  "bpf_allowlist (m_bpf (snd (package_by_cwd K pid d))) = bpf_allowlist (m_bpf d)"
  "ring (m_bpf (snd (package_by_cwd K pid d))) = ring (m_bpf d)"
  by (cases "packageFromCwd (readCwd K pid)";
      simp add: package_by_cwd_none package_by_cwd_some session_simps)+

text \<open>
  The fork handler in its two cases: the parent has a package (by the session, then by the
  kernel), or its working directory decides.
\<close>

definition fork_parent :: "kernel \<Rightarrow> event_fork \<Rightarrow> daemon \<Rightarrow> u32 \<times> daemon" where
  "fork_parent K e d =
     (let p = event_package (h_pid (fk_hdr e)) (fk_package_id e) (m_session d)
      in if p = 0 then package_by_cwd K (h_pid (fk_hdr e)) d else (p, d))"

lemma onForkEvent_parent:
  "onForkEvent K e d =
     (let (p, d1) = fork_parent K e d;
          d2 = d1\<lparr>m_session := setPidPackage (fk_child_pid e) p (m_session d1)\<rparr>
      in if p \<noteq> 0 then d2\<lparr>m_bpf := snd (setPackageForPid K (fk_child_pid e) p (m_bpf d2))\<rparr> else d2)"
  by (simp add: onForkEvent_def fork_parent_def event_package_def Let_def)

lemma fork_parent_frame [simp, daemon_simps]:
  "m_args (snd (fork_parent K e d)) = m_args d"
  "m_allowlist (snd (fork_parent K e d)) = m_allowlist d"
  "m_shouldExit (snd (fork_parent K e d)) = m_shouldExit d"
  "m_stdout (snd (fork_parent K e d)) = m_stdout d"
  "m_findings (m_session (snd (fork_parent K e d))) = m_findings (m_session d)"
  "m_active (m_session (snd (fork_parent K e d))) = m_active (m_session d)"
  "m_pidTokens (m_session (snd (fork_parent K e d))) = m_pidTokens (m_session d)"
  "m_extractedPackages (m_session (snd (fork_parent K e d))) = m_extractedPackages (m_session d)"
  "mode_config (m_bpf (snd (fork_parent K e d))) = mode_config (m_bpf d)"
  "bpf_allowlist (m_bpf (snd (fork_parent K e d))) = bpf_allowlist (m_bpf d)"
  "ring (m_bpf (snd (fork_parent K e d))) = ring (m_bpf d)"
  by (simp_all add: fork_parent_def Let_def)

lemma onForkEvent_frame [simp, daemon_simps]:
  "m_args (onForkEvent K e d) = m_args d" "m_allowlist (onForkEvent K e d) = m_allowlist d"
  "m_shouldExit (onForkEvent K e d) = m_shouldExit d" "m_stdout (onForkEvent K e d) = m_stdout d"
  "m_findings (m_session (onForkEvent K e d)) = m_findings (m_session d)"
  "m_active (m_session (onForkEvent K e d)) = m_active (m_session d)"
  "m_pidTokens (m_session (onForkEvent K e d)) = m_pidTokens (m_session d)"
  "m_extractedPackages (m_session (onForkEvent K e d)) = m_extractedPackages (m_session d)"
  "mode_config (m_bpf (onForkEvent K e d)) = mode_config (m_bpf d)"
  "bpf_allowlist (m_bpf (onForkEvent K e d)) = bpf_allowlist (m_bpf d)"
  "ring (m_bpf (onForkEvent K e d)) = ring (m_bpf d)"
  by (simp_all add: onForkEvent_parent Let_def session_simps split: prod.split)
    (metis fork_parent_frame snd_conv)+

text \<open>The exec handler: attribution, then the rule.\<close>

definition exec_owner :: "kernel \<Rightarrow> event_exec \<Rightarrow> u32 \<Rightarrow> daemon \<Rightarrow> u32 \<times> daemon" where
  "exec_owner K e m d =
     (let pid = h_pid (ex_hdr e);
          d = d\<lparr>m_session := setPidTokens pid m (m_session d)\<rparr>;
          p = event_package pid (ex_package_id e) (m_session d)
      in if p = 0 then package_by_cwd K pid d else (p, d))"

lemma exec_body_owner:
  "exec_body K e argv m phase_opt d =
     (let (p, d1) = exec_owner K e m d;
          name = package_label p (m_session d1);
          phase = (case phase_opt of None \<Rightarrow> [] | Some p \<Rightarrow> p)
      in log_line (''EXEC pid='' @ dec_u32 (h_pid (ex_hdr e)) @ '' ppid='' @ dec_u32 (h_ppid (ex_hdr e)) @
           '' comm='' @ event_comm e @ '' argv=['' @ argv @ ''] tokens=['' @
           token_log_loop m token_table [] @ ''] package='' @ name @ '' phase='' @ phase)
           (d1\<lparr>m_session := onExec e argv m p name phase (m_session d1)\<rparr>))"
  by (simp add: exec_body_def exec_owner_def Let_def split: prod.split)

lemma exec_owner_frame [simp, daemon_simps]:
  "m_args (snd (exec_owner K e m d)) = m_args d"
  "m_allowlist (snd (exec_owner K e m d)) = m_allowlist d"
  "m_shouldExit (snd (exec_owner K e m d)) = m_shouldExit d"
  "m_stdout (snd (exec_owner K e m d)) = m_stdout d"
  "m_findings (m_session (snd (exec_owner K e m d))) = m_findings (m_session d)"
  "m_active (m_session (snd (exec_owner K e m d))) = m_active (m_session d)"
  "m_pidTokens (m_session (snd (exec_owner K e m d))) = (m_pidTokens (m_session d))(h_pid (ex_hdr e) \<mapsto> m)"
  "m_extractedPackages (m_session (snd (exec_owner K e m d))) = m_extractedPackages (m_session d)"
  "mode_config (m_bpf (snd (exec_owner K e m d))) = mode_config (m_bpf d)"
  "bpf_allowlist (m_bpf (snd (exec_owner K e m d))) = bpf_allowlist (m_bpf d)"
  "ring (m_bpf (snd (exec_owner K e m d))) = ring (m_bpf d)"
  by (simp_all add: exec_owner_def Let_def session_simps)

lemma exec_body_session:
  "m_session (exec_body K e argv m phase_opt d) =
     (let (p, d1) = exec_owner K e m d
      in onExec e argv m p (package_label p (m_session d1))
           (case phase_opt of None \<Rightarrow> [] | Some p \<Rightarrow> p) (m_session d1))"
  by (simp add: exec_body_owner Let_def split: prod.split)

lemma exec_body_frame [simp, daemon_simps]:
  "m_args (exec_body K e argv m po d) = m_args d"
  "m_allowlist (exec_body K e argv m po d) = m_allowlist d"
  "m_shouldExit (exec_body K e argv m po d) = m_shouldExit d"
  "mode_config (m_bpf (exec_body K e argv m po d)) = mode_config (m_bpf d)"
  "bpf_allowlist (m_bpf (exec_body K e argv m po d)) = bpf_allowlist (m_bpf d)"
  "ring (m_bpf (exec_body K e argv m po d)) = ring (m_bpf d)"
  by (simp_all add: exec_body_owner Let_def split: prod.split) (metis exec_owner_frame snd_conv)+

lemma exec_body_active [simp, daemon_simps]:
  "m_active (m_session (exec_body K e argv m po d)) = m_active (m_session d)"
  using appends_frame(1) [OF onExec_appends]
  by (simp add: exec_body_session Let_def split: prod.split) (metis exec_owner_frame(6) snd_conv)

lemma onConnectEvent_session:
  "m_session (onConnectEvent K e d) =
     (let p = event_package (h_pid (cn_hdr e)) (cn_package_id e) (m_session d)
      in onConnect e (connect_ip K e) (m_allowlist d) p (package_label p (m_session d)) (m_session d))"
  by (simp add: onConnectEvent_def Let_def)

lemma onConnectEvent_frame [simp, daemon_simps]:
  "m_args (onConnectEvent K e d) = m_args d" "m_allowlist (onConnectEvent K e d) = m_allowlist d"
  "m_shouldExit (onConnectEvent K e d) = m_shouldExit d" "m_bpf (onConnectEvent K e d) = m_bpf d"
  by (simp_all add: onConnectEvent_def Let_def)

lemma onOpenEvent_session:
  "m_session (onOpenEvent K e d) =
     (let p = event_package (h_pid (op_hdr e)) (op_package_id e) (m_session d);
          s = onOpen e (event_path e) p (package_label p (m_session d)) (m_session d)
      in if writable_flags (op_flags e) \<and> isActive s
         then (case packageFromPath (event_path e) of None \<Rightarrow> s | Some pkg \<Rightarrow> markExtracted pkg s) else s)"
  by (simp add: onOpenEvent_def Let_def)

lemma onOpenEvent_frame [simp, daemon_simps]:
  "m_args (onOpenEvent K e d) = m_args d" "m_allowlist (onOpenEvent K e d) = m_allowlist d"
  "m_shouldExit (onOpenEvent K e d) = m_shouldExit d" "m_bpf (onOpenEvent K e d) = m_bpf d"
  by (simp_all add: onOpenEvent_def Let_def)

section \<open>One finding at most\<close>

text \<open>A handler keeps the findings and adds at most one, and none when no phase is active. The
  flag tells whether the event is a refused connection: only then is a finding blocked.\<close>

definition adds_one :: "bool \<Rightarrow> daemon \<Rightarrow> daemon \<Rightarrow> bool" where
  "adds_one blk d d' \<longleftrightarrow> (\<exists>fs. m_findings (m_session d') = m_findings (m_session d) @ fs \<and> length fs \<le> 1 \<and>
     (\<not> m_active (m_session d) \<longrightarrow> fs = []) \<and>
     (\<forall>f \<in> set fs. SevMedium \<le> f_severity f \<and> (f_blocked f \<longrightarrow> blk \<and> f_rule_id f = NonAllowlistedHost))) \<and>
     m_active (m_session d') = m_active (m_session d) \<and> m_args d' = m_args d \<and>
     m_allowlist d' = m_allowlist d \<and> m_shouldExit d' = m_shouldExit d \<and>
     mode_config (m_bpf d') = mode_config (m_bpf d) \<and> bpf_allowlist (m_bpf d') = bpf_allowlist (m_bpf d) \<and>
     ring (m_bpf d') = ring (m_bpf d)"

lemma adds_one_refl [simp]: "adds_one blk d d"
  by (simp add: adds_one_def)

lemma appends_findings:
  assumes "appends (finding_for blk pid pkg) s t" "\<not> m_active s \<Longrightarrow> t = s"
  shows "\<exists>fs. m_findings t = m_findings s @ fs \<and> length fs \<le> 1 \<and> (\<not> m_active s \<longrightarrow> fs = []) \<and>
    (\<forall>f \<in> set fs. SevMedium \<le> f_severity f \<and> (f_blocked f \<longrightarrow> blk \<and> f_rule_id f = NonAllowlistedHost))"
  using assms by (cases "m_active s") (auto simp: appends_def session_simps finding_for_def)

lemma adds_one_fork: "adds_one blk d (onForkEvent K e d)"
  by (simp add: adds_one_def)

lemma adds_one_connect: "adds_one (cn_blocked e \<noteq> 0) d (onConnectEvent K e d)"
proof -
  let ?p = "event_package (h_pid (cn_hdr e)) (cn_package_id e) (m_session d)"
  let ?s = "onConnect e (connect_ip K e) (m_allowlist d) ?p (package_label ?p (m_session d)) (m_session d)"
  have ap: "appends (finding_for (cn_blocked e \<noteq> 0) (h_pid (cn_hdr e)) (package_label ?p (m_session d))) (m_session d) ?s"
    by (rule onConnect_appends)
  have "\<not> m_active (m_session d) \<Longrightarrow> ?s = m_session d"
    by (simp add: rules_inactive isActive_def)
  from appends_findings [OF ap this] appends_frame(1) [OF ap]
  show ?thesis by (simp add: adds_one_def onConnectEvent_session Let_def)
qed

lemma adds_one_open: "adds_one False d (onOpenEvent K e d)"
proof -
  let ?p = "event_package (h_pid (op_hdr e)) (op_package_id e) (m_session d)"
  let ?s = "onOpen e (event_path e) ?p (package_label ?p (m_session d)) (m_session d)"
  have ap: "appends (finding_for False (h_pid (op_hdr e)) (package_label ?p (m_session d))) (m_session d) ?s"
    by (rule onOpen_appends)
  have "\<not> m_active (m_session d) \<Longrightarrow> ?s = m_session d"
    by (simp add: rules_inactive isActive_def)
  from appends_findings [OF ap this] appends_frame(1) [OF ap]
  show ?thesis
    by (simp add: adds_one_def onOpenEvent_session Let_def session_simps split: option.split)
qed

lemma adds_one_exec: "adds_one False d (exec_body K e argv m po d)"
proof -
  obtain p d1 where o: "exec_owner K e m d = (p, d1)" by fastforce
  let ?ph = "case po of None \<Rightarrow> [] | Some p \<Rightarrow> p"
  let ?s = "onExec e argv m p (package_label p (m_session d1)) ?ph (m_session d1)"
  have d1: "m_findings (m_session d1) = m_findings (m_session d)"
      "m_active (m_session d1) = m_active (m_session d)"
    using exec_owner_frame(5,6) [of K e m d] o by simp_all
  have ap: "appends (finding_for False (h_pid (ex_hdr e)) (package_label p (m_session d1))) (m_session d1) ?s"
    by (rule onExec_appends)
  have "\<not> m_active (m_session d1) \<Longrightarrow> ?s = m_session d1"
    by (simp add: rules_inactive isActive_def)
  from appends_findings [OF ap this] appends_frame(1) [OF ap] d1
  show ?thesis by (simp add: adds_one_def exec_body_session o Let_def)
qed

lemma adds_one_mono: "adds_one blk d d' \<Longrightarrow> (blk \<Longrightarrow> blk') \<Longrightarrow> adds_one blk' d d'"
  by (auto simp: adds_one_def)

text \<open>A sample that reports a refused connection.\<close>

definition blocked_sample :: "u8 list \<Rightarrow> bool" where
  "blocked_sample bs \<longleftrightarrow> sizeof_event_connect \<le> length bs \<and> h_type (read_hdr bs) = event_type_connect \<and>
     cn_blocked (read_connect bs) \<noteq> 0"

lemma adds_one_event:
  assumes "onEvent K data d = Some d'"
  shows "adds_one (blocked_sample data) d d'"
proof -
  have "sizeof_event_connect \<le> length data \<Longrightarrow> h_type (read_hdr data) = event_type_connect \<Longrightarrow>
      adds_one (blocked_sample data) d (onConnectEvent K (read_connect data) d)"
    by (rule adds_one_mono [OF adds_one_connect]) (simp add: blocked_sample_def)
  then show ?thesis
    using assms adds_one_fork [of _ d K "read_fork data"]
      adds_one_mono [OF adds_one_open, of _ d K "read_open data"]
      adds_one_mono [OF adds_one_exec, of _ d K "read_exec data"]
    by (auto simp: onEvent_def Let_def onExecEvent_def bind_eq_Some_conv split: if_splits)
qed

text \<open>Which handler a sample reaches.\<close>

lemma event_types_distinct [simp]:
  "event_type_fork \<noteq> event_type_exec" "event_type_open \<noteq> event_type_exec"
  "event_type_connect \<noteq> event_type_exec" "event_type_fork \<noteq> event_type_connect"
  "event_type_open \<noteq> event_type_connect" "event_type_exec \<noteq> event_type_connect"
  "event_type_connect \<noteq> event_type_fork" "event_type_connect \<noteq> event_type_open"
  "event_type_exec \<noteq> event_type_fork" "event_type_exec \<noteq> event_type_open"
  "event_type_fork \<noteq> event_type_open" "event_type_open \<noteq> event_type_fork"
  by (simp_all add: event_types)

lemma onEvent_exec:
  "wf_exec e \<Longrightarrow> h_type (ex_hdr e) = event_type_exec \<Longrightarrow> onEvent K (write_exec e) d = onExecEvent K e d"
  by (simp add: onEvent_def Let_def read_write_exec) (simp add: sizeofs)

lemma onEvent_connect:
  "wf_connect e \<Longrightarrow> h_type (cn_hdr e) = event_type_connect \<Longrightarrow>
   onEvent K (write_connect e) d = Some (onConnectEvent K e d)"
  by (simp add: onEvent_def Let_def read_write_connect) (simp add: sizeofs)

lemma onEvent_open:
  "wf_open e \<Longrightarrow> h_type (op_hdr e) = event_type_open \<Longrightarrow>
   onEvent K (write_open e) d = Some (onOpenEvent K e d)"
  by (simp add: onEvent_def Let_def read_write_open) (simp add: sizeofs)

section \<open>Properties\<close>

text \<open>
  C18: Handling an event adds at most one finding and changes or removes none, adds none when
  no phase is active, and never changes the phase, the arguments, the allowlists or the mode.
  A finding is at least of medium severity; only the event of a refused connection makes a
  blocked one.
\<close>

theorem event_adds_one:
  assumes "onEvent K data d = Some d'"
  shows "\<exists>fs. m_findings (m_session d') = m_findings (m_session d) @ fs \<and> length fs \<le> 1 \<and>
    (\<not> m_active (m_session d) \<longrightarrow> fs = []) \<and>
    (\<forall>f \<in> set fs. SevMedium \<le> f_severity f \<and> (f_blocked f \<longrightarrow> blocked_sample data)) \<and>
    m_active (m_session d') = m_active (m_session d) \<and> m_args d' = m_args d \<and>
    m_allowlist d' = m_allowlist d \<and> mode_config (m_bpf d') = mode_config (m_bpf d) \<and>
    bpf_allowlist (m_bpf d') = bpf_allowlist (m_bpf d)"
  using adds_one_event [OF assms] unfolding adds_one_def by blast

text \<open>
  The witness: in a phase, the event of a refused connection adds exactly one finding, a
  blocked one.
\<close>

lemma event_adds_one_witness:
  defines "e \<equiv> \<lparr>cn_hdr = \<lparr>h_type = event_type_connect, h_pad = [0, 0, 0], h_pid = 9, h_ppid = 0, h_reserved = 0, h_ts_ns = 0\<rparr>,
       cn_package_id = 1, cn_addr = mapV4 1, cn_port = 443, cn_family = 4, cn_blocked = 1\<rparr>"
    and "d \<equiv> (new_daemon default_daemon_args)\<lparr>m_session := startPhase ''ci'' 9 new_session\<rparr>"
  shows "\<exists>d' f. onEvent plain_kernel (write_connect e) d = Some d' \<and> m_findings (m_session d') = [f] \<and>
    f_rule_id f = NonAllowlistedHost \<and> f_blocked f \<and> SevMedium \<le> f_severity f \<and> blocked_sample (write_connect e) \<and>
    m_active (m_session d')"
proof -
  have wf: "wf_connect e" by (simp add: wf_connect_def wf_hdr_def e_def mapV4_def)
  have ev: "onEvent plain_kernel (write_connect e) d = Some (onConnectEvent plain_kernel e d)"
    by (rule onEvent_connect [OF wf]) (simp add: e_def)
  have act: "m_active (m_session d)" and none: "m_findings (m_session d) = []"
    by (simp_all add: d_def session_simps) (simp add: new_session_def)
  have "\<not> contains_v6 (m_allowlist d) (take 16 (cn_addr e))"
    by (simp add: d_def new_daemon_def contains_v6_def)
  moreover have "event_package (h_pid (cn_hdr e)) (cn_package_id e) (m_session d) \<noteq> 0"
    by (simp add: d_def e_def event_package_def pidPackage_def session_simps Let_def)
  moreover have "cn_blocked e \<noteq> 0" by (simp add: e_def)
  ultimately have "\<exists>f. m_findings (m_session (onConnectEvent plain_kernel e d)) = m_findings (m_session d) @ [f] \<and>
      f_rule_id f = NonAllowlistedHost \<and> f_blocked f"
    using act by (simp add: onConnectEvent_session onConnect_def Let_def isActive_def session_simps)
  then obtain f where f: "m_findings (m_session (onConnectEvent plain_kernel e d)) = [f]"
      "f_rule_id f = NonAllowlistedHost" "f_blocked f"
    using none by auto
  with event_adds_one [OF ev] none act ev show ?thesis by auto
qed

text \<open>
  C24: After a fork the child has the package of its parent: the one the session knows, else
  the one the kernel knows, else the one of the parent's working directory, which the parent
  then gets as well; and no package only if none of the three gives one.
\<close>

theorem fork_inherits_package:
  fixes K :: kernel and e :: event_fork and d :: daemon
  assumes "names_ok (m_session d)" "names_room (m_session d)"
  defines "parent \<equiv> h_pid (fk_hdr e)"
  defines "s \<equiv> m_session (onForkEvent K e d)"
  defines "known \<equiv> event_package parent (fk_package_id e) (m_session d)"
  shows "if known \<noteq> 0 then pidPackage (fk_child_pid e) s = known
    else (case packageFromCwd (readCwd K parent) of
            None \<Rightarrow> pidPackage (fk_child_pid e) s = 0
          | Some name \<Rightarrow> pidPackage (fk_child_pid e) s \<noteq> 0 \<and> pidPackage parent s = pidPackage (fk_child_pid e) s \<and>
              packageName (pidPackage (fk_child_pid e) s) s = name)"
proof -
  obtain p d1 where f: "fork_parent K e d = (p, d1)" by fastforce
  have s: "s = setPidPackage (fk_child_pid e) p (m_session d1)"
    by (simp add: s_def onForkEvent_parent f Let_def)
  have child: "pidPackage (fk_child_pid e) s = p" by (simp add: s pidPackage_def session_simps)
  show ?thesis
  proof (cases "known = 0")
    case False
    then have "fork_parent K e d = (known, d)" by (simp add: fork_parent_def known_def parent_def Let_def)
    then have "p = known" using f by simp
    then show ?thesis using False child by simp
  next
    case True
    then have pc: "package_by_cwd K parent d = (p, d1)"
      using f by (simp add: fork_parent_def known_def parent_def Let_def)
    show ?thesis
    proof (cases "packageFromCwd (readCwd K parent)")
      case None
      then show ?thesis using True child pc by (simp add: package_by_cwd_none)
    next
      case (Some name)
      obtain i t where it: "internPackage name (m_session d) = (i, t)" by fastforce
      note n = intern_preserves(2,3) [OF assms(1,2) it]
      have p: "p = i" and m: "m_session d1 = setPidPackage parent i t"
        using pc it by (auto simp: package_by_cwd_some [OF Some])
      have "packageName p s = packageName i t"
        by (simp add: p s m packageName_def session_simps)
      moreover have "pidPackage parent s = p" by (simp add: p s m pidPackage_def session_simps)
      ultimately show ?thesis using True Some child n p by (simp add: known_id_def)
    qed
  qed
qed

lemma fork_inherits_package_witness:
  "pidPackage 9 (m_session (onForkEvent plain_kernel
     \<lparr>fk_hdr = \<lparr>h_type = 2, h_pad = [0, 0, 0], h_pid = 7, h_ppid = 0, h_reserved = 0, h_ts_ns = 0\<rparr>,
      fk_child_pid = 9, fk_package_id = 3\<rparr> (new_daemon default_daemon_args))) = 3"
proof -
  let ?d = "new_daemon default_daemon_args"
  have d: "m_session ?d = new_session" by (simp add: new_daemon_def)
  have ok: "names_ok (m_session ?d)" "names_room (m_session ?d)"
    unfolding d by simp (simp add: names_room_def new_session_def)
  have "event_package 7 3 (m_session ?d) = 3"
    unfolding d by (simp add: event_package_def pidPackage_def new_session_def Let_def)
  then show ?thesis
    using fork_inherits_package [OF ok,
        of "\<lparr>fk_hdr = \<lparr>h_type = 2, h_pad = [0, 0, 0], h_pid = 7, h_ppid = 0, h_reserved = 0, h_ts_ns = 0\<rparr>,
          fk_child_pid = 9, fk_package_id = 3\<rparr>" plain_kernel]
    by simp
qed

text \<open>
  A fork does not hand the tokens of the parent on: the daemon records none for the child,
  and reports a connection of a child that has not executed a program yet with medium
  severity and no tokens, although it has the environment of its parent.
\<close>

theorem forked_child_tokens_unknown:
  assumes "m_pidTokens (m_session d) (fk_child_pid e) = None" "h_pid (cn_hdr c) = fk_child_pid e"
    and "m_active (m_session d)" "pidPackage (h_pid (fk_hdr e)) (m_session d) \<noteq> 0"
    and "\<not> contains_v6 (m_allowlist d) (take 16 (cn_addr c))"
  shows "\<exists>f. m_findings (m_session (onConnectEvent K c (onForkEvent K e d))) = m_findings (m_session d) @ [f] \<and>
    f_rule_id f = NonAllowlistedHost \<and> f_severity f = SevMedium \<and> f_tokens_exposed f = []"
proof -
  let ?d = "onForkEvent K e d"
  have tok: "pidTokens (fk_child_pid e) (m_session ?d) = 0"
    using assms(1) by (simp add: pidTokens_def)
  have "event_package (h_pid (fk_hdr e)) (fk_package_id e) (m_session d) = pidPackage (h_pid (fk_hdr e)) (m_session d)"
    using assms(4) by (simp add: event_package_def Let_def)
  then have "pidPackage (fk_child_pid e) (m_session ?d) = pidPackage (h_pid (fk_hdr e)) (m_session d)"
    using assms(4) by (simp add: onForkEvent_parent fork_parent_def Let_def) (simp add: pidPackage_def session_simps)
  then have "event_package (h_pid (cn_hdr c)) (cn_package_id c) (m_session ?d) \<noteq> 0"
    using assms(2,4) by (simp add: event_package_def Let_def)
  moreover have "tokensFromMask 0 = []" "\<not> hasNonGithubToken 0"
    by (simp_all add: tokensFromMask_def has_token_def hasNonGithubToken_def)
  ultimately show ?thesis
    using assms(2,3,5) tok
    by (simp add: onConnectEvent_session onConnect_def Let_def isActive_def session_simps)
qed

lemma forked_child_tokens_unknown_witness:
  "\<exists>f. m_findings (m_session (onConnectEvent plain_kernel
     \<lparr>cn_hdr = \<lparr>h_type = 4, h_pad = [0, 0, 0], h_pid = 9, h_ppid = 0, h_reserved = 0, h_ts_ns = 0\<rparr>,
       cn_package_id = 1, cn_addr = mapV4 1, cn_port = 443, cn_family = 4, cn_blocked = 0\<rparr>
     (onForkEvent plain_kernel
       \<lparr>fk_hdr = \<lparr>h_type = 2, h_pad = [0, 0, 0], h_pid = 7, h_ppid = 0, h_reserved = 0, h_ts_ns = 0\<rparr>,
        fk_child_pid = 9, fk_package_id = 1\<rparr>
       ((new_daemon default_daemon_args)\<lparr>m_session := setPidTokens 7 1 (setPidPackage 7 1
          (startPhase ''ci'' 1 new_session))\<rparr>)))) = [f] \<and> f_severity f = SevMedium"
proof -
  let ?d = "(new_daemon default_daemon_args)\<lparr>m_session := setPidTokens 7 1 (setPidPackage 7 1
      (startPhase ''ci'' 1 new_session))\<rparr>"
  have fnd: "m_findings (m_session ?d) = []" by (simp add: session_simps) (simp add: new_session_def)
  have "m_pidTokens (m_session ?d) 9 = None" "m_active (m_session ?d)" "pidPackage 7 (m_session ?d) \<noteq> 0"
    "\<not> contains_v6 (m_allowlist ?d) (take 16 (mapV4 1))"
    by (simp_all add: session_simps pidPackage_def) (simp_all add: new_session_def new_daemon_def contains_v6_def)
  then show ?thesis
    using forked_child_tokens_unknown [of ?d
      "\<lparr>fk_hdr = \<lparr>h_type = 2, h_pad = [0, 0, 0], h_pid = 7, h_ppid = 0, h_reserved = 0, h_ts_ns = 0\<rparr>,
        fk_child_pid = 9, fk_package_id = 1\<rparr>"
      "\<lparr>cn_hdr = \<lparr>h_type = 4, h_pad = [0, 0, 0], h_pid = 9, h_ppid = 0, h_reserved = 0, h_ts_ns = 0\<rparr>,
       cn_package_id = 1, cn_addr = mapV4 1, cn_port = 443, cn_family = 4, cn_blocked = 0\<rparr>" plain_kernel]
    unfolding fnd by auto
qed

end
