(* ===== verification/Kernel_Invariant.thy ===== *)
theory Kernel_Invariant
  imports Daemon_Facts
begin

text \<open>
  What the kernel programs keep of the maps, whole or in halves: the samples of the ring are
  well formed, the mode is the daemon's, and a process becomes tracked only when one that is
  tracked forks.
\<close>

section \<open>Samples and programs\<close>

text \<open>A sample whose decoding stays in bounds; every one the kernel programs submit is.\<close>

definition sample_ok :: "u8 list \<Rightarrow> bool" where
  "sample_ok bs \<longleftrightarrow>
     (sizeof_event_exec \<le> length bs \<and> h_type (read_hdr bs) = event_type_exec \<longrightarrow>
      exec_lens_ok (read_exec bs))"

definition bpf_inv :: "bool \<Rightarrow> bpf_maps \<Rightarrow> bool" where
  "bpf_inv enf m \<longleftrightarrow> (enforcing m \<longleftrightarrow> enf) \<and>
     (\<forall>bs \<in> set (ring m). sample_ok bs \<and> (blocked_sample bs \<longrightarrow> enf))"

lemma enforcing_cong: "mode_config m = mode_config n \<Longrightarrow> enforcing m = enforcing n"
  by (simp add: enforcing_def)

text \<open>A reserved sample has the size of its structure.\<close>

definition sample_room :: "nat \<Rightarrow> u8 list option \<Rightarrow> bool" where
  "sample_room n sample \<longleftrightarrow> (case sample of None \<Rightarrow> True | Some mem \<Rightarrow> length mem = n)"

text \<open>
  What is assumed of what a program reads: the laws of the maps, the size of a reserved
  sample, and the helpers that copy from the memory of a process.
\<close>

fun program_ok :: "program \<Rightarrow> bool" where
  "program_ok (Fork K sm now parent child) \<longleftrightarrow> kernel_ok K \<and> sample_room sizeof_event_fork sm"
| "program_ok (Exit pid tgid) \<longleftrightarrow> True"
| "program_ok (Exec sm now pid t) \<longleftrightarrow> sample_room sizeof_event_exec sm \<and> task_ok t"
| "program_ok (Openat sm now pid dfd flags us) \<longleftrightarrow> sample_room sizeof_event_open sm \<and> user_str_ok us"
| "program_ok (Openat2 sm now pid dfd flags us) \<longleftrightarrow> sample_room sizeof_event_open sm \<and> user_str_ok us"
| "program_ok (Connect4 sm now pid ip4 port) \<longleftrightarrow> sample_room sizeof_event_connect sm"
| "program_ok (Connect6 sm now pid ip6 port) \<longleftrightarrow> sample_room sizeof_event_connect sm"

section \<open>The kernel programs keep the invariant\<close>

lemma bpf_inv_submit:
  "bpf_inv enf m \<Longrightarrow> sample_ok bs \<Longrightarrow> (blocked_sample bs \<longrightarrow> enf) \<Longrightarrow> bpf_inv enf (submit bs m)"
  by (auto simp: bpf_inv_def enforcing_def)

lemma bpf_inv_cong:
  "mode_config m = mode_config n \<Longrightarrow> ring m = ring n \<Longrightarrow> bpf_inv enf m = bpf_inv enf n"
  by (simp add: bpf_inv_def enforcing_def)

lemma bpf_inv_ring:
  assumes "bpf_inv enf m" "mode_config n = mode_config m"
    and "ring n = ring m \<or> (\<exists>bs. ring n = ring m @ [bs] \<and> sample_ok bs \<and> (blocked_sample bs \<longrightarrow> enf))"
  shows "bpf_inv enf n"
  using assms by (auto simp: bpf_inv_def enforcing_def)

lemma sample_ok_other: "h_type (read_hdr bs) \<noteq> event_type_exec \<Longrightarrow> sample_ok bs"
  by (simp add: sample_ok_def)

lemma not_blocked_other: "h_type (read_hdr bs) \<noteq> event_type_connect \<Longrightarrow> \<not> blocked_sample bs"
  by (simp add: blocked_sample_def)

lemma on_fork_inv:
  assumes "bpf_inv enf m" "sample_room sizeof_event_fork sm"
  shows "bpf_inv enf (on_fork K sm now parent child m)"
proof (rule bpf_inv_ring [OF assms(1)])
  show "ring (on_fork K sm now parent child m) = ring m \<or>
    (\<exists>bs. ring (on_fork K sm now parent child m) = ring m @ [bs] \<and> sample_ok bs \<and> (blocked_sample bs \<longrightarrow> enf))"
  proof (cases "tracked_pids m parent = None \<or> sm = None")
    case True
    then show ?thesis by (auto simp: programs_def Let_def split: option.split)
  next
    case False
    then obtain info mem where i: "tracked_pids m parent = Some info" and sm: "sm = Some mem" by auto
    have "sizeof_event_fork \<le> length mem" using assms(2) sm by (simp add: sample_room_def)
    from on_fork_event [OF i this, of K now child] obtain e where
      e: "ring (on_fork K (Some mem) now parent child m) = ring m @ [write_fork e]" "wf_fork e"
        "h_type (fk_hdr e) = event_type_fork" by blast
    have "sample_ok (write_fork e)" by (rule sample_ok_other) (simp add: e)
    moreover have "\<not> blocked_sample (write_fork e)" by (rule not_blocked_other) (simp add: e)
    ultimately show ?thesis using e(1) sm by blast
  qed
qed simp

lemma on_exec_inv:
  assumes "bpf_inv enf m" "sample_room sizeof_event_exec sm" "task_ok t"
  shows "bpf_inv enf (on_exec sm now pid t m)"
proof (rule bpf_inv_ring [OF assms(1)])
  show "ring (on_exec sm now pid t m) = ring m \<or>
    (\<exists>bs. ring (on_exec sm now pid t m) = ring m @ [bs] \<and> sample_ok bs \<and> (blocked_sample bs \<longrightarrow> enf))"
  proof (cases "tracked_pids m pid = None \<or> sm = None")
    case True
    then show ?thesis by (auto simp: programs_def split: option.split)
  next
    case False
    then obtain info mem where i: "tracked_pids m pid = Some info" and sm: "sm = Some mem" by auto
    have "sizeof_event_exec \<le> length mem" using assms(2) sm by (simp add: sample_room_def)
    from on_exec_event [OF i this assms(3)] obtain e where
      e: "ring (on_exec (Some mem) now pid t m) = ring m @ [write_exec e]" "wf_exec e" "exec_lens_ok e"
        "h_type (ex_hdr e) = event_type_exec" by blast
    have "sample_ok (write_exec e)" using e by (simp add: sample_ok_def read_write_exec)
    moreover have "\<not> blocked_sample (write_exec e)" by (rule not_blocked_other) (simp add: e)
    ultimately show ?thesis using e(1) sm by blast
  qed
qed simp

lemma emit_open_inv:
  assumes "bpf_inv enf m" "sample_room sizeof_event_open sm" "user_str_ok us"
  shows "bpf_inv enf (emit_open sm now pid dfd flags us wfl m)"
proof (rule bpf_inv_ring [OF assms(1)])
  let ?n = "emit_open sm now pid dfd flags us wfl m"
  show "ring ?n = ring m \<or> (\<exists>bs. ring ?n = ring m @ [bs] \<and> sample_ok bs \<and> (blocked_sample bs \<longrightarrow> enf))"
  proof (cases "tracked_pids m pid = None \<or> sm = None")
    case True
    then show ?thesis by (auto simp: programs_def split: option.split)
  next
    case False
    then obtain info mem where i: "tracked_pids m pid = Some info" and sm: "sm = Some mem" by auto
    have len: "sizeof_event_open \<le> length mem" using assms(2) sm by (simp add: sample_room_def)
    obtain n path where us: "us (op_path (read_open mem)) = (n, path)" by fastforce
    show ?thesis
    proof (cases "0 < n \<and> path ! 0 = CHR ''/''")
      case True
      from emit_open_event [OF i len assms(3) us, of now dfd flags wfl] True obtain e where
        e: "ring (emit_open (Some mem) now pid dfd flags us wfl m) = ring m @ [write_open e]" "wf_open e"
          "h_type (op_hdr e) = event_type_open" by blast
      have "sample_ok (write_open e)" by (rule sample_ok_other) (simp add: e)
      moreover have "\<not> blocked_sample (write_open e)" by (rule not_blocked_other) (simp add: e)
      ultimately show ?thesis using e(1) sm by blast
    next
      case False
      then show ?thesis using emit_open_relative [of us mem] us sm by auto
    qed
  qed
qed simp

lemma emit_connect_inv:
  assumes "bpf_inv enf m" "sample_room sizeof_event_connect sm" "length key = 16"
  shows "bpf_inv enf (snd (emit_connect sm now pid info fam key port m))"
proof (rule bpf_inv_ring [OF assms(1)])
  let ?n = "snd (emit_connect sm now pid info fam key port m)"
  show "ring ?n = ring m \<or> (\<exists>bs. ring ?n = ring m @ [bs] \<and> sample_ok bs \<and> (blocked_sample bs \<longrightarrow> enf))"
  proof (cases sm)
    case None
    then show ?thesis by (simp add: emit_connect_def split: prod.split)
  next
    case (Some mem)
    have "sizeof_event_connect \<le> length mem" using assms(2) Some by (simp add: sample_room_def)
    from emit_connect_event [OF this assms(3)] obtain e where
      e: "ring (snd (emit_connect (Some mem) now pid info fam key port m)) = ring m @ [write_connect e]"
        "wf_connect e" "h_type (cn_hdr e) = event_type_connect"
        "cn_blocked e \<noteq> 0 \<longleftrightarrow> fst (emit_connect (Some mem) now pid info fam key port m) = 0" by blast
    have "sample_ok (write_connect e)" by (rule sample_ok_other) (simp add: e)
    moreover have "fst (connect_verdict m key) = 0 \<Longrightarrow> enforcing m"
      by (auto simp: connect_verdict_def enforcing_def Let_def split: option.splits if_splits)
    then have "blocked_sample (write_connect e) \<longrightarrow> enf"
      using e assms(1) by (auto simp: blocked_sample_def read_write_connect fst_emit_connect bpf_inv_def)
    ultimately show ?thesis using e(1) Some by blast
  qed
qed simp

lemma connect_inv:
  assumes "bpf_inv enf m" "sample_room sizeof_event_connect sm"
  shows "bpf_inv enf (snd (on_connect4 sm now pid ip4 port m))"
    "bpf_inv enf (snd (on_connect6 sm now pid ip6 port m))"
  using assms by (auto simp: on_connect4_def on_connect6_def Let_def intro!: emit_connect_inv
      split: option.split prod.split)

text \<open>No kernel program makes a process tracked when none is.\<close>

lemma programs_untracked:
  assumes "tracked_pids m = Map.empty"
  shows "tracked_pids (on_fork K sm now parent child m) = Map.empty"
    "tracked_pids (on_exit pid tgid m) = Map.empty"
  using assms by (simp_all add: untracked on_exit_def)

lemma run_program_inv:
  assumes "program_ok p" "bpf_inv enf m"
  shows "bpf_inv enf (run_program p m)"
proof (cases p)
  case (Exit pid tgid)
  then show ?thesis using assms(2) by (subst bpf_inv_cong [of _ m]) (simp_all add: on_exit_def)
qed (use assms in \<open>simp_all add: on_fork_inv on_exec_inv emit_open_inv connect_inv on_openat_def on_openat2_def\<close>)

text \<open>The second half of a program does not look at the tracked processes.\<close>

lemma program_commit_ring:
  "ring (program_commit p info (m\<lparr>tracked_pids := t\<rparr>)) = ring (program_commit p info m)"
  "mode_config (program_commit p info m) = mode_config m"
  "bpf_allowlist (program_commit p info m) = bpf_allowlist m"
proof -
  have "ring (program_commit p info (m\<lparr>tracked_pids := t\<rparr>)) = ring (program_commit p info m) \<and>
    mode_config (program_commit p info m) = mode_config m \<and>
    bpf_allowlist (program_commit p info m) = bpf_allowlist m"
  proof (cases p)
    case (Connect6 sm now pid ip6 port)
    then show ?thesis
      by (cases ip6) (simp add: emit_connect_def connect_verdict_def Let_def split: option.split prod.split)
  qed (simp_all add: fork_commit_def exec_commit_def open_commit_def on_exit_def emit_connect_def connect_verdict_def
      Let_def split: option.split prod.split)
  then show "ring (program_commit p info (m\<lparr>tracked_pids := t\<rparr>)) = ring (program_commit p info m)"
    "mode_config (program_commit p info m) = mode_config m"
    "bpf_allowlist (program_commit p info m) = bpf_allowlist m" by simp_all
qed

lemma program_commit_inv:
  assumes "program_ok p" "bpf_inv enf m"
  shows "bpf_inv enf (program_commit p info m)"
proof (cases "looks_up p")
  case True
  let ?m = "m\<lparr>tracked_pids := (tracked_pids m)(program_pid p \<mapsto> info)\<rparr>"
  have "bpf_inv enf ?m" using assms(2) by (subst bpf_inv_cong [of _ m]) simp_all
  from run_program_inv [OF assms(1) this] have "bpf_inv enf (program_commit p info ?m)"
    by (simp add: run_program_halves [OF True])
  then show ?thesis
    by (subst bpf_inv_cong [of _ "program_commit p info ?m"]) (simp_all add: program_commit_ring)
next
  case False
  then obtain pid tgid where "p = Exit pid tgid" by (cases p) simp_all
  then show ?thesis using run_program_inv [OF assms] by simp
qed

text \<open>The tracked processes afterwards: at most one more, and only after a fork.\<close>

fun forks :: "program \<Rightarrow> nat" where
  "forks (Fork K sm now parent child) = 1"
| "forks p = 0"

lemma fork_commit_dom:
  assumes "kernel_ok K"
  shows "dom (tracked_pids (fork_commit K sm now parent child info m)) \<subseteq> insert child (dom (tracked_pids m))"
proof -
  have "dom (snd (k_tracked_update K BPF_NOEXIST child info (tracked_pids m))) \<subseteq> insert child (dom (tracked_pids m))"
    by (rule bpf_map.update_cases [OF kernel_okD(1) [OF assms], of BPF_NOEXIST child info "tracked_pids m"]) auto
  then show ?thesis by (simp add: fork_commit_def submit_def Let_def split: option.split)
qed

lemma program_commit_dom:
  assumes "program_ok p"
  shows "\<exists>ks. card ks \<le> forks p \<and> finite ks \<and> dom (tracked_pids (program_commit p info m)) \<subseteq> ks \<union> dom (tracked_pids m)"
proof (cases p)
  case (Fork K sm now parent child)
  then show ?thesis using fork_commit_dom [of K sm now parent child info m] assms
    by (intro exI [of _ "{child}"]) simp
next
  case (Exit pid tgid)
  then show ?thesis by (intro exI [of _ "{}"]) (auto simp: on_exit_def)
next
  case (Connect6 sm now pid ip6 port)
  then show ?thesis
    by (cases ip6; intro exI [of _ "{}"]) (simp add: emit_connect_def Let_def split: option.split prod.split)
qed (intro exI [of _ "{}"]; simp add: exec_commit_def open_commit_def emit_connect_def Let_def split: option.split prod.split)+

text \<open>The ring only grows.\<close>

lemma program_commit_prefix: "prefix (ring m) (ring (program_commit p info m))"
proof (cases p)
  case (Connect6 sm now pid ip6 port)
  then show ?thesis by (cases ip6) (simp add: emit_connect_def Let_def split: option.split prod.split)
qed (auto simp: fork_commit_def exec_commit_def open_commit_def on_exit_def emit_connect_def Let_def
    split: option.split prod.split)

text \<open>With no process tracked every program leaves the maps as they are.\<close>

lemma idle_program: "tracked_pids m = Map.empty \<Longrightarrow> run_program p m = m"
proof (cases p)
  case (Exit pid tgid)
  assume "tracked_pids m = Map.empty"
  then have "(tracked_pids m)(tgid := None) = tracked_pids m" by (simp add: fun_eq_iff)
  then show ?thesis using Exit by (simp add: on_exit_def)
qed (simp_all add: untracked on_openat_def on_openat2_def)

lemma run_program_config:
  "bpf_allowlist (run_program p m) = bpf_allowlist m" "mode_config (run_program p m) = mode_config m"
  by (cases p; simp add: on_openat_def on_openat2_def)+

text \<open>Several programs, one after the other.\<close>

definition run_programs :: "program list \<Rightarrow> bpf_maps \<Rightarrow> bpf_maps" where
  "run_programs ps m = fold run_program ps m"

lemma run_programs_inv:
  "\<forall>p \<in> set ps. program_ok p \<Longrightarrow> bpf_inv enf m \<Longrightarrow> bpf_inv enf (run_programs ps m)"
  by (induction ps arbitrary: m) (simp_all add: run_programs_def run_program_inv)

lemma run_programs_empty: "tracked_pids m = Map.empty \<Longrightarrow> run_programs ps m = m"
  by (induction ps) (simp_all add: run_programs_def idle_program)

lemma run_programs_config:
  "bpf_allowlist (run_programs ps m) = bpf_allowlist m" "mode_config (run_programs ps m) = mode_config m"
  by (induction ps arbitrary: m) (simp_all add: run_programs_def run_program_config)

end
