(* ===== verification/Io.thy ===== *)
theory Io
  imports Prelude
begin

text \<open>
  The three I/O loops of \<^verbatim>\<open>src/common/io.cpp\<close>. The kernel is a parameter: the list of the
  results its \<open>write\<close> or \<open>read\<close> calls return, in order. A loop uses one result per call;
  \<^const>\<open>None\<close> is a loop whose next call has not returned (the list is used up), so a result
  \<^term>\<open>Some r\<close> is a loop that has returned \<open>r\<close>.
\<close>

datatype errno = EINTR | EAGAIN | EPIPE | OtherErrno nat

text \<open>\<open>write\<close> returns the number of bytes it took; POSIX bounds it by the count it is given.\<close>

datatype write_result = WriteErr errno | Wrote nat

text \<open>\<open>read\<close> returns the bytes it delivered, none at the end of the stream.\<close>

datatype read_result = ReadErr errno | Delivered string

section \<open>writeAll\<close>

text \<open>\<open>data\<close> is what \<open>p\<close> and \<open>remaining\<close> still cover; \<open>sent\<close> what the kernel has taken.\<close>

fun writeAll :: "write_result list \<Rightarrow> string \<Rightarrow> string \<Rightarrow> (bool \<times> string \<times> write_result list) option"
where
  "writeAll ks [] sent = Some (True, sent, ks)"
| "writeAll [] (c # data) sent = None"
| "writeAll (WriteErr e # ks) (c # data) sent =
     (if e = EINTR then writeAll ks (c # data) sent else Some (False, sent, ks))"
| "writeAll (Wrote n # ks) (c # data) sent =
     (if n = 0 then Some (False, sent, ks)
      else writeAll ks (drop n (c # data)) (sent @ take n (c # data)))"

lemma writeAll_result:
  "writeAll ks data sent = Some (ok, sent', ks') \<Longrightarrow>
   \<exists>k. sent' = sent @ take k data \<and> k \<le> length data \<and> (ok \<longleftrightarrow> k = length data)"
proof (induction ks data sent rule: writeAll.induct)
  case (1 ks sent)
  then show ?case by simp
next
  case (2 c data sent)
  then show ?case by simp
next
  case (3 e ks c data sent)
  then show ?case by (cases "e = EINTR") (auto intro: exI [of _ 0])
next
  case (4 n ks c data sent)
  show ?case
  proof (cases "n = 0")
    case True
    with "4.prems" show ?thesis by (auto intro: exI [of _ 0])
  next
    case False
    with "4.prems" have "writeAll ks (drop n (c # data)) (sent @ take n (c # data)) = Some (ok, sent', ks')"
      by simp
    from "4.IH" [OF False this] obtain k where
      k: "sent' = (sent @ take n (c # data)) @ take k (drop n (c # data))"
        "k \<le> length (drop n (c # data))" "ok \<longleftrightarrow> k = length (drop n (c # data))"
      by blast
    let ?m = "min n (length (c # data))"
    have "take (?m + k) (c # data) = take n (c # data) @ take k (drop n (c # data))"
      by (metis (no_types, lifting) drop_take drop_drop min.commute take_add length_take take_take
          append_take_drop_id take_all_iff append_Nil2 drop_all min_def linorder_le_cases take_Nil)
    with k show ?thesis by (intro exI [of _ "?m + k"]) auto
  qed
qed

text \<open>A retried call is as if it had not been interrupted.\<close>

lemma writeAll_EINTR:
  "map_option (\<lambda>(ok, sent', _). (ok, sent')) (writeAll (filter (\<lambda>k. k \<noteq> WriteErr EINTR) ks) data sent) =
   map_option (\<lambda>(ok, sent', _). (ok, sent')) (writeAll ks data sent)"
  by (induction ks data sent rule: writeAll.induct) (auto split: prod.splits)

text \<open>Every call that returns a positive count makes progress: enough calls finish the loop.\<close>

lemma writeAll_returns:
  "length data \<le> length (filter (\<lambda>k. k \<noteq> WriteErr EINTR) ks) \<Longrightarrow> \<exists>r. writeAll ks data sent = Some r"
  by (induction ks data sent rule: writeAll.induct) (auto split: if_splits)

text \<open>
  A write to a connection whose other end is closed gives \<^const>\<open>EPIPE\<close>, and raises
  \<open>SIGPIPE\<close>. The loop makes such a call exactly when the list has it before the data is
  taken; neither program ignores or handles the signal, so it ends the process.
\<close>

fun sigpipe :: "write_result list \<Rightarrow> string \<Rightarrow> bool" where
  "sigpipe ks [] \<longleftrightarrow> False"
| "sigpipe [] (c # data) \<longleftrightarrow> False"
| "sigpipe (WriteErr e # ks) (c # data) \<longleftrightarrow> (if e = EINTR then sigpipe ks (c # data) else e = EPIPE)"
| "sigpipe (Wrote n # ks) (c # data) \<longleftrightarrow> n \<noteq> 0 \<and> sigpipe ks (drop n (c # data))"

lemma sigpipe_EPIPE: "sigpipe ks data \<Longrightarrow> WriteErr EPIPE \<in> set ks"
  by (induction ks data rule: sigpipe.induct) (auto split: if_splits)

lemma sigpipe_fails: "sigpipe ks data \<Longrightarrow> \<exists>sent' ks'. writeAll ks data sent = Some (False, sent', ks')"
  by (induction ks data sent rule: writeAll.induct) (auto split: if_splits)

text \<open>A connection that takes up to \<open>n\<close> bytes whole.\<close>

definition takes_all :: "write_result list \<Rightarrow> nat \<Rightarrow> bool" where
  "takes_all ks n \<longleftrightarrow> (\<forall>data. length data \<le> n \<longrightarrow> (\<exists>ks'. writeAll ks data [] = Some (True, data, ks')))"

lemma takes_all_Wrote: "takes_all [Wrote n] n"
  unfolding takes_all_def
proof (intro allI impI)
  fix data :: string
  assume "length data \<le> n"
  then show "\<exists>ks'. writeAll [Wrote n] data [] = Some (True, data, ks')" by (cases data) auto
qed

lemma takes_all_no_signal: "takes_all ks n \<Longrightarrow> length data \<le> n \<Longrightarrow> \<not> sigpipe ks data"
  using sigpipe_fails [of ks data "[]"] by (fastforce simp: takes_all_def)

section \<open>readAll\<close>

text \<open>The loop of the source calls \<open>read\<close> with a 4096-byte buffer.\<close>

definition chunk_size :: nat where "chunk_size = 4096"

fun readAll :: "read_result list \<Rightarrow> string \<Rightarrow> nat \<Rightarrow> (bool \<times> string \<times> read_result list) option" where
  "readAll [] out max_size = (if length out < max_size then None else Some (True, out, []))"
| "readAll (k # ks) out max_size =
     (if length out < max_size then
        (case k of
           ReadErr e \<Rightarrow> if e = EINTR then readAll ks out max_size else Some (False, out, ks)
         | Delivered s \<Rightarrow> if s = [] then Some (True, out, ks) else readAll ks (out @ s) max_size)
      else Some (True, out, k # ks))"

text \<open>What a list of results delivers up to the end of the stream.\<close>

fun delivered :: "read_result list \<Rightarrow> string" where
  "delivered [] = []"
| "delivered (ReadErr e # ks) = delivered ks"
| "delivered (Delivered s # ks) = (if s = [] then [] else s @ delivered ks)"

definition chunks_ok :: "nat \<Rightarrow> read_result list \<Rightarrow> bool" where
  "chunks_ok n ks \<longleftrightarrow> (\<forall>k \<in> set ks. case k of ReadErr e \<Rightarrow> e = EINTR | Delivered s \<Rightarrow> length s \<le> n)"

lemma chunks_ok_simps [simp]:
  "chunks_ok n []"
  "chunks_ok n (ReadErr e # ks) \<longleftrightarrow> e = EINTR \<and> chunks_ok n ks"
  "chunks_ok n (Delivered s # ks) \<longleftrightarrow> length s \<le> n \<and> chunks_ok n ks"
  by (auto simp: chunks_ok_def)

lemma readAll_prefix:
  "readAll ks out m = Some (ok, out', ks') \<Longrightarrow> chunks_ok n ks \<Longrightarrow>
   \<exists>rest. out @ delivered ks = out' @ rest \<and> ok"
proof (induction ks out m rule: readAll.induct)
  case (1 out m)
  then show ?case by (auto split: if_splits)
next
  case (2 k ks out m)
  then show ?case by (cases k) (auto split: if_splits)
qed

lemma readAll_bound:
  "readAll ks out m = Some (ok, out', ks') \<Longrightarrow> chunks_ok n ks \<Longrightarrow> 0 < n \<Longrightarrow>
   length out < m + n \<Longrightarrow> length out' < m + n"
proof (induction ks out m rule: readAll.induct)
  case (1 out m)
  then show ?case by (auto split: if_splits)
next
  case (2 k ks out m)
  then show ?case by (cases k) (auto split: if_splits)
qed

text \<open>A stream that ends below the bound is read whole.\<close>

lemma readAll_complete:
  "chunks_ok n ks \<Longrightarrow> length (out @ delivered ks) < m \<Longrightarrow> Delivered [] \<in> set ks \<Longrightarrow>
   \<exists>ks'. readAll ks out m = Some (True, out @ delivered ks, ks')"
proof (induction ks out m rule: readAll.induct)
  case (1 out m)
  then show ?case by simp
next
  case (2 k ks out m)
  then show ?case by (cases k) (auto split: if_splits)
qed

text \<open>
  A stream of at least \<open>m\<close> bytes is cut off, and the loop still reports success.
\<close>

lemma readAll_cut:
  "chunks_ok n ks \<Longrightarrow> m \<le> length (out @ delivered ks) \<Longrightarrow>
   \<exists>out' ks'. readAll ks out m = Some (True, out', ks') \<and> m \<le> length out'"
proof (induction ks out m rule: readAll.induct)
  case (1 out m)
  then show ?case by simp
next
  case (2 k ks out m)
  then show ?case by (cases k) (auto split: if_splits)
qed

section \<open>readLine\<close>

text \<open>One byte per call; the error code and the end of the stream both end the line.\<close>

fun readLine :: "read_result list \<Rightarrow> string \<Rightarrow> nat \<Rightarrow> (string \<times> read_result list) option" where
  "readLine [] out max_size = (if length out < max_size then None else Some (out, []))"
| "readLine (k # ks) out max_size =
     (if length out < max_size then
        (case k of
           ReadErr e \<Rightarrow> if e = EINTR then readLine ks out max_size else Some (out, ks)
         | Delivered s \<Rightarrow>
             (case s of
                [] \<Rightarrow> Some (out, ks)
              | c # _ \<Rightarrow> if c = LF then Some (out, ks) else readLine ks (out @ [c]) max_size))
      else Some (out, k # ks))"

text \<open>
  The line is what comes before the first newline, cut at the bound: for any delivery of
  single bytes, interrupted or not, that ends or holds a newline.
\<close>

lemma readLine_line:
  "chunks_ok 1 ks \<Longrightarrow> Delivered [] \<in> set ks \<or> LF \<in> set (delivered ks) \<Longrightarrow> length out \<le> m \<Longrightarrow>
   \<exists>ks'. readLine ks out m = Some (out @ take (m - length out) (takeWhile (\<lambda>c. c \<noteq> LF) (delivered ks)), ks')"
proof (induction ks out m rule: readLine.induct)
  case (1 out m)
  then show ?case by simp
next
  case (2 k ks out m)
  show ?case
  proof (cases k)
    case (ReadErr e)
    with 2 show ?thesis by auto
  next
    case (Delivered s)
    show ?thesis
    proof (cases s)
      case Nil
      with Delivered show ?thesis by (cases "length out < m") auto
    next
      case (Cons c t)
      then have s: "s = [c]" using "2.prems"(1) Delivered by simp
      show ?thesis
      proof (cases "length out < m \<and> c \<noteq> LF")
        case True
        have "\<exists>ks'. readLine ks (out @ [c]) m =
            Some ((out @ [c]) @ take (m - length (out @ [c])) (takeWhile (\<lambda>c. c \<noteq> LF) (delivered ks)), ks')"
          using "2.IH"(2) [OF _ Delivered Cons] True "2.prems" Delivered s by auto
        moreover have "m - length out = Suc (m - length (out @ [c]))"
          using True by (simp add: Suc_diff_Suc)
        ultimately show ?thesis using True Delivered s by simp
      next
        case False
        then show ?thesis using "2.prems" Delivered s by auto
      qed
    qed
  qed
qed

text \<open>The bound of the source is never exceeded.\<close>

lemma readLine_bound:
  "readLine ks out m = Some (out', ks') \<Longrightarrow> length out \<le> m \<Longrightarrow> length out' \<le> m"
proof (induction ks out m rule: readLine.induct)
  case (1 out m)
  then show ?case by (auto split: if_splits)
next
  case (2 k ks out m)
  then show ?case by (cases k) (auto split: if_splits list.splits)
qed

section \<open>Properties\<close>

text \<open>
  C38: \<open>readLine\<close> returns what the client sends before its first newline, cut at the bound
  of the caller, however often its reads are interrupted; it returns as soon as there is a
  newline or the stream ends.
\<close>

theorem readLine_first_line:
  assumes "chunks_ok 1 ks" "Delivered [] \<in> set ks \<or> LF \<in> set (delivered ks)"
  shows "\<exists>ks'. readLine ks [] m = Some (take m (takeWhile (\<lambda>c. c \<noteq> LF) (delivered ks)), ks')"
  using readLine_line [OF assms, of "[]" m] by simp

lemma readLine_first_line_witness:
  "\<exists>ks'. readLine [Delivered ''P'', ReadErr EINTR, Delivered ''I'', Delivered [LF], Delivered ''x''] [] 64 =
     Some (''PI'', ks')"
  using readLine_first_line [of "[Delivered ''P'', ReadErr EINTR, Delivered ''I'', Delivered [LF], Delivered ''x'']" 64]
  by simp

text \<open>
  C39: \<open>writeAll\<close> returns for every kernel that takes at least one byte per call or gives an
  error, and reports success exactly when the kernel has taken all the data, in order.
\<close>

theorem writeAll_correct:
  assumes "length data \<le> length (filter (\<lambda>k. k \<noteq> WriteErr EINTR) ks)"
  shows "\<exists>ok k ks'. writeAll ks data [] = Some (ok, take k data, ks') \<and> k \<le> length data \<and>
    (ok \<longleftrightarrow> k = length data)"
proof -
  obtain ok sent ks' where "writeAll ks data [] = Some (ok, sent, ks')"
    using writeAll_returns [OF assms, of "[]"] by (metis prod_cases3)
  with writeAll_result [OF this] show ?thesis by auto
qed

lemma writeAll_correct_witness:
  "\<exists>ok k ks'. writeAll [Wrote 2, WriteErr EINTR, Wrote 5, Wrote 1] ''abc'' [] = Some (ok, take k ''abc'', ks') \<and>
     k \<le> length ''abc'' \<and> (ok \<longleftrightarrow> k = length ''abc'')"
  by (rule writeAll_correct) simp

text \<open>
  \<open>readAll\<close> reads a stream below its bound whole, and of a longer one a prefix of at
  least the bound and less than one more chunk; both count as success.
\<close>

theorem readAll_correct:
  assumes "chunks_ok chunk_size ks" "Delivered [] \<in> set ks" "0 < m"
  shows "\<exists>out rest ks'. readAll ks [] m = Some (True, out, ks') \<and> delivered ks = out @ rest \<and>
    length out < m + chunk_size \<and>
    (if length (delivered ks) < m then rest = [] else m \<le> length out)"
proof (cases "length (delivered ks) < m")
  case True
  then show ?thesis using readAll_complete [OF assms(1), of "[]" m] assms(2) by auto
next
  case False
  then obtain out ks' where r: "readAll ks [] m = Some (True, out, ks')" "m \<le> length out"
    using readAll_cut [OF assms(1), of m "[]"] by auto
  with readAll_prefix [OF r(1) assms(1)] readAll_bound [OF r(1) assms(1)] assms(3) False
  show ?thesis by (auto simp: chunk_size_def)
qed

lemma readAll_correct_witness:
  "\<exists>out rest ks'. readAll [Delivered ''ab'', ReadErr EINTR, Delivered ''cd'', Delivered ''e'', Delivered []] [] 3 =
     Some (True, out, ks') \<and> ''abcde'' = out @ rest \<and> length out < 3 + chunk_size \<and> 3 \<le> length out"
  using readAll_correct [of "[Delivered ''ab'', ReadErr EINTR, Delivered ''cd'', Delivered ''e'', Delivered []]" 3]
  by (simp add: chunk_size_def)

end
