(* ===== verification/Ipc_Server.thy ===== *)
theory Ipc_Server
  imports Proto Io
begin

text \<open>
  The request server of the daemon, \<^verbatim>\<open>src/daemon/ipcserver.h\<close> and
  \<^verbatim>\<open>src/daemon/ipcserver.cpp\<close>: one client per call of \<open>acceptOnce\<close>, one line read, one
  reply written. The server does not know what its handlers do; \<open>'d\<close> is the state they
  change. The locale \<open>request_server\<close> states what a server's owner promises of the handlers
  it registers.
\<close>

section \<open>Handlers\<close>

text \<open>
  A handler takes the state to a response or an error and the state afterwards;
  \<^const>\<open>None\<close> if it does not return. A slot of the tuple \<open>m_handlers\<close> may be empty.
\<close>

type_synonym ('d, 'r) handler = "'d \<Rightarrow> ((error + 'r) \<times> 'd) option"

record 'd handlers =
  h_ping :: "('d, pong_response) handler option"
  h_start_phase :: "(u32 \<Rightarrow> string \<Rightarrow> ('d, ok_response) handler) option"
  h_end_phase :: "('d, ok_response) handler option"
  h_report :: "(format \<Rightarrow> ('d, report_response) handler) option"
  h_shutdown :: "('d, ok_response) handler option"

definition new_server :: "'d handlers" where
  "new_server =
     \<lparr>h_ping = None, h_start_phase = None, h_end_phase = None, h_report = None, h_shutdown = None\<rparr>"

section \<open>One client\<close>

text \<open>The lambda given to \<open>std::visit\<close>: the reply, without its newline, and the state.\<close>

definition visit :: "('r \<Rightarrow> string) \<Rightarrow> ('d, 'r) handler option \<Rightarrow> 'd \<Rightarrow> (string \<times> 'd) option" where
  "visit enc handler d =
     (case handler of
        None \<Rightarrow> Some (encode_error (Error ''no handler registered''), d)
      | Some fn \<Rightarrow>
          (case fn d of
             None \<Rightarrow> None
           | Some (Inr resp, d') \<Rightarrow> Some (enc resp, d')
           | Some (Inl err, d') \<Rightarrow> Some (encode_error err, d')))"

fun visit_request :: "'d handlers \<Rightarrow> request \<Rightarrow> 'd \<Rightarrow> (string \<times> 'd) option" where
  "visit_request H PingRequest d = visit encode_pong (h_ping H) d"
| "visit_request H (StartPhaseRequest pid phase) d =
     visit encode_ok (map_option (\<lambda>fn. fn pid phase) (h_start_phase H)) d"
| "visit_request H EndPhaseRequest d = visit encode_ok (h_end_phase H) d"
| "visit_request H (ReportRequest fmt) d =
     visit encode_report (map_option (\<lambda>fn. fn fmt) (h_report H)) d"
| "visit_request H ShutdownRequest d = visit encode_ok (h_shutdown H) d"

definition serve_line :: "'d handlers \<Rightarrow> string \<Rightarrow> 'd \<Rightarrow> (string \<times> 'd) option" where
  "serve_line H line d =
     (case decodeRequest line of
        None \<Rightarrow> Some (encode_error (Error ''malformed request''), d)
      | Some r \<Rightarrow> visit_request H r d)"

text \<open>
  \<open>writeWire\<close>: what the kernel has taken; the result of \<open>writeAll\<close> is not looked at.
  \<^const>\<open>None\<close> if it does not return: a write still waits, or \<open>SIGPIPE\<close> has ended the process.
\<close>

definition writeWire :: "write_result list \<Rightarrow> string \<Rightarrow> string option" where
  "writeWire ws s =
     (let buf = s @ [LF]
      in if sigpipe ws buf then None else map_option (\<lambda>(_, sent, _). sent) (writeAll ws buf []))"

lemma writeWire_takes: "takes_all ws (Suc (length s)) \<Longrightarrow> writeWire ws s = Some (s @ [LF])"
  using takes_all_no_signal [of ws "Suc (length s)" "s @ [LF]"] by (force simp: writeWire_def takes_all_def Let_def)

definition handleClient ::
  "'d handlers \<Rightarrow> read_result list \<Rightarrow> write_result list \<Rightarrow> 'd \<Rightarrow> (string \<times> 'd) option" where
  "handleClient H rs ws d =
     (case readLine rs [] max_line of
        None \<Rightarrow> None
      | Some (line, _) \<Rightarrow>
          (case serve_line H line d of
             None \<Rightarrow> None
           | Some (reply, d') \<Rightarrow> map_option (\<lambda>sent. (sent, d')) (writeWire ws reply)))"

text \<open>The line a connection delivers.\<close>

definition first_line :: "string \<Rightarrow> string" where
  "first_line w = take max_line (takeWhile (\<lambda>c. c \<noteq> LF) w)"

lemma handleClient_serves:
  assumes "chunks_ok 1 rs" "Delivered [] \<in> set rs \<or> LF \<in> set (delivered rs)"
    and "serve_line H (first_line (delivered rs)) d = Some (reply, d')"
  shows "handleClient H rs ws d = map_option (\<lambda>sent. (sent, d')) (writeWire ws reply)"
  using readLine_line [OF assms(1,2), of "[]" max_line] assms(3) by (auto simp: handleClient_def first_line_def)

text \<open>
  \<open>accept4\<close> fails, or gives a connection, whose reads and writes return what the two lists
  say. The result has the bytes sent to a client, if there was one.
\<close>

datatype accept_result = AcceptErr errno | Accepted "read_result list" "write_result list"

fun acceptOnce :: "'d handlers \<Rightarrow> accept_result \<Rightarrow> 'd \<Rightarrow> (string option \<times> 'd) option" where
  "acceptOnce H (AcceptErr e) d = Some (None, d)"
| "acceptOnce H (Accepted rs ws) d =
     map_option (\<lambda>(sent, d'). (Some sent, d')) (handleClient H rs ws d)"

section \<open>The contract of a server\<close>

text \<open>
  Every slot is filled, every handler returns, and none breaks the invariant \<open>ok\<close> of its
  state. Then the server answers every line with one reply and keeps the invariant.
\<close>

definition keeps :: "('d \<Rightarrow> bool) \<Rightarrow> ('d, 'r) handler \<Rightarrow> bool" where
  "keeps ok fn \<longleftrightarrow> (\<forall>d. ok d \<longrightarrow> (\<exists>r d'. fn d = Some (r, d') \<and> ok d'))"

lemma keepsE:
  assumes "keeps ok fn" "ok d"
  obtains r d' where "fn d = Some (r, d')" "ok d'"
  using assms unfolding keeps_def by blast

locale request_server =
  fixes H :: "'d handlers" and ok :: "'d \<Rightarrow> bool"
  assumes ping: "\<exists>fn. h_ping H = Some fn \<and> keeps ok fn"
    and start_phase: "\<exists>fn. h_start_phase H = Some fn \<and> (\<forall>pid phase. keeps ok (fn pid phase))"
    and end_phase: "\<exists>fn. h_end_phase H = Some fn \<and> keeps ok fn"
    and report: "\<exists>fn. h_report H = Some fn \<and> (\<forall>fmt. keeps ok (fn fmt))"
    and shutdown: "\<exists>fn. h_shutdown H = Some fn \<and> keeps ok fn"
begin

lemma visit_keeps:
  assumes "keeps ok fn" "ok d"
  shows "\<exists>reply d'. visit enc (Some fn) d = Some (reply, d') \<and> ok d'"
proof -
  obtain r d' where "fn d = Some (r, d')" "ok d'" using keepsE [OF assms] .
  then show ?thesis by (cases r) (simp_all add: visit_def)
qed

lemma visit_request_keeps:
  assumes "ok d"
  shows "\<exists>reply d'. visit_request H r d = Some (reply, d') \<and> ok d'"
proof (cases r)
  case PingRequest
  with ping visit_keeps [OF _ assms] show ?thesis by auto
next
  case (StartPhaseRequest pid phase)
  from start_phase obtain fn where "h_start_phase H = Some fn" "keeps ok (fn pid phase)" by auto
  with StartPhaseRequest visit_keeps [OF _ assms] show ?thesis by simp
next
  case EndPhaseRequest
  with end_phase visit_keeps [OF _ assms] show ?thesis by auto
next
  case (ReportRequest fmt)
  from report obtain fn where "h_report H = Some fn" "keeps ok (fn fmt)" by auto
  with ReportRequest visit_keeps [OF _ assms] show ?thesis by simp
next
  case ShutdownRequest
  with shutdown visit_keeps [OF _ assms] show ?thesis by auto
qed

lemma serve_line_keeps: "ok d \<Longrightarrow> \<exists>reply d'. serve_line H line d = Some (reply, d') \<and> ok d'"
  using visit_request_keeps by (cases "decodeRequest line") (auto simp: serve_line_def)

text \<open>Whatever a client sends, and however its reads are interrupted or cut.\<close>

lemma handleClient_keeps:
  assumes "ok d" "handleClient H rs ws d = Some (sent, d')"
  shows "ok d'"
proof -
  obtain line rs' where l: "readLine rs [] max_line = Some (line, rs')"
    using assms(2) by (auto simp: handleClient_def split: option.splits)
  obtain reply d'' where s: "serve_line H line d = Some (reply, d'')" "ok d''"
    using serve_line_keeps [OF assms(1)] by blast
  then show ?thesis using assms(2) l by (auto simp: handleClient_def)
qed

lemma acceptOnce_keeps: "ok d \<Longrightarrow> acceptOnce H a d = Some (out, d') \<Longrightarrow> ok d'"
  by (cases a) (auto dest: handleClient_keeps)

text \<open>A client that sends a line, whatever it says, is sent the one reply to it.\<close>

lemma handleClient_replies:
  assumes "ok d" "chunks_ok 1 rs" "Delivered [] \<in> set rs \<or> LF \<in> set (delivered rs)"
  shows "\<exists>reply d'. serve_line H (first_line (delivered rs)) d = Some (reply, d') \<and> ok d' \<and>
    handleClient H rs ws d = map_option (\<lambda>sent. (sent, d')) (writeWire ws reply)"
proof -
  obtain reply d' where s: "serve_line H (first_line (delivered rs)) d = Some (reply, d')" "ok d'"
    using serve_line_keeps [OF assms(1)] by blast
  with handleClient_serves [OF assms(2,3) s(1)] show ?thesis by blast
qed

end

section \<open>Replies on the wire\<close>

text \<open>A connection that delivers a line and takes the reply whole.\<close>

definition sends :: "string \<Rightarrow> read_result list" where
  "sends line = map (\<lambda>c. Delivered [c]) line @ [Delivered [LF]]"

lemma delivered_sends [simp]: "delivered (sends line) = line @ [LF]"
  by (induction line) (simp_all add: sends_def)

lemma chunks_sends: "chunks_ok 1 (sends line)"
  by (auto simp: sends_def chunks_ok_def)

lemma readLine_sends:
  assumes "LF \<notin> set line" "length line \<le> m"
  shows "\<exists>ks'. readLine (sends line) [] m = Some (line, ks')"
proof -
  have "\<exists>ks'. readLine (sends line) [] m =
      Some ([] @ take (m - length ([] :: string)) (takeWhile (\<lambda>c. c \<noteq> LF) (delivered (sends line))), ks')"
    by (rule readLine_line [OF chunks_sends]) simp_all
  then show ?thesis using assms by (simp add: takeWhile_neq_append)
qed

lemma handleClient_line:
  assumes "LF \<notin> set line" "length line \<le> max_line" "serve_line H line d = Some (reply, d')"
    and "length (reply @ [LF]) \<le> n"
  shows "handleClient H (sends line) [Wrote n] d = Some (reply @ [LF], d')"
proof -
  obtain ks' where l: "readLine (sends line) [] max_line = Some (line, ks')"
    using readLine_sends [OF assms(1,2)] by blast
  have "takes_all [Wrote n] (Suc (length reply))"
    using takes_all_Wrote [of n] assms(4) by (simp add: takes_all_def)
  then show ?thesis using l assms(3) by (simp add: handleClient_def writeWire_takes)
qed

end
