(* ===== verification/Daemon_Server.thy ===== *)
theory Daemon_Server
  imports Kernel_Invariant Ipc_Server
begin

text \<open>
  The daemon as a whole: its handlers in the request server (\<open>Daemon::setupHandlers\<close>), the
  event loop \<open>Daemon::exec\<close> of \<^verbatim>\<open>src/daemon/daemon.cpp\<close>, and the invariants every event and
  every request keeps: \<open>shared_inv\<close>, and \<open>daemon_inv\<close>, by which no process is tracked outside a
  phase.
\<close>

section \<open>Handlers\<close>

text \<open>\<open>setHandler\<close> fills one slot.\<close>

definition setupHandlers :: "kernel \<Rightarrow> daemon handlers \<Rightarrow> daemon handlers" where
  "setupHandlers K H =
     H\<lparr>h_ping := Some (\<lambda>d. Some (onPingRequest d)),
       h_start_phase := Some (\<lambda>pid phase d. Some (onStartPhaseRequest K pid phase d)),
       h_end_phase := Some (onEndPhaseRequest K),
       h_report := Some (\<lambda>fmt d. Some (onReportRequest fmt d)),
       h_shutdown := Some (\<lambda>d. Some (onShutdownRequest d))\<rparr>"

definition daemon_handlers :: "kernel \<Rightarrow> daemon handlers" where
  "daemon_handlers K = setupHandlers K new_server"

section \<open>The event loop\<close>

text \<open>
  What \<open>epoll_wait\<close> reports: an error, or the ready descriptors in order. Every event comes
  with the operating system as it is when the event is handled, and with the kernel programs
  that have run since the event before it.
\<close>

datatype epoll_event = IpcReady kernel accept_result | RingReady kernel | OtherReady

datatype epoll_result = EpollErr errno | EpollReady "(program list \<times> epoll_event) list"

fun handle_ready :: "epoll_event \<Rightarrow> daemon \<Rightarrow> daemon option" where
  "handle_ready (IpcReady K a) d = map_option snd (acceptOnce (daemon_handlers K) a d)"
| "handle_ready (RingReady K) d = consume K d"
| "handle_ready OtherReady d = Some d"

text \<open>
  The two ways an event is never done with. The client is gone when its reply is written:
  the write raises \<open>SIGPIPE\<close>, which ends the daemon. Or the client stalls: it neither sends
  a line nor closes its side, or it does not take the reply, and the daemon waits for it in
  \<open>read\<close> or \<open>write\<close>.
\<close>

definition serve_reads :: "kernel \<Rightarrow> read_result list \<Rightarrow> daemon \<Rightarrow> (string \<times> daemon) option" where
  "serve_reads K rs d =
     (case readLine rs [] max_line of
        None \<Rightarrow> None
      | Some (line, _) \<Rightarrow> serve_line (daemon_handlers K) line d)"

fun client_gone :: "epoll_event \<Rightarrow> daemon \<Rightarrow> bool" where
  "client_gone (IpcReady K (Accepted rs ws)) d \<longleftrightarrow>
     (case serve_reads K rs d of None \<Rightarrow> False | Some (reply, _) \<Rightarrow> sigpipe ws (reply @ [LF]))"
| "client_gone ev d \<longleftrightarrow> False"

fun client_stalls :: "epoll_event \<Rightarrow> daemon \<Rightarrow> bool" where
  "client_stalls (IpcReady K (Accepted rs ws)) d \<longleftrightarrow>
     readLine rs [] max_line = None \<or>
     (case serve_reads K rs d of None \<Rightarrow> False | Some (reply, _) \<Rightarrow> writeAll ws (reply @ [LF]) [] = None)"
| "client_stalls ev d \<longleftrightarrow> False"

definition kernel_runs :: "program list \<Rightarrow> daemon \<Rightarrow> daemon" where
  "kernel_runs ps d = d\<lparr>m_bpf := run_programs ps (m_bpf d)\<rparr>"

text \<open>All events of one \<open>epoll_wait\<close>; \<^const>\<open>None\<close> if the daemon waits for a client.\<close>

datatype ready_result = Handled daemon | Interrupted

fun ready_loop :: "(program list \<times> epoll_event) list \<Rightarrow> daemon \<Rightarrow> ready_result option" where
  "ready_loop [] d = Some (Handled d)"
| "ready_loop ((ps, ev) # evs) d =
     (let d = kernel_runs ps d in
      if client_gone ev d then Some Interrupted
      else (case handle_ready ev d of None \<Rightarrow> None | Some d' \<Rightarrow> ready_loop evs d'))"

text \<open>
  The loop over the results of \<open>epoll_wait\<close>. It is still waiting when the list is used up;
  otherwise it has returned the exit status of the process, or \<open>SIGPIPE\<close> has ended it.
\<close>

datatype exec_result = Waiting daemon | Returned int daemon | Signalled

fun exec_loop :: "epoll_result list \<Rightarrow> daemon \<Rightarrow> exec_result option" where
  "exec_loop [] d = (if m_shouldExit d then Some (Returned 0 d) else Some (Waiting d))"
| "exec_loop (r # rs) d =
     (if m_shouldExit d then Some (Returned 0 d)
      else (case r of
              EpollErr e \<Rightarrow> if e = EINTR then exec_loop rs d else Some (Returned 1 d)
            | EpollReady evs \<Rightarrow>
                (case ready_loop evs d of
                   None \<Rightarrow> None
                 | Some Interrupted \<Rightarrow> Some Signalled
                 | Some (Handled d') \<Rightarrow> exec_loop rs d')))"

section \<open>Samples\<close>

lemma onEvent_returns: "sample_ok data \<Longrightarrow> \<exists>d'. onEvent K data d = Some d'"
  by (auto simp: onEvent_def Let_def sample_ok_def onExecEvent_eq)

lemma onEvent_cases:
  "onEvent K data d = Some d' \<Longrightarrow>
   d' = d \<or> d' = onForkEvent K (read_fork data) d \<or> d' = onConnectEvent K (read_connect data) d \<or>
   d' = onOpenEvent K (read_open data) d \<or> onExecEvent K (read_exec data) d = Some d'"
  unfolding onEvent_def Let_def by (simp only: option.inject split: if_splits) metis+

lemma package_by_cwd_dom:
  "kernel_ok K \<Longrightarrow> dom (tracked_pids (m_bpf (snd (package_by_cwd K pid d)))) = dom (tracked_pids (m_bpf d))"
  by (cases "packageFromCwd (readCwd K pid)")
    (simp_all add: package_by_cwd_none package_by_cwd_some setPackageForPid_dom kernel_okD)

lemma onForkEvent_dom:
  assumes "kernel_ok K"
  shows "dom (tracked_pids (m_bpf (onForkEvent K e d))) = dom (tracked_pids (m_bpf d))"
proof -
  obtain p d1 where f: "fork_parent K e d = (p, d1)" by fastforce
  have "dom (tracked_pids (m_bpf (snd (fork_parent K e d)))) = dom (tracked_pids (m_bpf d))"
    using assms by (simp add: fork_parent_def Let_def package_by_cwd_dom)
  then show ?thesis
    using f assms by (simp add: onForkEvent_parent Let_def setPackageForPid_dom kernel_okD)
qed

lemma exec_body_dom:
  assumes "kernel_ok K"
  shows "dom (tracked_pids (m_bpf (exec_body K e argv m po d))) = dom (tracked_pids (m_bpf d))"
proof -
  obtain p d1 where o: "exec_owner K e m d = (p, d1)" by fastforce
  have "dom (tracked_pids (m_bpf (snd (exec_owner K e m d)))) = dom (tracked_pids (m_bpf d))"
    using assms by (simp add: exec_owner_def Let_def package_by_cwd_dom)
  then show ?thesis using o by (simp add: exec_body_owner Let_def)
qed

lemma onEvent_dom:
  assumes "kernel_ok K" "onEvent K data d = Some d'"
  shows "dom (tracked_pids (m_bpf d')) = dom (tracked_pids (m_bpf d))"
proof -
  consider "d' = d" | "d' = onForkEvent K (read_fork data) d" | "d' = onConnectEvent K (read_connect data) d"
    | "d' = onOpenEvent K (read_open data) d" | "onExecEvent K (read_exec data) d = Some d'"
    using onEvent_cases [OF assms(2)] by blast
  then show ?thesis
  proof cases
    case 5
    then obtain argv m po where "d' = exec_body K (read_exec data) argv m po d"
      by (auto simp: onExecEvent_def bind_eq_Some_conv)
    then show ?thesis by (simp only: exec_body_dom [OF assms(1)])
  qed (simp_all add: onForkEvent_dom [OF assms(1)])
qed

section \<open>The invariant\<close>

definition enforce_mode :: "daemon \<Rightarrow> bool" where
  "enforce_mode d \<longleftrightarrow> da_mode (m_args d) = Enforce"

definition finding_ok :: "bool \<Rightarrow> finding \<Rightarrow> bool" where
  "finding_ok enf f \<longleftrightarrow> SevMedium \<le> f_severity f \<and>
     (f_blocked f \<longrightarrow> enf \<and> f_rule_id f = NonAllowlistedHost)"

text \<open>
  The kernel enforces exactly when the daemon was started to; the samples of the ring are well
  formed; a finding is at least of medium severity, and marked as blocked only by an enforcing
  daemon. \<open>daemon_inv\<close> adds that outside a phase no process is tracked.
\<close>

definition shared_inv :: "daemon \<Rightarrow> bool" where
  "shared_inv d \<longleftrightarrow> bpf_inv (enforce_mode d) (m_bpf d) \<and>
     (\<forall>f \<in> set (m_findings (m_session d)). finding_ok (enforce_mode d) f)"

definition daemon_inv :: "daemon \<Rightarrow> bool" where
  "daemon_inv d \<longleftrightarrow>
     (\<not> m_active (m_session d) \<longrightarrow> tracked_pids (m_bpf d) = Map.empty) \<and>
     bpf_inv (enforce_mode d) (m_bpf d) \<and>
     (\<forall>f \<in> set (m_findings (m_session d)). finding_ok (enforce_mode d) f)"

lemma daemon_inv_shared:
  "daemon_inv d \<longleftrightarrow> (\<not> m_active (m_session d) \<longrightarrow> tracked_pids (m_bpf d) = Map.empty) \<and> shared_inv d"
  by (simp add: daemon_inv_def shared_inv_def)

text \<open>What start-up fixes and nothing later changes.\<close>

definition config :: "daemon \<Rightarrow> daemon_args \<times> allowlist \<times> (ipv6 \<rightharpoonup> u8)" where
  "config d = (m_args d, m_allowlist d, bpf_allowlist (m_bpf d))"

lemma config_args: "config d' = config d \<Longrightarrow> m_args d' = m_args d"
  by (simp add: config_def)

lemma enforce_config: "config d' = config d \<Longrightarrow> enforce_mode d' = enforce_mode d"
  by (simp add: enforce_mode_def config_def)

lemma onEvent_shared:
  assumes "onEvent K data d = Some d'" "shared_inv d" "blocked_sample data \<longrightarrow> enforce_mode d"
  shows "shared_inv d'" "config d' = config d" "ring (m_bpf d') = ring (m_bpf d)"
    "m_active (m_session d') = m_active (m_session d)"
proof -
  note ao = adds_one_event [OF assms(1), unfolded adds_one_def]
  then obtain fs where fs: "m_findings (m_session d') = m_findings (m_session d) @ fs"
    "\<forall>f \<in> set fs. SevMedium \<le> f_severity f \<and>
       (f_blocked f \<longrightarrow> blocked_sample data \<and> f_rule_id f = NonAllowlistedHost)" by blast
  have fr: "m_active (m_session d') = m_active (m_session d)" "m_args d' = m_args d"
    "mode_config (m_bpf d') = mode_config (m_bpf d)" "ring (m_bpf d') = ring (m_bpf d)"
    and al: "m_allowlist d' = m_allowlist d" "bpf_allowlist (m_bpf d') = bpf_allowlist (m_bpf d)"
    using ao by blast+
  have "\<forall>f \<in> set fs. finding_ok (enforce_mode d) f"
    using fs(2) assms(3) by (auto simp: finding_ok_def)
  then show "shared_inv d'"
    using assms(2) fr fs(1) enforcing_cong [OF fr(3)]
    by (auto simp: shared_inv_def bpf_inv_def enforce_mode_def)
  show "config d' = config d" using fr(2) al by (simp add: config_def)
  show "ring (m_bpf d') = ring (m_bpf d)" "m_active (m_session d') = m_active (m_session d)" by (fact fr)+
qed

lemma onEvent_inv:
  assumes "kernel_ok K" "daemon_inv d" "onEvent K data d = Some d'"
    and "blocked_sample data \<longrightarrow> enforce_mode d"
  shows "daemon_inv d'" "config d' = config d" "ring (m_bpf d') = ring (m_bpf d)"
proof -
  have sh: "shared_inv d" using assms(2) by (simp add: daemon_inv_shared)
  note s = onEvent_shared [OF assms(3) sh assms(4)]
  have "tracked_pids (m_bpf d) = Map.empty \<Longrightarrow> tracked_pids (m_bpf d') = Map.empty"
    using onEvent_dom [OF assms(1,3)] by simp
  then show "daemon_inv d'" using s(1,4) assms(2) by (simp add: daemon_inv_shared)
  show "config d' = config d" "ring (m_bpf d') = ring (m_bpf d)" by (fact s)+
qed

lemma consume_loop_shared:
  "shared_inv d \<Longrightarrow> \<forall>bs \<in> set data. sample_ok bs \<and> (blocked_sample bs \<longrightarrow> enforce_mode d) \<Longrightarrow>
   \<exists>d'. consume_loop K data d = Some d' \<and> shared_inv d' \<and> config d' = config d \<and>
     ring (m_bpf d') = ring (m_bpf d) \<and> m_active (m_session d') = m_active (m_session d)"
proof (induction data arbitrary: d)
  case Nil
  then show ?case by simp
next
  case (Cons bs data)
  obtain d1 where d1: "onEvent K bs d = Some d1" using Cons.prems(2) onEvent_returns by force
  have "blocked_sample bs \<longrightarrow> enforce_mode d" using Cons.prems(2) by simp
  note i = onEvent_shared [OF d1 Cons.prems(1) this]
  have "enforce_mode d1 = enforce_mode d" by (rule enforce_config [OF i(2)])
  then have "\<forall>bs \<in> set data. sample_ok bs \<and> (blocked_sample bs \<longrightarrow> enforce_mode d1)"
    using Cons.prems(2) by simp
  from Cons.IH [OF i(1) this] i(2-4) d1 show ?case by simp
qed

lemma consume_loop_dom:
  "kernel_ok K \<Longrightarrow> consume_loop K data d = Some d' \<Longrightarrow>
   dom (tracked_pids (m_bpf d')) = dom (tracked_pids (m_bpf d))"
proof (induction data arbitrary: d)
  case (Cons bs data)
  then obtain d1 where "onEvent K bs d = Some d1" "consume_loop K data d1 = Some d'"
    by (auto simp: bind_eq_Some_conv)
  with Cons.IH [OF Cons.prems(1), of d1] onEvent_dom [OF Cons.prems(1)] show ?case by simp
qed simp

text \<open>Reading the ring never leaves the bounds of a sample, and empties the ring.\<close>

lemma consume_shared:
  assumes "shared_inv d"
  shows "\<exists>d'. consume K d = Some d' \<and> shared_inv d' \<and> ring (m_bpf d') = [] \<and> config d' = config d \<and>
    m_active (m_session d') = m_active (m_session d)"
proof -
  let ?d = "d\<lparr>m_bpf := (m_bpf d)\<lparr>ring := []\<rparr>\<rparr>"
  have "shared_inv ?d" using assms by (simp add: shared_inv_def bpf_inv_def enforce_mode_def enforcing_def)
  moreover have "\<forall>bs \<in> set (ring (m_bpf d)). sample_ok bs \<and> (blocked_sample bs \<longrightarrow> enforce_mode ?d)"
    using assms by (simp add: shared_inv_def bpf_inv_def enforce_mode_def)
  ultimately show ?thesis
    using consume_loop_shared [of ?d "ring (m_bpf d)"] by (auto simp: consume_def config_def)
qed

lemma consume_inv:
  assumes "kernel_ok K" "daemon_inv d"
  shows "\<exists>d'. consume K d = Some d' \<and> daemon_inv d' \<and> ring (m_bpf d') = [] \<and> config d' = config d"
proof -
  have "shared_inv d" using assms(2) by (simp add: daemon_inv_shared)
  from consume_shared [OF this, of K] obtain d' where d': "consume K d = Some d'" "shared_inv d'"
    "ring (m_bpf d') = []" "config d' = config d" "m_active (m_session d') = m_active (m_session d)" by blast
  have "dom (tracked_pids (m_bpf d')) = dom (tracked_pids (m_bpf d))"
    using consume_loop_dom [OF assms(1) d'(1) [unfolded consume_def]] by simp
  then have "tracked_pids (m_bpf d) = Map.empty \<Longrightarrow> tracked_pids (m_bpf d') = Map.empty" by simp
  with d' assms(2) show ?thesis by (simp add: daemon_inv_shared)
qed

section \<open>The requests\<close>

lemma start_phase_shared:
  assumes "shared_inv d"
  shows "shared_inv (snd (onStartPhaseRequest K pid phase d)) \<and>
    config (snd (onStartPhaseRequest K pid phase d)) = config d"
proof -
  obtain ok b where t: "trackPid K pid (m_bpf d) = (ok, b)" by fastforce
  have "mode_config b = mode_config (m_bpf d)" "ring b = ring (m_bpf d)" "bpf_allowlist b = bpf_allowlist (m_bpf d)"
    using manager_frame(1-3) [of K pid "m_bpf d"] t by simp_all
  then show ?thesis
    using assms t enforcing_cong [of b "m_bpf d"]
    by (auto simp: onStartPhaseRequest_def Let_def shared_inv_def session_simps bpf_inv_def enforce_mode_def config_def)
qed

lemma start_phase_inv:
  assumes "kernel_ok K" "daemon_inv d"
  shows "daemon_inv (snd (onStartPhaseRequest K pid phase d)) \<and>
    config (snd (onStartPhaseRequest K pid phase d)) = config d"
proof (cases "m_active (m_session d) \<or> \<not> pidExists K pid")
  case True
  then show ?thesis using assms(2) by (auto simp: onStartPhaseRequest_def isActive_def)
next
  case False
  have e: "tracked_pids (m_bpf d) = Map.empty" using False assms(2) by (simp add: daemon_inv_def)
  have "\<not> fst (trackPid K pid (m_bpf d)) \<Longrightarrow> tracked_pids (snd (trackPid K pid (m_bpf d))) = Map.empty"
    using trackPid_result(2) [OF kernel_okD(1) [OF assms(1)], of pid "m_bpf d"] e by simp
  then show ?thesis
    using False start_phase_shared [of d K pid phase] assms(2)
    by (auto simp: daemon_inv_shared onStartPhaseRequest_def isActive_def Let_def session_simps split: prod.splits)
qed

lemma end_phase_result:
  "kernel_ok K \<Longrightarrow> onEndPhaseRequest K d =
     Some (Inr OkResponse, d\<lparr>m_session := endPhase (m_session d),
                              m_bpf := (m_bpf d)\<lparr>tracked_pids := Map.empty\<rparr>\<rparr>)"
  by (simp add: onEndPhaseRequest_def clearTrackedPids_result kernel_okD)

lemma end_phase_inv:
  "kernel_ok K \<Longrightarrow> daemon_inv d \<Longrightarrow>
   \<exists>r d'. onEndPhaseRequest K d = Some (r, d') \<and> daemon_inv d' \<and> config d' = config d"
  by (simp add: end_phase_result daemon_inv_def session_simps bpf_inv_def enforce_mode_def enforcing_def
      config_def)

text \<open>
  The daemon's handlers keep what start-up fixed and \<open>shared_inv\<close>, also with processes tracked
  outside a phase.
\<close>

interpretation shared_ipc: request_server "daemon_handlers K" "\<lambda>d. kernel_ok K \<and> shared_inv d \<and> config d = c"
  for K c
proof unfold_locales
  let ?ok = "\<lambda>d. kernel_ok K \<and> shared_inv d \<and> config d = c"
  note hs = daemon_handlers_def setupHandlers_def new_server_def keeps_def
  show "\<exists>fn. h_ping (daemon_handlers K) = Some fn \<and> keeps ?ok fn"
    by (simp add: hs onPingRequest_def)
  show "\<exists>fn. h_start_phase (daemon_handlers K) = Some fn \<and> (\<forall>pid phase. keeps ?ok (fn pid phase))"
    using start_phase_shared by (simp add: hs) (metis prod.collapse)
  show "\<exists>fn. h_end_phase (daemon_handlers K) = Some fn \<and> keeps ?ok fn"
    by (simp add: hs end_phase_result shared_inv_def session_simps bpf_inv_def enforce_mode_def enforcing_def config_def)
  show "\<exists>fn. h_report (daemon_handlers K) = Some fn \<and> (\<forall>fmt. keeps ?ok (fn fmt))"
    by (simp add: hs onReportRequest_def)
  show "\<exists>fn. h_shutdown (daemon_handlers K) = Some fn \<and> keeps ?ok fn"
    by (simp add: hs onShutdownRequest_def shared_inv_def enforce_mode_def config_def)
qed

text \<open>Without such processes they keep \<open>daemon_inv\<close>.\<close>

interpretation daemon_ipc: request_server "daemon_handlers K" "\<lambda>d. kernel_ok K \<and> daemon_inv d \<and> config d = c"
  for K c
proof unfold_locales
  let ?ok = "\<lambda>d. kernel_ok K \<and> daemon_inv d \<and> config d = c"
  note hs = daemon_handlers_def setupHandlers_def new_server_def keeps_def
  show "\<exists>fn. h_ping (daemon_handlers K) = Some fn \<and> keeps ?ok fn"
    by (simp add: hs onPingRequest_def)
  show "\<exists>fn. h_start_phase (daemon_handlers K) = Some fn \<and> (\<forall>pid phase. keeps ?ok (fn pid phase))"
    using start_phase_inv by (simp add: hs) (metis prod.collapse)
  show "\<exists>fn. h_end_phase (daemon_handlers K) = Some fn \<and> keeps ?ok fn"
    using end_phase_inv by (simp add: hs) metis
  show "\<exists>fn. h_report (daemon_handlers K) = Some fn \<and> (\<forall>fmt. keeps ?ok (fn fmt))"
    by (simp add: hs onReportRequest_def)
  show "\<exists>fn. h_shutdown (daemon_handlers K) = Some fn \<and> keeps ?ok fn"
    by (simp add: hs onShutdownRequest_def daemon_inv_def enforce_mode_def config_def)
qed

text \<open>In any state they all return.\<close>

interpretation ipc: request_server "daemon_handlers K" "\<lambda>d. kernel_ok K" for K
proof unfold_locales
  note hs = daemon_handlers_def setupHandlers_def new_server_def keeps_def
  show "\<exists>fn. h_start_phase (daemon_handlers K) = Some fn \<and> (\<forall>pid phase. keeps (\<lambda>d. kernel_ok K) (fn pid phase))"
    by (simp add: hs)
qed (simp_all add: daemon_handlers_def setupHandlers_def keeps_def onPingRequest_def onReportRequest_def
    onShutdownRequest_def end_phase_result)

section \<open>The loop keeps going\<close>

text \<open>What is assumed of an event: the laws of the kernel's maps.\<close>

fun event_ok :: "epoll_event \<Rightarrow> bool" where
  "event_ok (IpcReady K a) \<longleftrightarrow> kernel_ok K"
| "event_ok (RingReady K) \<longleftrightarrow> kernel_ok K"
| "event_ok OtherReady \<longleftrightarrow> True"

lemma handle_ready_shared:
  assumes "handle_ready ev d = Some d'" "event_ok ev" "shared_inv d"
  shows "shared_inv d' \<and> config d' = config d"
proof (cases ev)
  case (IpcReady K a)
  then have "kernel_ok K \<and> shared_inv d \<and> config d = config d" using assms by simp
  from shared_ipc.acceptOnce_keeps [OF this] IpcReady assms(1) show ?thesis by auto
next
  case (RingReady K)
  then show ?thesis using consume_shared [of d K] assms by auto
next
  case OtherReady
  then show ?thesis using assms by simp
qed

lemma handle_ready_inv:
  assumes "handle_ready ev d = Some d'" "event_ok ev" "daemon_inv d"
  shows "daemon_inv d' \<and> config d' = config d"
proof (cases ev)
  case (IpcReady K a)
  then have "kernel_ok K \<and> daemon_inv d \<and> config d = config d" using assms by simp
  from daemon_ipc.acceptOnce_keeps [OF this] IpcReady assms(1) show ?thesis by auto
next
  case (RingReady K)
  then show ?thesis using consume_inv [of K d] assms by auto
next
  case OtherReady
  then show ?thesis using assms by simp
qed

text \<open>Only a client keeps the daemon from being done with an event.\<close>

lemma handle_ready_stalls:
  assumes "handle_ready ev d = None" "\<not> client_gone ev d" "event_ok ev" "shared_inv d"
  shows "client_stalls ev d"
proof (cases ev)
  case (IpcReady K a)
  show ?thesis
  proof (cases a)
    case (AcceptErr e)
    then show ?thesis using assms(1) IpcReady by simp
  next
    case (Accepted rs ws)
    then have none: "handleClient (daemon_handlers K) rs ws d = None" using assms(1) IpcReady by simp
    show ?thesis
    proof (cases "readLine rs [] max_line")
      case None
      then show ?thesis using IpcReady Accepted by simp
    next
      case (Some x)
      then obtain line rs' where l: "readLine rs [] max_line = Some (line, rs')" by (cases x) simp
      have "kernel_ok K" using assms(3) IpcReady by simp
      from ipc.serve_line_keeps [OF this, of line d] obtain reply d' where
        "serve_line (daemon_handlers K) line d = Some (reply, d')" by blast
      then show ?thesis
        using none l assms(2) IpcReady Accepted
        by (simp add: handleClient_def serve_reads_def writeWire_def Let_def split: if_splits)
    qed
  qed
next
  case (RingReady K)
  then show ?thesis using consume_shared [of d K] assms by auto
qed (use assms in simp)

lemma kernel_runs_shared:
  assumes "\<forall>p \<in> set ps. program_ok p" "shared_inv d"
  shows "shared_inv (kernel_runs ps d)"
  using assms(2) run_programs_inv [OF assms(1)] by (auto simp: kernel_runs_def shared_inv_def enforce_mode_def)

text \<open>The outcomes of the loops.\<close>

fun result_ok :: "epoll_result \<Rightarrow> bool" where
  "result_ok (EpollErr e) \<longleftrightarrow> True"
| "result_ok (EpollReady evs) \<longleftrightarrow> (\<forall>(ps, ev) \<in> set evs. event_ok ev \<and> (\<forall>p \<in> set ps. program_ok p))"

lemma ready_loop_inv:
  "result_ok (EpollReady evs) \<Longrightarrow> shared_inv d \<Longrightarrow>
   case ready_loop evs d of
     None \<Rightarrow> \<exists>(ps, ev) \<in> set evs. \<exists>d'. client_stalls ev d'
   | Some Interrupted \<Rightarrow> \<exists>(ps, ev) \<in> set evs. \<exists>d'. client_gone ev d'
   | Some (Handled d') \<Rightarrow> shared_inv d'"
proof (induction evs arbitrary: d)
  case Nil
  then show ?case by simp
next
  case (Cons pe evs)
  obtain ps ev where pe: "pe = (ps, ev)" by fastforce
  let ?d = "kernel_runs ps d"
  have ok: "event_ok ev" "result_ok (EpollReady evs)" and inv: "shared_inv ?d"
    using Cons.prems kernel_runs_shared by (auto simp: pe)
  show ?case
  proof (cases "client_gone ev ?d")
    case True
    then show ?thesis by (auto simp: pe)
  next
    case False
    show ?thesis
    proof (cases "handle_ready ev ?d")
      case None
      have "client_stalls ev ?d" by (rule handle_ready_stalls [OF None False ok(1) inv])
      moreover have "ready_loop (pe # evs) d = None" using None False by (simp add: pe Let_def)
      ultimately show ?thesis using pe by auto
    next
      case (Some d')
      then have "shared_inv d'" using handle_ready_shared ok(1) inv by blast
      note ih = Cons.IH [OF ok(2) this]
      moreover have "ready_loop (pe # evs) d = ready_loop evs d'" using Some False by (simp add: pe Let_def)
      ultimately show ?thesis by (simp split: option.splits ready_result.splits)
    qed
  qed
qed

section \<open>What ends the loop\<close>

text \<open>An event that brings a client who asks for the shutdown.\<close>

fun asks_shutdown :: "epoll_event \<Rightarrow> bool" where
  "asks_shutdown (IpcReady K (Accepted rs ws)) =
     (case readLine rs [] max_line of
        None \<Rightarrow> False
      | Some (line, _) \<Rightarrow> decodeRequest line = Some ShutdownRequest)"
| "asks_shutdown ev = False"

lemma onEvent_flag: "onEvent K bs d = Some d' \<Longrightarrow> m_shouldExit d' = m_shouldExit d"
  by (drule onEvent_cases) (auto simp: onExecEvent_def bind_eq_Some_conv)

lemma consume_loop_flag: "consume_loop K data d = Some d' \<Longrightarrow> m_shouldExit d' = m_shouldExit d"
  by (induction data arbitrary: d) (auto simp: bind_eq_Some_conv dest: onEvent_flag)

lemma serve_line_flag:
  assumes "serve_line (daemon_handlers K) line d = Some (reply, d')" "m_shouldExit d' \<noteq> m_shouldExit d"
  shows "decodeRequest line = Some ShutdownRequest"
proof (cases "decodeRequest line")
  case None
  then show ?thesis using assms by (simp add: serve_line_def)
next
  case (Some r)
  then show ?thesis
    using assms by (cases r) (auto simp: serve_line_def daemon_handlers_def setupHandlers_def visit_def onPingRequest_def
        onReportRequest_def onStartPhaseRequest_def onEndPhaseRequest_def Let_def bind_eq_Some_conv
        split: option.splits if_splits sum.splits prod.splits)
qed
lemma handle_ready_flag:
  assumes "handle_ready ev d = Some d'" "m_shouldExit d' \<noteq> m_shouldExit d"
  shows "asks_shutdown ev"
proof (cases ev)
  case (IpcReady K a)
  then show ?thesis
    using assms serve_line_flag [of K]
    by (cases a) (auto simp: handleClient_def split: option.splits prod.splits)
next
  case (RingReady K)
  then show ?thesis using assms by (auto simp: consume_def dest: consume_loop_flag)
qed (use assms in simp)

lemma ready_loop_flag:
  "ready_loop evs d = Some (Handled d') \<Longrightarrow> m_shouldExit d' \<noteq> m_shouldExit d \<Longrightarrow>
   \<exists>(ps, ev) \<in> set evs. asks_shutdown ev"
proof (induction evs arbitrary: d)
  case Nil
  then show ?case by simp
next
  case (Cons pe evs)
  obtain ps ev where pe: "pe = (ps, ev)" by fastforce
  obtain d1 where "handle_ready ev (kernel_runs ps d) = Some d1" "ready_loop evs d1 = Some (Handled d')"
    using Cons.prems(1) by (auto simp: pe Let_def split: option.splits if_splits)
  moreover have "m_shouldExit (kernel_runs ps d) = m_shouldExit d" by (simp add: kernel_runs_def)
  ultimately show ?case using Cons.IH [of d1] Cons.prems(2) handle_ready_flag [of ev "kernel_runs ps d" d1]
    by (cases "m_shouldExit d' = m_shouldExit d1") (auto simp: pe)
qed

text \<open>Whatever ends the loop, or keeps it from going on, was asked for or done by someone.\<close>

definition among :: "epoll_result list \<Rightarrow> (epoll_event \<Rightarrow> bool) \<Rightarrow> bool" where
  "among rs P \<longleftrightarrow> (\<exists>evs ps ev. EpollReady evs \<in> set rs \<and> (ps, ev) \<in> set evs \<and> P ev)"

lemma among_Cons [simp]:
  "among (r # rs) P \<longleftrightarrow> (\<exists>evs ps ev. r = EpollReady evs \<and> (ps, ev) \<in> set evs \<and> P ev) \<or> among rs P"
  by (auto simp: among_def)

lemma exec_loop_outcome:
  "shared_inv d \<Longrightarrow> \<not> m_shouldExit d \<Longrightarrow> \<forall>r \<in> set rs. result_ok r \<Longrightarrow>
   case exec_loop rs d of
     None \<Rightarrow> among rs (\<lambda>ev. \<exists>d'. client_stalls ev d')
   | Some Signalled \<Rightarrow> among rs (\<lambda>ev. \<exists>d'. client_gone ev d')
   | Some (Waiting d') \<Rightarrow> shared_inv d' \<and> \<not> m_shouldExit d'
   | Some (Returned n d') \<Rightarrow> shared_inv d' \<and>
       (n = 0 \<and> among rs asks_shutdown \<or> n = 1 \<and> (\<exists>e. e \<noteq> EINTR \<and> EpollErr e \<in> set rs))"
proof (induction rs arbitrary: d)
  case Nil
  then show ?case by simp
next
  case (Cons r rs)
  show ?case
  proof (cases r)
    case (EpollErr e)
    with Cons.prems Cons.IH [of d] show ?thesis
      by (cases "e = EINTR") (auto split: option.splits exec_result.splits)
  next
    case (EpollReady evs)
    have ok: "result_ok (EpollReady evs)" using Cons.prems(3) EpollReady by simp
    note rl = ready_loop_inv [OF ok Cons.prems(1)]
    show ?thesis
    proof (cases "ready_loop evs d")
      case None
      then show ?thesis using rl Cons.prems(2) EpollReady by (auto simp: among_def)
    next
      case (Some x)
      show ?thesis
      proof (cases x)
        case Interrupted
        then show ?thesis using rl Some Cons.prems(2) EpollReady by auto
      next
        case (Handled d1)
        then have d1: "ready_loop evs d = Some (Handled d1)" "shared_inv d1" using Some rl by simp_all
        have step: "exec_loop (r # rs) d = exec_loop rs d1" using d1(1) Cons.prems(2) EpollReady by simp
        show ?thesis
        proof (cases "m_shouldExit d1")
          case True
          then have "exec_loop rs d1 = Some (Returned 0 d1)" by (cases rs) simp_all
          moreover have "\<exists>(ps, ev) \<in> set evs. asks_shutdown ev"
            using ready_loop_flag [OF d1(1)] True Cons.prems(2) by simp
          ultimately show ?thesis using step d1(2) EpollReady by auto
        next
          case False
          have "\<forall>r \<in> set rs. result_ok r" using Cons.prems(3) by simp
          from Cons.IH [OF d1(2) False this] step show ?thesis
            by (auto split: option.splits exec_result.splits)
        qed
      qed
    qed
  qed
qed

text \<open>One event at a time.\<close>

lemma ready_served:
  assumes "LF \<notin> set line" "length line \<le> max_line" "length reply < n"
    and "serve_line (daemon_handlers K) line (kernel_runs ps d) = Some (reply, d')"
  shows "ready_loop ((ps, IpcReady K (Accepted (sends line) [Wrote n])) # evs) d = ready_loop evs d'"
proof -
  obtain ks where l: "readLine (sends line) [] max_line = Some (line, ks)"
    using readLine_sends [OF assms(1,2)] by blast
  have "takes_all [Wrote n] (Suc (length reply))" using takes_all_Wrote [of n] assms(3) by (simp add: takes_all_def)
  then have "\<not> sigpipe [Wrote n] (reply @ [LF])" by (rule takes_all_no_signal) simp
  moreover have "handleClient (daemon_handlers K) (sends line) [Wrote n] (kernel_runs ps d) = Some (reply @ [LF], d')"
    using handleClient_line [OF assms(1,2,4)] assms(3) by simp
  ultimately show ?thesis using l assms(4) by (simp add: serve_reads_def)
qed

lemma ready_consumed:
  "consume K (kernel_runs ps d) = Some d' \<Longrightarrow> ready_loop ((ps, RingReady K) # evs) d = ready_loop evs d'"
  by simp

lemma no_programs [simp]: "kernel_runs [] d = d"
  by (simp add: kernel_runs_def run_programs_def)

text \<open>The request to exit, and the end of the loop.\<close>

lemma shutdown_served:
  "serve_line (daemon_handlers K) ''SHUTDOWN'' d = Some (encode_ok OkResponse, d\<lparr>m_shouldExit := True\<rparr>)"
proof -
  have "encode_request ShutdownRequest = ''SHUTDOWN''" by (simp add: wire_words)
  then show ?thesis
    using decode_encode_request [of ShutdownRequest]
    by (simp add: serve_line_def daemon_handlers_def setupHandlers_def visit_def onShutdownRequest_def)
qed

lemma shutdown_loop:
  "\<not> m_shouldExit d \<Longrightarrow>
   exec_loop [EpollReady [([], IpcReady K (Accepted (sends ''SHUTDOWN'') [Wrote 100]))]] d =
     Some (Returned 0 (d\<lparr>m_shouldExit := True\<rparr>))"
  using ready_served [of "''SHUTDOWN''" "encode_ok OkResponse" 100 K "[]" d "d\<lparr>m_shouldExit := True\<rparr>" "[]"]
  by (simp add: shutdown_served max_line_def encode_ok_def wire_words del: ready_loop.simps(2)) 

section \<open>Events left in the ring\<close>

lemma consume_loop_inactive:
  "\<not> m_active (m_session d) \<Longrightarrow> consume_loop K data d = Some d' \<Longrightarrow>
   m_findings (m_session d') = m_findings (m_session d) \<and> \<not> m_active (m_session d')"
proof (induction data arbitrary: d)
  case Nil
  then show ?case by simp
next
  case (Cons bs data)
  then obtain d1 where d1: "onEvent K bs d = Some d1" "consume_loop K data d1 = Some d'"
    by (auto simp: bind_eq_Some_conv)
  have "m_findings (m_session d1) = m_findings (m_session d) \<and> \<not> m_active (m_session d1)"
    using adds_one_event [OF d1(1)] Cons.prems(1) unfolding adds_one_def by auto
  then show ?case using Cons.IH [OF _ d1(2)] by simp
qed

section \<open>The verbose flag\<close>

text \<open>The daemon less its log and the flag that turns it on.\<close>

definition erase_log :: "daemon \<Rightarrow> daemon" where
  "erase_log d = d\<lparr>m_args := (m_args d)\<lparr>da_verbose := False\<rparr>, m_stdout := []\<rparr>"

lemma erase_fields [simp]:
  "m_session (erase_log d) = m_session d" "m_bpf (erase_log d) = m_bpf d"
  "m_allowlist (erase_log d) = m_allowlist d" "m_shouldExit (erase_log d) = m_shouldExit d"
  "da_mode (m_args (erase_log d)) = da_mode (m_args d)"
  "da_allowed_hosts (m_args (erase_log d)) = da_allowed_hosts (m_args d)"
  by (simp_all add: erase_log_def)

lemma erase_log_line [simp]: "erase_log (log_line l d) = erase_log d"
  by (simp add: erase_log_def log_line_def)

lemma erase_update [simp]:
  "erase_log (d\<lparr>m_session := s\<rparr>) = (erase_log d)\<lparr>m_session := s\<rparr>"
  "erase_log (d\<lparr>m_bpf := b\<rparr>) = (erase_log d)\<lparr>m_bpf := b\<rparr>"
  by (simp_all add: erase_log_def)

lemma erase_idem [simp]: "erase_log (erase_log d) = erase_log d"
  by (simp add: erase_log_def)

lemma erase_by_cwd:
  "package_by_cwd K pid (erase_log d) =
     (fst (package_by_cwd K pid d), erase_log (snd (package_by_cwd K pid d)))"
  by (cases "packageFromCwd (readCwd K pid)")
    (simp_all add: package_by_cwd_none package_by_cwd_some)

lemma erase_fork: "erase_log (onForkEvent K e d) = erase_log (onForkEvent K e (erase_log d))"
proof -
  have "fork_parent K e (erase_log d) = (fst (fork_parent K e d), erase_log (snd (fork_parent K e d)))"
    by (simp add: fork_parent_def Let_def erase_by_cwd)
  then show ?thesis by (simp add: onForkEvent_parent Let_def split: prod.split)
qed

lemma erase_connect: "erase_log (onConnectEvent K e d) = erase_log (onConnectEvent K e (erase_log d))"
  by (simp add: onConnectEvent_def Let_def)

lemma erase_open: "erase_log (onOpenEvent K e d) = erase_log (onOpenEvent K e (erase_log d))"
  by (simp add: onOpenEvent_def Let_def)

lemma erase_exec: "erase_log (exec_body K e argv m po d) = erase_log (exec_body K e argv m po (erase_log d))"
proof -
  have "exec_owner K e m (erase_log d) = (fst (exec_owner K e m d), erase_log (snd (exec_owner K e m d)))"
    using erase_by_cwd [of K "h_pid (ex_hdr e)" "d\<lparr>m_session := setPidTokens (h_pid (ex_hdr e)) m (m_session d)\<rparr>"]
    by (simp add: exec_owner_def Let_def)
  then show ?thesis by (simp add: exec_body_owner Let_def split: prod.split)
qed

lemma erase_event: "map_option erase_log (onEvent K bs d) = map_option erase_log (onEvent K bs (erase_log d))"
  using erase_fork [of K "read_fork bs" d] erase_connect [of K "read_connect bs" d]
    erase_open [of K "read_open bs" d] erase_exec [of K "read_exec bs" _ _ _ d]
  by (simp add: onEvent_def Let_def onExecEvent_def split: Option.bind_split)

lemma erase_consume_loop:
  "map_option erase_log (consume_loop K data d) = map_option erase_log (consume_loop K data (erase_log d))"
proof (induction data arbitrary: d)
  case Nil
  then show ?case by simp
next
  case (Cons bs data)
  show ?case
  proof (cases "onEvent K bs d")
    case None
    then show ?thesis using erase_event [of K bs d] by simp
  next
    case (Some d1)
    then obtain d2 where d2: "onEvent K bs (erase_log d) = Some d2" "erase_log d1 = erase_log d2"
      using erase_event [of K bs d] by (cases "onEvent K bs (erase_log d)") auto
    show ?thesis using Some d2 Cons.IH [of d1] Cons.IH [of d2] by simp
  qed
qed

section \<open>Properties\<close>

text \<open>
  C26: A start-phase request is refused while a phase is active or when the process does not
  exist, and then changes nothing. Otherwise the session starts anew and the kernel decides:
  if it takes the entry of the process, a phase of the given name is active without findings,
  the process was not tracked before, and is tracked beside whatever the map still holds; if
  it does not, no phase is active, the map is as it was, and the findings of the last phase
  are gone.
\<close>

theorem start_phase_outcome:
  assumes "kernel_ok K" "onStartPhaseRequest K pid phase d = (r, d')"
  defines "t \<equiv> tracked_pids (m_bpf d)" and "t' \<equiv> tracked_pids (m_bpf d')"
    and "rc \<equiv> fst (k_tracked_update K BPF_NOEXIST pid \<lparr>tp_session_id = 1, tp_package_id = 0\<rparr> (tracked_pids (m_bpf d)))"
  shows "if m_active (m_session d)
      then r = Inl (Error (''phase '' @ phaseName (m_session d) @ '' is already active'')) \<and> d' = d
    else if \<not> pidExists K pid
      then r = Inl (Error (''pid '' @ dec_u32 pid @ '' does not exist'')) \<and> d' = d
    else if 0 \<le> rc
      then r = Inr OkResponse \<and> m_session d' = startPhase phase pid new_session \<and>
        t pid = None \<and> t' = t(pid \<mapsto> \<lparr>tp_session_id = 1, tp_package_id = 0\<rparr>)
    else r = Inl (Error (''failed to track pid '' @ dec_u32 pid)) \<and> m_session d' = new_session \<and> t' = t"
proof (cases "m_active (m_session d) \<or> \<not> pidExists K pid")
  case True
  then show ?thesis using assms(2) by (auto simp: onStartPhaseRequest_def isActive_def)
next
  case False
  obtain ok b where tp: "trackPid K pid (m_bpf d) = (ok, b)" by fastforce
  have ok: "ok \<longleftrightarrow> 0 \<le> rc"
    using tp by (auto simp: trackPid_def Let_def rc_def split: prod.splits)
  note tr = trackPid_result [OF kernel_okD(1) [OF assms(1)], of pid "m_bpf d", unfolded tp fst_conv snd_conv]
  have "(r, d') = (if ok then (Inr OkResponse, d\<lparr>m_session := startPhase phase pid new_session, m_bpf := b\<rparr>)
      else (Inl (Error (''failed to track pid '' @ dec_u32 pid)), d\<lparr>m_session := new_session, m_bpf := b\<rparr>))"
    using False assms(2) tp by (cases ok) (auto simp: onStartPhaseRequest_def isActive_def Let_def reset_session_new)
  then show ?thesis using False tr by (cases ok) (simp_all add: ok [symmetric] t_def t'_def)
qed

lemma start_phase_outcome_witness:
  defines "K \<equiv> plain_kernel\<lparr>k_stat := (\<lambda>_. True)\<rparr>"
  shows "\<exists>d'. onStartPhaseRequest K 7 ''ci'' (new_daemon default_daemon_args) = (Inr OkResponse, d') \<and>
    m_session d' = startPhase ''ci'' 7 new_session \<and>
    tracked_pids (m_bpf d') = [7 \<mapsto> \<lparr>tp_session_id = 1, tp_package_id = 0\<rparr>]"
proof -
  let ?d = "new_daemon default_daemon_args"
  have K: "kernel_ok K" using plain_kernel_ok by (simp add: K_def kernel_ok_def)
  obtain r d' where r: "onStartPhaseRequest K 7 ''ci'' ?d = (r, d')" by fastforce
  have f: "\<not> m_active (m_session ?d)" "tracked_pids (m_bpf ?d) = Map.empty" "pidExists K 7"
    "k_tracked_update K = hash_update tracked_pids_entries"
    by (simp_all add: K_def pidExists_def new_daemon_def new_session_def loaded_maps_def plain_kernel_def)
  have "0 \<le> fst (hash_update tracked_pids_entries BPF_NOEXIST 7 \<lparr>tp_session_id = 1, tp_package_id = 0\<rparr>
      (Map.empty :: u32 \<rightharpoonup> tracked_pid_info))"
    by (simp add: hash_update_def tracked_pids_entries_def)
  with start_phase_outcome [OF K r] r show ?thesis by (simp add: f)
qed

text \<open>
  C27: An end-phase request always succeeds: the phase is no longer active, no process is
  tracked any more, and the findings stay for the report. A report is refused while a phase
  is active and otherwise has the severity and the rendering of the session, which it leaves
  as it is.
\<close>

theorem end_phase_and_report:
  assumes "kernel_ok K"
  shows "\<exists>d'. onEndPhaseRequest K d = Some (Inr OkResponse, d') \<and> \<not> m_active (m_session d') \<and>
      tracked_pids (m_bpf d') = Map.empty \<and> findings (m_session d') = findings (m_session d) \<and>
      onReportRequest fmt d' =
        (Inr \<lparr>max_severity = maxSeverity (m_session d), body = render (m_session d') fmt\<rparr>, d') \<and>
      (if m_active (m_session d) then \<exists>e. onReportRequest fmt d = (Inl e, d)
       else \<exists>r. onReportRequest fmt d = (Inr r, d))"
  by (simp add: end_phase_result [OF assms] onReportRequest_def isActive_def session_simps findings_def
      maxSeverity_def)

lemma end_phase_and_report_witness:
  "\<exists>d'. onEndPhaseRequest plain_kernel ((new_daemon default_daemon_args)\<lparr>m_session := startPhase ''ci'' 7 new_session\<rparr>) =
     Some (Inr OkResponse, d') \<and> \<not> m_active (m_session d')"
  using end_phase_and_report [OF plain_kernel_ok] by blast

text \<open>
  Events still in the ring when the phase ends are lost: the daemon reads them afterwards
  without adding a finding, whatever they report.
\<close>

theorem pending_events_lost:
  assumes "kernel_ok K" "onEndPhaseRequest K d = Some (r, d1)" "consume K d1 = Some d2"
  shows "findings (m_session d2) = findings (m_session d)"
proof -
  have d1: "d1 = d\<lparr>m_session := endPhase (m_session d), m_bpf := (m_bpf d)\<lparr>tracked_pids := Map.empty\<rparr>\<rparr>"
    using assms(1,2) by (simp add: end_phase_result)
  show ?thesis
    using consume_loop_inactive [OF _ assms(3) [unfolded consume_def]]
    by (simp add: d1 findings_def session_simps)
qed

lemma pending_events_lost_witness:
  "findings (m_session (the (consume plain_kernel (snd (the (onEndPhaseRequest plain_kernel
     ((new_daemon default_daemon_args)\<lparr>m_session := startPhase ''ci'' 7 new_session,
        m_bpf := loaded_maps\<lparr>ring := [[]]\<rparr>\<rparr>))))))) = []"
proof -
  let ?d = "(new_daemon default_daemon_args)\<lparr>m_session := startPhase ''ci'' 7 new_session,
        m_bpf := loaded_maps\<lparr>ring := [[]]\<rparr>\<rparr>"
  obtain d1 where d1: "onEndPhaseRequest plain_kernel ?d = Some (Inr OkResponse, d1)"
    "ring (m_bpf d1) = [[]]"
    by (simp add: end_phase_result)
  have "consume plain_kernel d1 = Some (d1\<lparr>m_bpf := (m_bpf d1)\<lparr>ring := []\<rparr>\<rparr>)"
    by (simp add: consume_def d1(2) onEvent_def sizeofs)
  from pending_events_lost [OF plain_kernel_ok d1(1) this] this d1(1) show ?thesis
    by (simp add: findings_def session_simps) (simp add: new_session_def)
qed

text \<open>
  C37: The verbose flag decides only what is logged: two daemons that differ in nothing but
  the flag and the log so far do the same with every event.
\<close>

theorem verbose_only_logs:
  assumes "erase_log d = erase_log e"
  shows "map_option erase_log (consume K d) = map_option erase_log (consume K e)"
proof -
  have "map_option erase_log (consume K d) = map_option erase_log (consume K (erase_log d))" for d
    using erase_consume_loop [of K "ring (m_bpf d)" "d\<lparr>m_bpf := (m_bpf d)\<lparr>ring := []\<rparr>\<rparr>"]
    by (simp add: consume_def)
  then show ?thesis using assms by metis
qed

lemma verbose_only_logs_witness:
  "map_option erase_log (consume plain_kernel (new_daemon default_daemon_args)) =
   map_option erase_log (consume plain_kernel (new_daemon (default_daemon_args\<lparr>da_verbose := True\<rparr>)))"
  by (rule verbose_only_logs) (simp add: erase_log_def new_daemon_def default_daemon_args_def)

text \<open>
  C35: The event loop over any results of \<open>epoll_wait\<close>, with kernel programs that run before
  each of its events: it still waits, with its invariant and without a request to exit; or it
  has returned, 0 only if a client has asked for the shutdown and 1 only on an error of
  \<open>epoll_wait\<close> other than \<open>EINTR\<close>; or a client has stopped it, by keeping the daemon waiting in
  \<open>read\<close> or \<open>write\<close>, or by being gone when its reply is written, which kills the daemon.
  No sample of the ring stops it. The programs run between events here, not while one is
  handled: how long forks hold up an \<open>END-PHASE\<close> they interleave with is the subject of
  \<open>clearing_bounded\<close>.
\<close>

theorem event_loop_runs:
  assumes "shared_inv d" "\<not> m_shouldExit d" "\<forall>r \<in> set rs. result_ok r"
  shows "case exec_loop rs d of
     None \<Rightarrow> among rs (\<lambda>ev. \<exists>d'. client_stalls ev d')
   | Some Signalled \<Rightarrow> among rs (\<lambda>ev. \<exists>d'. client_gone ev d')
   | Some (Waiting d') \<Rightarrow> shared_inv d' \<and> \<not> m_shouldExit d'
   | Some (Returned n d') \<Rightarrow> shared_inv d' \<and>
       (n = 0 \<and> among rs asks_shutdown \<or> n = 1 \<and> (\<exists>e. e \<noteq> EINTR \<and> EpollErr e \<in> set rs))"
  by (rule exec_loop_outcome [OF assms])

text \<open>
  The witness: a signal interrupts the wait; the tracked process 7 connects, the daemon reads
  the event, and then serves a client who asks for the shutdown.
\<close>

definition phase_daemon :: daemon where
  "phase_daemon = (new_daemon default_daemon_args)\<lparr>m_session := startPhase ''ci'' 7 new_session,
     m_bpf := loaded_maps\<lparr>tracked_pids := [7 \<mapsto> \<lparr>tp_session_id = 1, tp_package_id = 0\<rparr>]\<rparr>\<rparr>"

lemma event_loop_runs_witness:
  defines "rs \<equiv> [EpollErr EINTR,
     EpollReady [([Connect4 (Some (replicate sizeof_event_connect 0)) 0 7 1 443], RingReady plain_kernel)],
     EpollReady [([], IpcReady plain_kernel (Accepted (sends ''SHUTDOWN'') [Wrote 100]))]]"
  shows "\<exists>d'. exec_loop rs phase_daemon = Some (Returned 0 d') \<and> shared_inv d' \<and> among rs asks_shutdown"
proof -
  have inv: "shared_inv phase_daemon"
    by (simp add: phase_daemon_def shared_inv_def bpf_inv_def enforcing_def enforce_mode_def new_daemon_def
        loaded_maps_def new_session_def default_daemon_args_def startPhase_def)
  have run: "\<not> m_shouldExit phase_daemon" by (simp add: phase_daemon_def new_daemon_def)
  define p where "p = Connect4 (Some (replicate sizeof_event_connect 0)) 0 7 1 443"
  have p: "program_ok p" by (simp add: p_def sample_room_def)
  then have "\<forall>r \<in> set rs. result_ok r" by (simp add: rs_def p_def [symmetric])
  note outcome = event_loop_runs [OF inv run this]
  have "shared_inv (kernel_runs [p] phase_daemon)" using kernel_runs_shared [OF _ inv] p by simp
  from consume_shared [OF this, of plain_kernel] obtain d1 where
    d1: "consume plain_kernel (kernel_runs [p] phase_daemon) = Some d1" by blast
  then have "m_shouldExit d1 = m_shouldExit phase_daemon"
    using consume_loop_flag [of plain_kernel _ _ d1] by (force simp: consume_def kernel_runs_def)
  then have "exec_loop rs phase_daemon = Some (Returned 0 (d1\<lparr>m_shouldExit := True\<rparr>))"
    using run d1 shutdown_loop [of d1 plain_kernel]
    by (simp add: rs_def p_def [symmetric] del: exec_loop.simps(1))
  with outcome show ?thesis by simp
qed

text \<open>
  C34: Every client that sends a line, or closes its side before one is complete, is served:
  the line is what it sent before the first newline, cut at the bound; its reply is written
  once, with a newline, and a connection that takes it has got exactly that reply. To a line
  that is no request the reply is an error, and the daemon is as before.
\<close>

theorem every_client_answered:
  assumes "kernel_ok K" "chunks_ok 1 rs" "Delivered [] \<in> set rs \<or> LF \<in> set (delivered rs)"
  shows "\<exists>reply d'. serve_line (daemon_handlers K) (first_line (delivered rs)) d = Some (reply, d') \<and>
    acceptOnce (daemon_handlers K) (Accepted rs ws) d = map_option (\<lambda>sent. (Some sent, d')) (writeWire ws reply) \<and>
    (takes_all ws (Suc (length reply)) \<longrightarrow>
       acceptOnce (daemon_handlers K) (Accepted rs ws) d = Some (Some (reply @ [LF]), d')) \<and>
    (decodeRequest (first_line (delivered rs)) = None \<longrightarrow> reply = ''ERR malformed request'' \<and> d' = d)"
proof -
  obtain reply d' where r: "serve_line (daemon_handlers K) (first_line (delivered rs)) d = Some (reply, d')"
    "handleClient (daemon_handlers K) rs ws d = map_option (\<lambda>sent. (sent, d')) (writeWire ws reply)"
    using ipc.handleClient_replies [OF assms, of d ws] by blast
  have "decodeRequest (first_line (delivered rs)) = None \<Longrightarrow> reply = ''ERR malformed request'' \<and> d' = d"
    using r(1) by (simp add: serve_line_def encode_error_def wire_words)
  with r show ?thesis
    by (intro exI [of _ reply] exI [of _ d']) (simp add: writeWire_takes option.map_comp comp_def)
qed

lemma every_client_answered_witness:
  "acceptOnce (daemon_handlers plain_kernel) (Accepted [Delivered ''?'', ReadErr EINTR, Delivered []] [Wrote 100])
     (new_daemon default_daemon_args) =
   Some (Some (''ERR malformed request'' @ [LF]), new_daemon default_daemon_args)"
proof -
  define rs where "rs = [Delivered ''?'', ReadErr EINTR, Delivered []]"
  have rs: "chunks_ok 1 rs" "Delivered [] \<in> set rs" "delivered rs = ''?''" by (simp_all add: rs_def chunks_ok_def)
  have "decodeRequest (first_line (delivered rs)) = None"
    by (simp add: rs first_line_def max_line_def decodeRequest_def nextToken_def find_char_def wire_words Let_def)
  moreover have "takes_all [Wrote 100] (Suc (length ''ERR malformed request''))"
    using takes_all_Wrote [of 100] by (simp add: takes_all_def)
  ultimately show ?thesis
    using every_client_answered [OF plain_kernel_ok rs(1), of "new_daemon default_daemon_args" "[Wrote 100]"] rs(2)
    unfolding rs_def [symmetric] by fastforce
qed





end
