(* ===== verification/Ctl_Args.thy ===== *)
theory Ctl_Args
  imports Proto Daemon_Args
begin

text \<open>
  The command line of \<open>blastguardctl\<close>, \<^verbatim>\<open>src/ctl/args.h\<close> and \<^verbatim>\<open>src/ctl/args.cpp\<close>.
\<close>

datatype subcommand = SubPing | SubStartPhase | SubEndPhase | SubReport | SubShutdown

definition subcommand_table :: "(subcommand \<times> string) list" where
  "subcommand_table =
    [(SubPing, ''ping''), (SubStartPhase, ''start-phase''), (SubEndPhase, ''end-phase''),
     (SubReport, ''report''), (SubShutdown, ''shutdown'')]"

definition subcommandToString :: "subcommand \<Rightarrow> string" where
  "subcommandToString s = table_to_string subcommand_table s"

definition subcommandFromString :: "string \<Rightarrow> subcommand option" where
  "subcommandFromString s = table_from_string subcommand_table s"

interpretation subcommand_names: name_table subcommand_table
proof unfold_locales
  show "v \<in> fst ` set subcommand_table" for v by (cases v) (simp_all add: subcommand_table_def)
qed (simp_all add: subcommand_table_def)

lemma subcommandFromString_inverse [simp]: "subcommandFromString (subcommandToString s) = Some s"
  by (simp add: subcommandFromString_def subcommandToString_def subcommand_names.from_to)

record ctl_args =
  ca_sub :: subcommand
  ca_watch_pid :: u32
  ca_phase :: string
  ca_format :: format
  ca_fail_on :: severity

definition default_ctl_args :: ctl_args where
  "default_ctl_args =
     \<lparr>ca_sub = SubPing, ca_watch_pid = 0, ca_phase = [], ca_format = Markdown, ca_fail_on = SevNone\<rparr>"

text \<open>
  The lambda \<open>optionValue\<close>: \<^const>\<open>None\<close> if \<open>a\<close> is not the option, otherwise its value and
  the arguments left. An option by itself takes the next argument.
\<close>

definition optionValue :: "string \<Rightarrow> string \<Rightarrow> string list \<Rightarrow> (string \<times> string list) option" where
  "optionValue a name rest =
     (if a = name then Some (shift_arg rest)
      else if starts_with a name \<and> length name < length a \<and> a ! length name = CHR ''=''
      then Some (drop (length name + 1) a, rest)
      else None)"

lemma optionValue_shorter: "optionValue a name rest = Some (v, rest') \<Longrightarrow> length rest' \<le> length rest"
  by (auto simp: optionValue_def split: if_splits dest: shift_arg_shorter)

function ctl_parse_loop :: "string list \<Rightarrow> nat \<Rightarrow> ctl_args \<Rightarrow> usage_exit + ctl_args" where
  "ctl_parse_loop args pos_idx ret =
     (case args of
        [] \<Rightarrow> Inr ret
      | arg # rest \<Rightarrow>
          if arg = [] then Inr ret
          else
            (case optionValue arg ''--format'' rest of
               Some (value, rest') \<Rightarrow>
                 if value = [] then usage_fail ''--format requires an argument''
                 else (case formatFromString value of
                         None \<Rightarrow> usage_fail (''invalid --format value: '' @ value)
                       | Some f \<Rightarrow> ctl_parse_loop rest' pos_idx (ret\<lparr>ca_format := f\<rparr>))
             | None \<Rightarrow>
            (case optionValue arg ''--fail-on'' rest of
               Some (value, rest') \<Rightarrow>
                 if value = [] then usage_fail ''--fail-on requires an argument''
                 else (case severityFromString value of
                         None \<Rightarrow> usage_fail (''invalid --fail-on value: '' @ value)
                       | Some s \<Rightarrow> ctl_parse_loop rest' pos_idx (ret\<lparr>ca_fail_on := s\<rparr>))
             | None \<Rightarrow>
                 if \<not> starts_with arg ''-'' then
                   ctl_parse_loop rest (pos_idx + 1)
                     (if ca_sub ret = SubStartPhase then
                        (if pos_idx = 0 then ret\<lparr>ca_watch_pid := from_chars_u32 arg (ca_watch_pid ret)\<rparr>
                         else if pos_idx = 1 then ret\<lparr>ca_phase := arg\<rparr>
                         else ret)
                      else ret)
                 else ctl_parse_loop rest pos_idx ret)))"
  by pat_completeness auto
termination
  by (relation "measure (\<lambda>(args, _, _). length args)") (auto dest: optionValue_shorter)

declare ctl_parse_loop.simps [simp del]

text \<open>What \<open>usage()\<close> prints on stdout before it ends the process.\<close>

definition ctl_usageText :: string where
  "ctl_usageText =
     ''Usage: blastguardctl <subcommand> [options]'' @ [LF] @
     [LF] @
     ''Subcommands:'' @ [LF] @
     ''  ping                                     - health check'' @ [LF] @
     ''  start-phase <PID> <NAME>                 - register watched root pid'' @ [LF] @
     ''  end-phase                                - finalise findings'' @ [LF] @
     ''  report [--format <fmt>] [--fail-on <s>]  - render report (fmt: markdown|json)'' @ [LF] @
     ''  shutdown                                 - stop the daemon'' @ [LF]"

definition ctl_parseArgs :: "string list \<Rightarrow> usage_exit + ctl_args" where
  "ctl_parseArgs argv =
     (if length argv < 2 then usage_fail []
      else (case subcommandFromString (argv ! 1) of
              None \<Rightarrow> usage_fail (''unknown subcommand: '' @ argv ! 1)
            | Some sub \<Rightarrow> ctl_parse_loop (drop 2 argv) 0 (default_ctl_args\<lparr>ca_sub := sub\<rparr>)))"

section \<open>Steps of the loop\<close>

lemma ctl_parse_Nil: "ctl_parse_loop [] n ret = Inr ret"
  by (simp add: ctl_parse_loop.simps)

lemma ctl_parse_empty: "ctl_parse_loop ([] # rest) n ret = Inr ret"
  by (simp add: ctl_parse_loop.simps)

lemma optionValue_eq: "optionValue (name @ ''='' @ v) name rest = Some (v, rest)"
  by (simp add: optionValue_def nth_append)

lemma optionValue_next: "optionValue name name (v # rest) = Some (v, rest)"
  by (simp add: optionValue_def)

lemma optionValue_positional:
  "\<not> starts_with a ''-'' \<Longrightarrow> starts_with name ''-'' \<Longrightarrow> optionValue a name rest = None"
  by (auto simp: optionValue_def starts_with_iff)

lemma ctl_parse_positional:
  assumes "a \<noteq> []" "\<not> starts_with a ''-''"
  shows "ctl_parse_loop (a # rest) n ret =
     ctl_parse_loop rest (n + 1)
       (if ca_sub ret = SubStartPhase then
          (if n = 0 then ret\<lparr>ca_watch_pid := from_chars_u32 a (ca_watch_pid ret)\<rparr>
           else if n = 1 then ret\<lparr>ca_phase := a\<rparr> else ret)
        else ret)"
  using assms optionValue_positional [OF assms(2), of "''--format''" rest]
    optionValue_positional [OF assms(2), of "''--fail-on''" rest]
  by (subst ctl_parse_loop.simps) (simp add: starts_with_def)

lemma ctl_parse_format:
  assumes "optionValue a ''--format'' rest = Some (formatToString f, rest')" "a \<noteq> []"
  shows "ctl_parse_loop (a # rest) n ret = ctl_parse_loop rest' n (ret\<lparr>ca_format := f\<rparr>)"
  using assms by (subst ctl_parse_loop.simps) (simp add: formatToString_chars)

lemma ctl_parse_fail_on:
  assumes "optionValue a ''--fail-on'' rest = Some (severityToString s, rest')"
    "optionValue a ''--format'' rest = None" "a \<noteq> []"
  shows "ctl_parse_loop (a # rest) n ret = ctl_parse_loop rest' n (ret\<lparr>ca_fail_on := s\<rparr>)"
  using assms by (subst ctl_parse_loop.simps) (simp add: severityToString_chars)

lemma dec_nat_positional: "dec_nat n \<noteq> [] \<and> \<not> starts_with (dec_nat n) ''-''"
proof -
  have "\<not> is_digit CHR ''-''" by (simp add: is_digit_def)
  then have "CHR ''-'' \<notin> set (dec_nat n)" by (rule dec_nat_no_char)
  then show ?thesis by (auto simp: starts_with_iff)
qed

text \<open>The command lines the README documents.\<close>

lemma ctl_parse_start_phase:
  assumes "phase \<noteq> []" "\<not> starts_with phase ''-''"
  shows "ctl_parseArgs [prog, ''start-phase'', dec_u32 pid, phase] =
    Inr \<lparr>ca_sub = SubStartPhase, ca_watch_pid = pid, ca_phase = phase, ca_format = Markdown,
         ca_fail_on = SevNone\<rparr>"
proof -
  have "subcommandFromString ''start-phase'' = Some SubStartPhase"
    by (simp add: subcommandFromString_def subcommand_table_def)
  then show ?thesis
    using assms dec_nat_positional [of "unat pid"]
    by (simp add: ctl_parseArgs_def ctl_parse_positional ctl_parse_Nil default_ctl_args_def)
qed

lemma ctl_parse_report:
  "ctl_parseArgs [prog, ''report'', ''--format'', formatToString f, ''--fail-on'', severityToString s] =
    Inr \<lparr>ca_sub = SubReport, ca_watch_pid = 0, ca_phase = [], ca_format = f, ca_fail_on = s\<rparr>"
proof -
  have sub: "subcommandFromString ''report'' = Some SubReport"
    by (simp add: subcommandFromString_def subcommand_table_def)
  have fm: "ctl_parse_loop [''--format'', formatToString f, ''--fail-on'', severityToString s] 0 ret =
      ctl_parse_loop [''--fail-on'', severityToString s] 0 (ret\<lparr>ca_format := f\<rparr>)" for ret
    by (rule ctl_parse_format) (simp_all add: optionValue_next)
  have fo: "ctl_parse_loop [''--fail-on'', severityToString s] 0 ret =
      ctl_parse_loop [] 0 (ret\<lparr>ca_fail_on := s\<rparr>)" for ret
    by (rule ctl_parse_fail_on) (simp_all add: optionValue_def starts_with_def)
  show ?thesis
    by (simp add: ctl_parseArgs_def sub fm fo ctl_parse_Nil default_ctl_args_def)
qed

lemma ctl_parse_report_eq:
  "ctl_parseArgs [prog, ''report'', ''--format='' @ formatToString f, ''--fail-on='' @ severityToString s] =
    Inr \<lparr>ca_sub = SubReport, ca_watch_pid = 0, ca_phase = [], ca_format = f, ca_fail_on = s\<rparr>"
proof -
  have sub: "subcommandFromString ''report'' = Some SubReport"
    by (simp add: subcommandFromString_def subcommand_table_def)
  have fm: "ctl_parse_loop [''--format='' @ formatToString f, ''--fail-on='' @ severityToString s] 0 ret =
      ctl_parse_loop [''--fail-on='' @ severityToString s] 0 (ret\<lparr>ca_format := f\<rparr>)" for ret
    by (rule ctl_parse_format) (use optionValue_eq [of "''--format''"] in simp_all)
  have fo: "ctl_parse_loop [''--fail-on='' @ severityToString s] 0 ret =
      ctl_parse_loop [] 0 (ret\<lparr>ca_fail_on := s\<rparr>)" for ret
    by (rule ctl_parse_fail_on)
      (use optionValue_eq [of "''--fail-on''"] in \<open>simp_all add: optionValue_def starts_with_def\<close>)
  show ?thesis
    using sub fm fo by (simp add: ctl_parseArgs_def ctl_parse_Nil default_ctl_args_def)
qed

section \<open>Properties\<close>

text \<open>
  The client reads back what the README's command lines say: the process and the phase of
  \<open>start-phase\<close>, the format and the severity of \<open>report\<close>, in both forms of an option.
\<close>

theorem ctl_command_lines:
  assumes "phase \<noteq> []" "\<not> starts_with phase ''-''"
  shows "ctl_parseArgs [prog, ''start-phase'', dec_u32 pid, phase] =
      Inr (default_ctl_args\<lparr>ca_sub := SubStartPhase, ca_watch_pid := pid, ca_phase := phase\<rparr>) \<and>
    ctl_parseArgs [prog, ''report'', ''--format'', formatToString f, ''--fail-on'', severityToString s] =
      Inr (default_ctl_args\<lparr>ca_sub := SubReport, ca_format := f, ca_fail_on := s\<rparr>) \<and>
    ctl_parseArgs [prog, ''report'', ''--format='' @ formatToString f, ''--fail-on='' @ severityToString s] =
      Inr (default_ctl_args\<lparr>ca_sub := SubReport, ca_format := f, ca_fail_on := s\<rparr>)"
  unfolding ctl_parse_report ctl_parse_report_eq ctl_parse_start_phase [OF assms]
  by (simp add: default_ctl_args_def)

lemma ctl_command_lines_witness:
  "ctl_parseArgs [''blastguardctl'', ''report'', ''--format=json'', ''--fail-on=high''] =
     Inr (default_ctl_args\<lparr>ca_sub := SubReport, ca_format := Json, ca_fail_on := SevHigh\<rparr>)"
  using ctl_command_lines [of "''ci''" "''blastguardctl''" 1 Json SevHigh]
  by (simp add: starts_with_def formatToString_def format_table_def severityToString_def severity_table_def)

end
