(* ===== verification/Ctl_Main.thy ===== *)
theory Ctl_Main
  imports Ctl_Args Io
begin

text \<open>
  The client program \<open>blastguardctl\<close>: \<open>sendRaw\<close> of \<^verbatim>\<open>src/common/proto.cpp\<close> and the five
  subcommands of \<^verbatim>\<open>src/ctl/main.cpp\<close>. What the system calls of the client return is the
  record \<open>client_env\<close>; what it reads may depend on the bytes it has sent. A subcommand gives
  the exit status, what it prints on stdout and the bytes it sends; \<^const>\<open>None\<close> is a client
  still waiting, or killed by \<open>SIGPIPE\<close>. Messages on stderr are left out.
\<close>

record client_env =
  ce_socket :: bool \<comment> \<open>\<open>socket\<close> gives a descriptor\<close>
  ce_connect :: bool \<comment> \<open>\<open>connect\<close> succeeds\<close>
  ce_write :: "write_result list"
  ce_read :: "string \<Rightarrow> read_result list" \<comment> \<open>once these bytes are sent and \<open>shutdown\<close> is called\<close>

text \<open>The bytes sent, and the reply. The result of neither loop is looked at.\<close>

definition sendRaw :: "client_env \<Rightarrow> string \<Rightarrow> (string \<times> string) option" where
  "sendRaw env wire =
     (if \<not> ce_socket env then Some ([], [])
      else if \<not> ce_connect env then Some ([], [])
      else let buf = wire @ [LF] in
        if sigpipe (ce_write env) buf then None
        else (case writeAll (ce_write env) buf [] of
                None \<Rightarrow> None
              | Some (_, sent, _) \<Rightarrow>
                  (case readAll (ce_read env sent) [] (max_line * 4) of
                     None \<Rightarrow> None
                   | Some (_, reply, _) \<Rightarrow> Some (sent, reply))))"

text \<open>The bytes sent, and the response or the error.\<close>

definition ctl_command :: "client_env \<Rightarrow> (string \<Rightarrow> 'r option) \<Rightarrow> request \<Rightarrow> (string \<times> (error + 'r)) option" where
  "ctl_command env dec req =
     map_option (\<lambda>(sent, raw). (sent, sendCommand dec raw)) (sendRaw env (encode_request req))"

section \<open>Subcommands\<close>

type_synonym ctl_exit = "int \<times> string \<times> string"

definition doPing :: "client_env \<Rightarrow> ctl_exit option" where
  "doPing env =
     map_option (\<lambda>(sent, resp). case resp of Inl err \<Rightarrow> (1, [], sent) | Inr _ \<Rightarrow> (0, ''PONG'' @ [LF], sent))
       (ctl_command env decode_pong PingRequest)"

definition doStartPhase :: "client_env \<Rightarrow> ctl_args \<Rightarrow> ctl_exit option" where
  "doStartPhase env args =
     (if ca_watch_pid args = 0 \<or> ca_phase args = [] then Some (2, [], [])
      else map_option (\<lambda>(sent, resp). case resp of Inl err \<Rightarrow> (1, [], sent) | Inr _ \<Rightarrow> (0, ''OK'' @ [LF], sent))
             (ctl_command env decode_ok (StartPhaseRequest (ca_watch_pid args) (ca_phase args))))"

definition doEndPhase :: "client_env \<Rightarrow> ctl_exit option" where
  "doEndPhase env =
     map_option (\<lambda>(sent, resp). case resp of Inl err \<Rightarrow> (1, [], sent) | Inr _ \<Rightarrow> (0, ''OK'' @ [LF], sent))
       (ctl_command env decode_ok EndPhaseRequest)"

definition doReport :: "client_env \<Rightarrow> ctl_args \<Rightarrow> ctl_exit option" where
  "doReport env args =
     map_option (\<lambda>(sent, resp). case resp of
         Inl err \<Rightarrow> (1, [], sent)
       | Inr r \<Rightarrow>
           (if ca_fail_on args \<noteq> SevNone \<and> ca_fail_on args \<le> max_severity r then 1 else 0, body r, sent))
       (ctl_command env decode_report (ReportRequest (ca_format args)))"

definition doShutdown :: "client_env \<Rightarrow> ctl_exit option" where
  "doShutdown env =
     map_option (\<lambda>(sent, resp). case resp of Inl err \<Rightarrow> (1, [], sent) | Inr _ \<Rightarrow> (0, ''OK'' @ [LF], sent))
       (ctl_command env decode_ok ShutdownRequest)"

definition ctl_main :: "client_env \<Rightarrow> string list \<Rightarrow> ctl_exit option" where
  "ctl_main env argv =
     (case ctl_parseArgs argv of
        Inl (Usage msg code) \<Rightarrow> Some (code, ctl_usageText @ [LF], [])
      | Inr args \<Rightarrow>
          (case ca_sub args of
             SubPing \<Rightarrow> doPing env
           | SubStartPhase \<Rightarrow> doStartPhase env args
           | SubEndPhase \<Rightarrow> doEndPhase env
           | SubReport \<Rightarrow> doReport env args
           | SubShutdown \<Rightarrow> doShutdown env))"

section \<open>Exchanges\<close>

text \<open>
  A client that reaches the daemon and whose writes take the bytes \<open>req\<close>, to which the daemon
  then delivers \<open>wire\<close> and closes the connection.
\<close>

definition receives :: "client_env \<Rightarrow> string \<Rightarrow> string \<Rightarrow> bool" where
  "receives env req wire \<longleftrightarrow> ce_socket env \<and> ce_connect env \<and>
     (\<exists>ws. writeAll (ce_write env) req [] = Some (True, req, ws)) \<and>
     chunks_ok chunk_size (ce_read env req) \<and> Delivered [] \<in> set (ce_read env req) \<and>
     delivered (ce_read env req) = wire"

lemma sendRaw_receives:
  assumes "receives env (req @ [LF]) wire"
  shows "\<exists>reply rest. sendRaw env req = Some (req @ [LF], reply) \<and> wire = reply @ rest \<and>
    (length wire < max_line * 4 \<longrightarrow> rest = []) \<and> (max_line * 4 \<le> length wire \<longrightarrow> max_line * 4 \<le> length reply)"
proof -
  let ?r = "req @ [LF]"
  obtain ws where w: "writeAll (ce_write env) ?r [] = Some (True, ?r, ws)"
    using assms unfolding receives_def by blast
  then have sig: "\<not> sigpipe (ce_write env) ?r" using sigpipe_fails [of "ce_write env" ?r "[]"] by auto
  have ch: "chunks_ok chunk_size (ce_read env ?r)" and d: "delivered (ce_read env ?r) = wire"
    and e: "Delivered [] \<in> set (ce_read env ?r)" using assms by (simp_all add: receives_def)
  have send: "readAll (ce_read env ?r) [] (max_line * 4) = Some (ok, reply, ks) \<Longrightarrow>
      sendRaw env req = Some (?r, reply)" for ok reply ks
    using assms w sig by (simp add: sendRaw_def receives_def Let_def)
  show ?thesis
  proof (cases "length wire < max_line * 4")
    case True
    with readAll_complete [OF ch, of "[]" "max_line * 4"] e d send show ?thesis by fastforce
  next
    case False
    then obtain reply ks where r: "readAll (ce_read env ?r) [] (max_line * 4) = Some (True, reply, ks)"
      "max_line * 4 \<le> length reply"
      using readAll_cut [OF ch, of "max_line * 4" "[]"] d by auto
    with readAll_prefix [OF r(1) ch] False d send [OF r(1)] show ?thesis by auto
  qed
qed

lemma ctl_command_short:
  assumes "receives env (encode_request req @ [LF]) wire" "length wire < max_line * 4"
  shows "ctl_command env dec req = Some (encode_request req @ [LF], sendCommand dec wire)"
  using sendRaw_receives [OF assms(1)] assms(2) by (auto simp: ctl_command_def)

text \<open>Even of a reply that is cut off, the header arrives: the severity is always right.\<close>

lemma report_cut:
  assumes "encode_report r @ [LF] = reply @ rest" "32 \<le> length reply \<or> rest = []"
  obtains b where "reply = encode_report (r\<lparr>body := b\<rparr>)" "body r @ [LF] = b @ rest"
proof -
  define h where "h = ''MAX_SEVERITY: '' @ severityToString (max_severity r) @ [LF]"
  have len: "length h \<le> 32"
    by (cases "max_severity r") (simp_all add: h_def severityToString_def severity_table_def)
  have eq: "h @ body r @ [LF] = reply @ rest"
    using assms(1) by (simp add: h_def encode_report_def)
  have "length h \<le> length reply" using len assms(2) arg_cong [OF eq, of length] by auto
  then have "take (length h) reply = h" using arg_cong [OF eq, of "take (length h)"] by simp
  then have r: "reply = h @ drop (length h) reply" by (metis append_take_drop_id)
  moreover have "body r @ [LF] = drop (length h) reply @ rest"
    using eq by (subst (asm) r) simp
  ultimately show ?thesis
    using that [of "drop (length h) reply"] by (simp add: h_def encode_report_def)
qed

lemma ctl_command_report:
  assumes "receives env (encode_request req @ [LF]) (encode_report r @ [LF])"
  obtains b rest where "ctl_command env decode_report req = Some (encode_request req @ [LF], Inr (r\<lparr>body := b\<rparr>))"
    "body r @ [LF] = b @ rest" "length (encode_report r @ [LF]) < max_line * 4 \<longrightarrow> rest = []"
proof -
  obtain reply rest where s: "sendRaw env (encode_request req) = Some (encode_request req @ [LF], reply)"
    "encode_report r @ [LF] = reply @ rest"
    "length (encode_report r @ [LF]) < max_line * 4 \<longrightarrow> rest = []"
    "max_line * 4 \<le> length (encode_report r @ [LF]) \<longrightarrow> max_line * 4 \<le> length reply"
    using sendRaw_receives [OF assms] by blast
  have "32 \<le> length reply \<or> rest = []"
    using s(3,4) by (cases "length (encode_report r @ [LF]) < max_line * 4") (auto simp: max_line_def)
  from report_cut [OF s(2) this] obtain b where
    b: "reply = encode_report (r\<lparr>body := b\<rparr>)" "body r @ [LF] = b @ rest" .
  have "sendCommand decode_report reply = Inr (r\<lparr>body := b\<rparr>)"
    using sendCommand_report [of "r\<lparr>body := b\<rparr>" "[]"] by (simp add: b(1))
  then have "ctl_command env decode_report req = Some (encode_request req @ [LF], Inr (r\<lparr>body := b\<rparr>))"
    by (simp add: ctl_command_def s(1))
  from that [OF this b(2) s(3)] show ?thesis .
qed

text \<open>An error reply is an error to the client, also if it is more than a line.\<close>

lemma sendCommand_ERR:
  "\<exists>e. sendCommand dec (reply_error @ '' '' @ t) = Inl e"
proof -
  define raw where "raw = reply_error @ '' '' @ t"
  have "(case find_char LF raw of None \<Rightarrow> raw | Some nl \<Rightarrow> take nl raw) =
      (reply_error @ '' '') @ takeWhile (\<lambda>c. c \<noteq> LF) t"
    unfolding find_char_takeWhile by (simp add: raw_def wire_words)
  then have "decodeError raw \<noteq> None"
    by (simp add: decodeError_def Let_def starts_with_def)
  then show ?thesis by (auto simp: sendCommand_def raw_def wire_words)
qed

lemma error_cut:
  assumes "(reply_error @ '' '' @ why) @ [LF] = raw @ rest" "4 \<le> length raw \<or> rest = []"
  shows "\<exists>t. raw = reply_error @ '' '' @ t"
proof -
  have "4 \<le> length raw" using assms(2) arg_cong [OF assms(1), of length] by (auto simp: wire_words)
  then have "take 4 raw = reply_error @ '' ''"
    using arg_cong [OF assms(1), of "take 4"] by (simp add: wire_words)
  then show ?thesis by (metis append_take_drop_id append_assoc)
qed


end
