(* ===== verification/System.thy ===== *)
theory System
  imports Daemon_Server Ctl_Main
begin

text \<open>
  The system: the daemon with the maps it shares with the kernel, and the steps that change
  them. A step is one whole kernel program run for some process, or one event the daemon is done
  with; they follow each other in any order. The reachable states keep
  \<open>daemon_inv\<close>, from which the safety properties of the whole follow.
\<close>

section \<open>Steps\<close>

inductive sys_step :: "daemon \<Rightarrow> daemon \<Rightarrow> bool" where
  step_program: "program_ok p \<Longrightarrow> sys_step d (d\<lparr>m_bpf := run_program p (m_bpf d)\<rparr>)"
| step_ready: "event_ok ev \<Longrightarrow> handle_ready ev d = Some d' \<Longrightarrow> sys_step d d'"

inductive reachable :: "daemon \<Rightarrow> daemon \<Rightarrow> bool" for d0 where
  reach_init: "reachable d0 d0"
| reach_step: "reachable d0 d \<Longrightarrow> sys_step d d' \<Longrightarrow> reachable d0 d'"

section \<open>The invariant\<close>

lemma sys_step_inv:
  assumes "sys_step d d'" "daemon_inv d"
  shows "daemon_inv d' \<and> config d' = config d"
  using assms(1)
proof (cases rule: sys_step.cases)
  case (step_program p)
  have "bpf_inv (enforce_mode d) (run_program p (m_bpf d))"
    using run_program_inv [OF step_program(2)] assms(2) by (simp add: daemon_inv_def)
  then show ?thesis
    using step_program assms(2) idle_program [of "m_bpf d" p]
    by (auto simp: daemon_inv_def enforce_mode_def config_def run_program_config)
next
  case step_ready
  then show ?thesis using handle_ready_inv [OF _ _ assms(2)] by blast
qed

lemma reachable_inv: "reachable d0 d \<Longrightarrow> daemon_inv d0 \<Longrightarrow> daemon_inv d \<and> config d = config d0"
  by (induction rule: reachable.induct) (auto dest: sys_step_inv)

section \<open>Start-up\<close>

lemma add_addrs_frame [simp]:
  "tracked_pids (add_addrs K as m) = tracked_pids m" "mode_config (add_addrs K as m) = mode_config m"
  "ring (add_addrs K as m) = ring m"
  by (induction as arbitrary: m) (simp_all add: add_addrs_def)

lemma setMode_result:
  assumes "kernel_ok K" "fst (setMode K md m)"
  shows "mode_config (snd (setMode K md m)) = (mode_config m)(0 \<mapsto> if md = Enforce then 1 else 0)"
  using bpf_map.update_ok [OF kernel_okD(3) [OF assms(1)]] assms(2)
  by (auto simp: setMode_def Let_def not_less split: prod.splits)

lemma daemon_init_started:
  assumes "daemon_init K mi ii ei (new_daemon args) = (True, d)"
  shows "fst (setMode K (da_mode args) loaded_maps)"
    and "m_allowlist d = add_hosts K (da_allowed_hosts args) []"
    and "m_args d = args" "m_session d = new_session"
    and "m_bpf d = (let b = snd (setMode K (da_mode args) loaded_maps)
           in if da_mode args = Enforce then add_addrs K (m_allowlist d) b else b)"
  using assms by (auto simp: daemon_init_def new_daemon_def Let_def addrs_def split: if_splits prod.splits)

lemma daemon_init_inv:
  assumes "kernel_ok K" "daemon_init K mi ii ei (new_daemon args) = (True, d)"
  shows "daemon_inv d"
proof -
  note st = daemon_init_started [OF assms(2)]
  have b: "tracked_pids (m_bpf d) = Map.empty" "ring (m_bpf d) = []"
    "mode_config (m_bpf d) = [0 \<mapsto> if da_mode args = Enforce then 1 else 0]"
    using setMode_result [OF assms(1) st(1)]
    by (cases "da_mode args"; simp add: st(5) Let_def loaded_maps_def)+
  then show ?thesis
    using st(3,4) by (simp add: daemon_inv_def bpf_inv_def enforcing_def enforce_mode_def new_session_def)
qed

text \<open>The kernel's allowlist is the daemon's, if it has room for it.\<close>

lemma add_addrs_room:
  assumes "k_allow_update K = hash_update cap"
  shows "card (dom (bpf_allowlist m)) + length as \<le> cap \<Longrightarrow>
    bpf_allowlist (add_addrs K as m) = fold kernel_add as (bpf_allowlist m)"
proof (induction as arbitrary: m)
  case Nil
  then show ?case by (simp add: add_addrs_def)
next
  case (Cons a as)
  let ?m = "snd (addAllowedAddr K a m)"
  have m: "bpf_allowlist ?m = kernel_add a (bpf_allowlist m)"
    using Cons.prems by (auto simp: addAllowedAddr_def assms hash_update_def kernel_add_def)
  have "card (dom (bpf_allowlist ?m)) \<le> Suc (card (dom (bpf_allowlist m)))"
    by (cases "finite (dom (bpf_allowlist m))") (simp_all add: m kernel_add_def card_insert_if)
  then have "bpf_allowlist (add_addrs K as ?m) = fold kernel_add as (bpf_allowlist ?m)"
    using Cons by simp
  then show ?case by (simp add: add_addrs_def m)
qed

definition lists_agree :: "daemon \<Rightarrow> bool" where
  "lists_agree d \<longleftrightarrow> (\<forall>a. kernel_has (bpf_allowlist (m_bpf d)) a \<longleftrightarrow> contains_v6 (m_allowlist d) a)"

lemma lists_agree_config: "config d' = config d \<Longrightarrow> lists_agree d' = lists_agree d"
  by (simp add: lists_agree_def config_def)

lemma daemon_init_agree:
  assumes "daemon_init K mi ii ei (new_daemon args) = (True, d)" "da_mode args = Enforce"
    and "k_allow_update K = hash_update allowlist_entries" "length (m_allowlist d) \<le> allowlist_entries"
  shows "lists_agree d"
proof -
  note st = daemon_init_started [OF assms(1)]
  have "bpf_allowlist (m_bpf d) = fold kernel_add (m_allowlist d) Map.empty"
    using add_addrs_room [OF assms(3), of "snd (setMode K (da_mode args) loaded_maps)" "m_allowlist d"] assms(2,4)
    by (simp add: st(5) Let_def loaded_maps_def)
  then show ?thesis
    unfolding lists_agree_def by (simp add: kernel_addrs.has_fold) (simp add: kernel_has_def contains_v6_def)
qed

section \<open>From the kernel to the session\<close>

text \<open>What becomes of the one sample a kernel program has submitted.\<close>

lemma consume_single:
  "ring (m_bpf d) = [bs] \<Longrightarrow> consume K d = onEvent K bs (d\<lparr>m_bpf := (m_bpf d)\<lparr>ring := []\<rparr>\<rparr>)"
  by (simp add: consume_def split: Option.bind_split)

lemma event_package_tokens [simp]: "event_package pid k (setPidTokens q m s) = event_package pid k s"
  by (simp add: event_package_def pidPackage_def session_simps)

lemma packageName_tokens [simp]: "packageName i (setPidTokens q m s) = packageName i s"
  by (simp add: packageName_def session_simps)

text \<open>The names of the tokens an environment sets.\<close>

definition env_tokens :: "string list \<Rightarrow> string set" where
  "env_tokens es = {t_name t | t. t \<in> set token_table \<and> (\<exists>e \<in> set es. starts_with e (t_prefix t))}"

lemma tokensFromMask_entries: "set (tokensFromMask (tokens_of_entries es)) = env_tokens es"
proof -
  have "n \<in> set (tokensFromMask (tokens_of_entries es)) \<longleftrightarrow> n \<in> env_tokens es" for n
    unfolding tokensFromMask_iff env_tokens_def using has_token_entries [of _ es] by blast
  then show ?thesis by blast
qed

text \<open>The finding about a dangerous binary, whichever way its process got its package.\<close>

lemma exec_owner_finding:
  assumes "exec_lens_ok e" "m_active (m_session d)" "event_comm e \<in> set dangerous_basenames"
    and own: "exec_owner K e (exec_mask e) d = (p, d1)" and "p \<noteq> 0"
    and "exec_phase e = Some phase" "phase \<in> set lifecycle_phases"
  shows "\<exists>d' f. onExecEvent K e d = Some d' \<and> m_session d' = addFinding f (m_session d1) \<and>
    f_severity f = SevHigh \<and> f_pid f = h_pid (ex_hdr e) \<and> f_package f = packageName p (m_session d1) \<and>
    f_lifecycle_phase f = phase \<and>
    (if env_tokens (exec_env e) - {''GITHUB_TOKEN''} \<noteq> {}
     then f_rule_id f = TokenBearingDownloader \<and> set (f_tokens_exposed f) = env_tokens (exec_env e)
     else f_rule_id f = UnexpectedBinary \<and> f_tokens_exposed f = [])"
proof -
  let ?argv = "join_args (shown_args (exec_args e))"
  have ng: "hasNonGithubToken (exec_mask e) \<longleftrightarrow> env_tokens (exec_env e) - {''GITHUB_TOKEN''} \<noteq> {}"
    by (auto simp: hasNonGithubToken_iff exec_mask_def tokensFromMask_entries)
  have tok: "set (tokensFromMask (exec_mask e)) = env_tokens (exec_env e)"
    by (simp add: exec_mask_def tokensFromMask_entries)
  have "m_session (exec_body K e ?argv (exec_mask e) (exec_phase e) d) =
      onExec e ?argv (exec_mask e) p (packageName p (m_session d1)) phase (m_session d1)"
    using assms(5,6) by (simp add: exec_body_session own package_label_def)
  moreover have "isActive (m_session d1)"
    using assms(2) exec_owner_frame(6) [of K e "exec_mask e" d] own by (simp add: isActive_def)
  ultimately show ?thesis
    using assms(3,5,7) tok
    by (simp add: onExecEvent_eq [OF assms(1)] onExec_def Let_def isDangerousBasename_iff
        isLifecyclePhase_iff ng default_finding_def)
qed

lemma exec_handler_finding:
  assumes "exec_lens_ok e" "m_active (m_session d)" "event_comm e \<in> set dangerous_basenames"
    and p: "event_package (h_pid (ex_hdr e)) (ex_package_id e) (m_session d) = p" "p \<noteq> 0"
    and "exec_phase e = Some phase" "phase \<in> set lifecycle_phases"
  shows "\<exists>d' f. onExecEvent K e d = Some d' \<and>
    m_session d' = addFinding f (setPidTokens (h_pid (ex_hdr e)) (exec_mask e) (m_session d)) \<and>
    f_severity f = SevHigh \<and> f_pid f = h_pid (ex_hdr e) \<and> f_package f = packageName p (m_session d) \<and>
    f_lifecycle_phase f = phase \<and>
    (if env_tokens (exec_env e) - {''GITHUB_TOKEN''} \<noteq> {}
     then f_rule_id f = TokenBearingDownloader \<and> set (f_tokens_exposed f) = env_tokens (exec_env e)
     else f_rule_id f = UnexpectedBinary \<and> f_tokens_exposed f = [])"
proof -
  have own: "exec_owner K e (exec_mask e) d =
      (p, d\<lparr>m_session := setPidTokens (h_pid (ex_hdr e)) (exec_mask e) (m_session d)\<rparr>)"
    using p by (simp add: exec_owner_def Let_def)
  show ?thesis using exec_owner_finding [OF assms(1-3) own p(2) assms(6,7)] by simp
qed

text \<open>What the exec program submits, as the entries of the environment it copied.\<close>

lemma on_exec_entries:
  assumes "tracked_pids m pid = Some info" "sizeof_event_exec \<le> length mem" "task_ok t"
    and "\<forall>e \<in> set env. NUL \<notin> set e"
    and "tx_user t (tx_env_start t) (area_len env_max (tx_env_start t) (tx_env_end t)) = nul_block env"
    and "0 < area_len env_max (tx_env_start t) (tx_env_end t)"
  shows "\<exists>e. ring (on_exec (Some mem) now pid t m) = ring m @ [write_exec e] \<and> wf_exec e \<and>
     exec_lens_ok e \<and> h_pid (ex_hdr e) = pid \<and> h_type (ex_hdr e) = event_type_exec \<and>
     ex_package_id e = tp_package_id info \<and> ex_comm e = tx_comm t \<and> exec_env e = env"
proof -
  from on_exec_event [OF assms(1-3), of now] obtain e where
    e: "ring (on_exec (Some mem) now pid t m) = ring m @ [write_exec e]" "wf_exec e" "exec_lens_ok e"
      "h_pid (ex_hdr e) = pid" "h_type (ex_hdr e) = event_type_exec" "ex_package_id e = tp_package_id info"
      "ex_comm e = tx_comm t"
      "take (unat (ex_env_len e)) (ex_env e) =
         (let n = area_len env_max (tx_env_start t) (tx_env_end t)
          in if 0 < n then tx_user t (tx_env_start t) n else [])" by blast
  then have "exec_env e = env"
    using assms(5,6) by (simp add: exec_env_def split_nul_block [OF assms(4)])
  with e show ?thesis by blast
qed

text \<open>From the memory of the process to the finding.\<close>

lemma exec_reported:
  assumes "m_active (m_session d)" "ring (m_bpf d) = []" "tracked_pids (m_bpf d) pid = Some info"
    and "length mem = sizeof_event_exec" "task_ok t"
    and "event_package pid (tp_package_id info) (m_session d) = p" "p \<noteq> 0"
    and "takeWhile (\<lambda>c. c \<noteq> NUL) (tx_comm t) \<in> set dangerous_basenames"
    and "0 < area_len env_max (tx_env_start t) (tx_env_end t)"
    and "tx_user t (tx_env_start t) (area_len env_max (tx_env_start t) (tx_env_end t)) = nul_block env"
    and "\<forall>e \<in> set env. NUL \<notin> set e"
    and "first_value lifecycle_key env = Some phase" "phase \<in> set lifecycle_phases"
  shows "\<exists>d' f. consume K (d\<lparr>m_bpf := on_exec (Some mem) now pid t (m_bpf d)\<rparr>) = Some d' \<and>
    m_findings (m_session d') = m_findings (m_session d) @ [f] \<and> f_severity f = SevHigh \<and> f_pid f = pid \<and>
    f_package f = packageName p (m_session d) \<and> f_lifecycle_phase f = phase \<and>
    (if env_tokens env - {''GITHUB_TOKEN''} \<noteq> {}
     then f_rule_id f = TokenBearingDownloader \<and> set (f_tokens_exposed f) = env_tokens env
     else f_rule_id f = UnexpectedBinary) \<and>
    env_tokens env - {''GITHUB_TOKEN''} \<subseteq> set (rotationTokens (m_session d'))"
proof -
  have "sizeof_event_exec \<le> length mem" using assms(4) by simp
  from on_exec_entries [OF assms(3) this assms(5,11,10,9), of now] assms(2) obtain e where
    e: "ring (on_exec (Some mem) now pid t (m_bpf d)) = [write_exec e]" "wf_exec e" "exec_lens_ok e"
      "h_pid (ex_hdr e) = pid" "h_type (ex_hdr e) = event_type_exec" "ex_package_id e = tp_package_id info"
      "ex_comm e = tx_comm t" "exec_env e = env" by auto
  let ?m = "on_exec (Some mem) now pid t (m_bpf d)"
  let ?d = "d\<lparr>m_bpf := ?m\<lparr>ring := []\<rparr>\<rparr>"
  have comm: "event_comm e = takeWhile (\<lambda>c. c \<noteq> NUL) (tx_comm t)"
    using assms(5) e(7) by (simp add: event_comm_def task_ok_def)
  have run: "consume K (d\<lparr>m_bpf := ?m\<rparr>) = onExecEvent K e ?d"
    using consume_single [of "d\<lparr>m_bpf := ?m\<rparr>"] e by (simp add: onEvent_exec)
  have "exec_phase e = Some phase" using assms(12) e(8) by (simp add: exec_phase_def)
  then obtain d' f where f: "onExecEvent K e ?d = Some d'"
    "m_session d' = addFinding f (setPidTokens pid (exec_mask e) (m_session d))"
    "f_severity f = SevHigh" "f_pid f = pid" "f_package f = packageName p (m_session d)"
    "f_lifecycle_phase f = phase"
    "if env_tokens env - {''GITHUB_TOKEN''} \<noteq> {}
     then f_rule_id f = TokenBearingDownloader \<and> set (f_tokens_exposed f) = env_tokens env
     else f_rule_id f = UnexpectedBinary \<and> f_tokens_exposed f = []"
    using exec_handler_finding [of e ?d p phase K] assms(1,6-8,13) e comm by auto
  have "env_tokens env - {''GITHUB_TOKEN''} \<subseteq> set (rotationTokens (m_session d'))"
    using f by (auto simp: rotationTokens_iff findings_def session_simps split: if_splits)
  with run f show ?thesis by (auto simp: session_simps)
qed

text \<open>
  What a connection comes to once the daemon has read its sample: \<open>r\<close> is the verdict and the
  maps the kernel program leaves, \<open>key\<close> the address.
\<close>

definition connection_outcome :: "kernel \<Rightarrow> daemon \<Rightarrow> u32 \<Rightarrow> u32 \<Rightarrow> ipv6 \<Rightarrow> int \<times> bpf_maps \<Rightarrow> bool" where
  "connection_outcome K d pid p key r \<longleftrightarrow>
     (\<exists>d'. consume K (d\<lparr>m_bpf := snd r\<rparr>) = Some d' \<and>
       (if contains_v6 (m_allowlist d) key then m_findings (m_session d') = m_findings (m_session d)
        else \<exists>f. m_findings (m_session d') = m_findings (m_session d) @ [f] \<and> f_rule_id f = NonAllowlistedHost \<and>
          (f_blocked f \<longleftrightarrow> fst r = 0) \<and> f_pid f = pid \<and> f_package f = packageName p (m_session d)))"

lemma connect_finding:
  fixes now :: u64 and fam :: u8 and port :: u32
  assumes "ring (m_bpf d) = []" "m_active (m_session d)" "length mem = sizeof_event_connect"
    and "length key = 16"
    and p: "event_package pid (tp_package_id info) (m_session d) = p" "p \<noteq> 0"
  defines "r \<equiv> emit_connect (Some mem) now pid info fam key port (m_bpf d)"
  shows "connection_outcome K d pid p key r"
proof -
  have "sizeof_event_connect \<le> length mem" using assms(3) by simp
  from emit_connect_event [OF this assms(4), of now pid info fam port "m_bpf d"] obtain e where
    e: "ring (snd r) = [write_connect e]" "wf_connect e" "h_pid (cn_hdr e) = pid"
      "h_type (cn_hdr e) = event_type_connect" "cn_package_id e = tp_package_id info" "cn_addr e = key"
      "cn_blocked e \<noteq> 0 \<longleftrightarrow> fst r = 0"
    unfolding r_def assms(1) append_Nil by blast
  let ?d = "d\<lparr>m_bpf := (snd r)\<lparr>ring := []\<rparr>\<rparr>"
  have "consume K (d\<lparr>m_bpf := snd r\<rparr>) = Some (onConnectEvent K e ?d)"
    using consume_single [of "d\<lparr>m_bpf := snd r\<rparr>"] e by (simp add: onEvent_connect)
  then show ?thesis
    using assms(2,4) e p unfolding connection_outcome_def
    by (simp add: onConnectEvent_session onConnect_def Let_def isActive_def package_label_def
        default_finding_def session_simps)
qed

lemma on_connect_emit:
  "tracked_pids m pid = Some info \<Longrightarrow>
   on_connect4 sm now pid ip4 port m = emit_connect sm now pid info 4 (mapV4 ip4) port m"
  "tracked_pids m pid = Some info \<Longrightarrow>
   on_connect6 sm now pid (w0, w1, w2, w3) port m =
     emit_connect sm now pid info 6 (bytes32 w0 @ bytes32 w1 @ bytes32 w2 @ bytes32 w3) port m"
  by (simp_all add: on_connect4_def on_connect6_def mapV4_def Let_def)

end
