(* ===== verification/Session_Typing.thy ===== *)
theory Session_Typing
  imports System
begin

text \<open>
  The type of a session, beyond what its fields say: every token mask is made of bits of the
  table, and every finding has the fields its rule gives it. Every event and every request
  keeps both.
\<close>

section \<open>Events by what they do to the daemon\<close>

text \<open>The daemon reads the ring or serves a request.\<close>

lemma handle_ready_cases:
  assumes "handle_ready ev d = Some d'" "event_ok ev"
  obtains "d' = d"
  | K where "kernel_ok K" "consume K d = Some d'"
  | K r reply where "kernel_ok K" "visit_request (daemon_handlers K) r d = Some (reply, d')"
proof (cases ev)
  case (IpcReady K a)
  then have "d' = d \<or> (\<exists>r reply. visit_request (daemon_handlers K) r d = Some (reply, d'))"
    using assms(1) by (cases a) (auto simp: handleClient_def serve_line_def split: option.splits)
  then show ?thesis using that IpcReady assms(2) by auto
next
  case (RingReady K)
  then show ?thesis using that assms by simp
qed (use that assms in simp)

section \<open>Well-typed sessions\<close>

definition token_names :: "string set" where
  "token_names = t_name ` set token_table"

definition finding_typed :: "finding \<Rightarrow> bool" where
  "finding_typed f \<longleftrightarrow> distinct (f_tokens_exposed f) \<and> set (f_tokens_exposed f) \<subseteq> token_names \<and>
     (f_blocked f \<longrightarrow> f_rule_id f = NonAllowlistedHost) \<and>
     (case f_rule_id f of
        UnexpectedBinary \<Rightarrow>
          f_severity f = SevHigh \<and> f_tokens_exposed f = [] \<and> f_lifecycle_phase f \<in> set lifecycle_phases
      | NonAllowlistedHost \<Rightarrow>
          f_severity f = (if set (f_tokens_exposed f) \<subseteq> {''GITHUB_TOKEN''} then SevMedium else SevHigh) \<and>
          f_lifecycle_phase f = []
      | TokenBearingDownloader \<Rightarrow>
          f_severity f = SevHigh \<and> \<not> set (f_tokens_exposed f) \<subseteq> {''GITHUB_TOKEN''} \<and>
          f_lifecycle_phase f \<in> set lifecycle_phases
      | _ \<Rightarrow> f_severity f = SevHigh \<and> f_tokens_exposed f = [] \<and> f_lifecycle_phase f = [])"

definition masks_ok :: "session \<Rightarrow> bool" where
  "masks_ok s \<longleftrightarrow> (\<forall>pid. mask_ok (pidTokens pid s))"

definition session_typed :: "session \<Rightarrow> bool" where
  "session_typed s \<longleftrightarrow> masks_ok s \<and> (\<forall>f \<in> set (m_findings s). finding_typed f)"

lemma session_typed_new: "session_typed new_session"
  by (simp add: session_typed_def masks_ok_def pidTokens_def new_session_def mask_ok_def)

lemma session_typed_cong:
  "m_findings s = m_findings t \<Longrightarrow> m_pidTokens s = m_pidTokens t \<Longrightarrow> session_typed s = session_typed t"
  by (simp add: session_typed_def masks_ok_def pidTokens_def)

lemma tokens_typed: "set (tokensFromMask m) \<subseteq> token_names"
  by (auto simp: tokensFromMask_def token_names_def)

lemma has_other_token:
  "mask_ok m \<Longrightarrow> hasNonGithubToken m \<longleftrightarrow> \<not> set (tokensFromMask m) \<subseteq> {''GITHUB_TOKEN''}"
  by (auto simp: hasNonGithubToken_iff)

lemma session_typed_appends:
  assumes "appends finding_typed s t" "session_typed s"
  shows "session_typed t"
  using assms appends_frame(3) [OF assms(1)]
  by (auto simp: session_typed_def masks_ok_def pidTokens_def appends_def session_simps)

lemma onExec_typed: "mask_ok m \<Longrightarrow> appends finding_typed s (onExec e argv m pkg name phase s)"
  using tokens_typed [of m] tokensFromMask_distinct [of m] has_other_token [of m]
  by (simp add: onExec_def Let_def appends_add finding_typed_def default_finding_def isLifecyclePhase_iff)

lemma onConnect_typed: "masks_ok s \<Longrightarrow> appends finding_typed s (onConnect e ip allow pkg name s)"
  using tokens_typed [of "pidTokens (h_pid (cn_hdr e)) s"] tokensFromMask_distinct [of "pidTokens (h_pid (cn_hdr e)) s"]
    has_other_token [of "pidTokens (h_pid (cn_hdr e)) s"]
  by (simp add: onConnect_def Let_def appends_add finding_typed_def default_finding_def masks_ok_def)

lemma onOpen_typed: "appends finding_typed s (onOpen e path pkg name s)"
  by (auto simp: onOpen_def Let_def finding_typed_def default_finding_def)

section \<open>Events and requests\<close>

lemma exec_body_typed:
  assumes "mask_ok m" "session_typed (m_session d)"
  shows "session_typed (m_session (exec_body K e argv m po d))"
proof -
  obtain p d1 where o: "exec_owner K e m d = (p, d1)" by fastforce
  then have "m_findings (m_session d1) = m_findings (m_session d)"
    "m_pidTokens (m_session d1) = (m_pidTokens (m_session d))(h_pid (ex_hdr e) \<mapsto> m)"
    using exec_owner_frame(5,7) [of K e m d] by simp_all
  then have "session_typed (m_session d1)"
    using assms by (auto simp: session_typed_def masks_ok_def pidTokens_def)
  then show ?thesis
    by (simp add: exec_body_session o) (rule session_typed_appends [OF onExec_typed [OF assms(1)]])
qed

lemma onEvent_typed:
  assumes "onEvent K bs d = Some d'" "sample_ok bs" "session_typed (m_session d)"
  shows "session_typed (m_session d')"
proof -
  have "session_typed (m_session (onConnectEvent K e d))" for e
    by (simp add: onConnectEvent_session Let_def)
      (rule session_typed_appends [OF onConnect_typed], use assms(3) in \<open>simp_all add: session_typed_def\<close>)
  moreover have "session_typed (m_session (onForkEvent K e d))" for e
    using assms(3) by (subst session_typed_cong) simp_all
  moreover have "session_typed (m_session (onOpenEvent K e d))" for e
  proof -
    let ?p = "event_package (h_pid (op_hdr e)) (op_package_id e) (m_session d)"
    let ?s = "onOpen e (event_path e) ?p (package_label ?p (m_session d)) (m_session d)"
    have "session_typed ?s" by (rule session_typed_appends [OF onOpen_typed assms(3)])
    moreover have "session_typed (markExtracted pkg ?s) = session_typed ?s" for pkg
      by (rule session_typed_cong) (simp_all add: session_simps)
    ultimately show ?thesis by (simp add: onOpenEvent_session Let_def split: option.split)
  qed
  moreover have "session_typed (m_session d')"
    if "onExecEvent K (read_exec bs) d = Some d'" "exec_lens_ok (read_exec bs)"
    using that assms(3) by (auto simp: onExecEvent_eq exec_mask_def intro!: exec_body_typed)
  ultimately show ?thesis
    using assms by (auto simp: onEvent_def Let_def sample_ok_def split: if_splits)
qed

lemma visit_request_typed:
  assumes "kernel_ok K" "visit_request (daemon_handlers K) r d = Some (reply, d')" "session_typed (m_session d)"
  shows "session_typed (m_session d')"
proof (cases r)
  case (StartPhaseRequest pid phase)
  have "session_typed (m_session (snd (onStartPhaseRequest K pid phase d)))"
    using assms(3) session_typed_new session_typed_cong [of "startPhase phase pid new_session" new_session]
    by (auto simp: onStartPhaseRequest_def Let_def reset_session_new session_simps split: prod.split)
  then show ?thesis
    using assms(2) StartPhaseRequest
    by (auto simp: visit_def daemon_handlers_def setupHandlers_def split: sum.splits prod.splits)
next
  case EndPhaseRequest
  have "session_typed (endPhase (m_session d)) = session_typed (m_session d)"
    by (rule session_typed_cong) (simp_all add: session_simps)
  then show ?thesis
    using assms EndPhaseRequest by (auto simp: visit_def daemon_handlers_def setupHandlers_def end_phase_result)
qed (use assms in \<open>auto simp: visit_def daemon_handlers_def setupHandlers_def onPingRequest_def onReportRequest_def
      onShutdownRequest_def split: if_splits\<close>)

end
