(* ===== verification/Exchanges.thy ===== *)
theory Exchanges
  imports Session_Typing
begin

text \<open>
  The client connected to the daemon: the bytes one sends are the bytes the other reads, and
  back. What a subcommand sends, and what its exit status and its output say of what the
  daemon has done with it. The locale \<open>reply_codec\<close>
  is what the exchanges with a short reply rely on.
\<close>

section \<open>A client and the daemon\<close>

text \<open>
  The daemon at the other end of the connection: the client has sent \<open>w\<close> and shut its side
  down, the daemon in the state \<open>d\<close> accepts it, reads what it sent and writes its reply, and
  the client reads what the daemon has written. The connection takes the reply whole.
\<close>

definition answered :: "kernel \<Rightarrow> daemon \<Rightarrow> string \<Rightarrow> read_result list \<Rightarrow> bool" where
  "answered K d w ks \<longleftrightarrow>
     (\<exists>rs ws sent d'. chunks_ok 1 rs \<and> Delivered [] \<in> set rs \<and> delivered rs = w \<and>
        (\<forall>reply d'. serve_line (daemon_handlers K) (first_line w) d = Some (reply, d') \<longrightarrow>
           takes_all ws (Suc (length reply))) \<and>
        acceptOnce (daemon_handlers K) (Accepted rs ws) d = Some (Some sent, d') \<and>
        chunks_ok chunk_size ks \<and> Delivered [] \<in> set ks \<and> delivered ks = sent)"

text \<open>The client is connected to the daemon, and its writes take a line.\<close>

definition connected :: "client_env \<Rightarrow> kernel \<Rightarrow> daemon \<Rightarrow> bool" where
  "connected env K d \<longleftrightarrow> ce_socket env \<and> ce_connect env \<and> takes_all (ce_write env) (Suc max_line) \<and>
     (\<forall>w. answered K d w (ce_read env w))"

lemma first_line_whole: "LF \<notin> set line \<Longrightarrow> length line \<le> max_line \<Longrightarrow> first_line (line @ [LF]) = line"
  by (simp add: first_line_def takeWhile_neq_append)

lemma connected_receives:
  assumes "connected env K d" "LF \<notin> set line" "length line \<le> max_line"
  obtains reply d' where "serve_line (daemon_handlers K) line d = Some (reply, d')"
    "receives env (line @ [LF]) (reply @ [LF])"
proof -
  let ?w = "line @ [LF]"
  note line = first_line_whole [OF assms(2,3)]
  have "answered K d ?w (ce_read env ?w)" using assms(1) by (simp add: connected_def)
  then obtain rs ws sent d' where a: "chunks_ok 1 rs" "Delivered [] \<in> set rs" "delivered rs = ?w"
    and t: "\<And>reply d'. serve_line (daemon_handlers K) line d = Some (reply, d') \<Longrightarrow> takes_all ws (Suc (length reply))"
    and acc: "acceptOnce (daemon_handlers K) (Accepted rs ws) d = Some (Some sent, d')"
    and ks: "chunks_ok chunk_size (ce_read env ?w)" "Delivered [] \<in> set (ce_read env ?w)"
      "delivered (ce_read env ?w) = sent"
    unfolding answered_def line by blast
  obtain l rs' where l: "readLine rs [] max_line = Some (l, rs')"
    using acc by (auto simp: handleClient_def split: option.splits)
  have "l = line"
    using readLine_line [OF a(1), of "[]" max_line] a(2,3) l line by (auto simp: first_line_def)
  then obtain reply where r: "serve_line (daemon_handlers K) line d = Some (reply, d')" "writeWire ws reply = Some sent"
    using acc l by (auto simp: handleClient_def split: option.splits)
  have "sent = reply @ [LF]" using writeWire_takes [OF t [OF r(1)]] r(2) by simp
  moreover have "\<exists>ks. writeAll (ce_write env) ?w [] = Some (True, ?w, ks)"
    using assms(1,3) by (simp add: connected_def takes_all_def)
  ultimately have "receives env ?w (reply @ [LF])"
    using assms(1) ks by (simp add: receives_def connected_def)
  with r(1) show ?thesis by (rule that)
qed

section \<open>One exchange\<close>

lemma ctl_command_error:
  assumes "receives env (encode_request req @ [LF]) (encode_error err @ [LF])"
  shows "\<exists>e. ctl_command env dec req = Some (encode_request req @ [LF], Inl e)"
proof -
  obtain raw rest where raw: "sendRaw env (encode_request req) = Some (encode_request req @ [LF], raw)"
    "encode_error err @ [LF] = raw @ rest" "length (encode_error err @ [LF]) < max_line * 4 \<longrightarrow> rest = []"
    "max_line * 4 \<le> length (encode_error err @ [LF]) \<longrightarrow> max_line * 4 \<le> length raw"
    using sendRaw_receives [OF assms] by blast
  have "\<exists>e. sendCommand dec raw = Inl e"
  proof (cases "reason err = []")
    case True
    then have "raw = encode_error err @ [LF]" using raw(2,3) by (simp add: encode_error_def wire_words max_line_def)
    then show ?thesis using sendCommand_error [of err dec] True by (simp add: Let_def)
  next
    case False
    have "4 \<le> length raw \<or> rest = []"
      using raw(3,4) by (cases "length (encode_error err @ [LF]) < max_line * 4") (auto simp: max_line_def)
    moreover have "(reply_error @ '' '' @ reason err) @ [LF] = raw @ rest"
      using raw(2) unfolding encode_error_def by (simp only: False if_False)
    ultimately have "\<exists>t. raw = reply_error @ '' '' @ t" by (intro error_cut)
    then show ?thesis using sendCommand_ERR by metis
  qed
  with raw(1) show ?thesis by (auto simp: ctl_command_def)
qed

locale reply_codec =
  fixes enc :: "'r \<Rightarrow> string" and dec :: "string \<Rightarrow> 'r option"
  assumes round: "sendCommand dec (enc r @ [LF]) = Inr r"
    and short: "length (enc r) \<le> 16"
begin

lemma exchange:
  assumes "visit enc (Some fn) d = Some (reply, d')" "receives env (encode_request req @ [LF]) (reply @ [LF])"
  shows "\<exists>res resp. fn d = Some (res, d') \<and> ctl_command env dec req = Some (encode_request req @ [LF], resp) \<and>
    (case res of Inl _ \<Rightarrow> \<exists>e. resp = Inl e | Inr r \<Rightarrow> resp = Inr r)"
proof -
  obtain res where fn: "fn d = Some (res, d')"
    and reply: "reply = (case res of Inl err \<Rightarrow> encode_error err | Inr r \<Rightarrow> enc r)"
    using assms(1) by (auto simp: visit_def split: option.splits sum.splits)
  show ?thesis
  proof (cases res)
    case (Inl err)
    then have "receives env (encode_request req @ [LF]) (encode_error err @ [LF])" using assms(2) reply by simp
    from ctl_command_error [OF this, of dec] obtain e where
      "ctl_command env dec req = Some (encode_request req @ [LF], Inl e)" ..
    with fn Inl show ?thesis by simp
  next
    case (Inr r)
    have "length (enc r @ [LF]) < max_line * 4" using short [of r] by (simp add: max_line_def)
    with ctl_command_short [of env req "enc r @ [LF]" dec] fn Inr assms(2) reply round
    show ?thesis by simp
  qed
qed

end

interpretation pong: reply_codec encode_pong decode_pong
proof
  show "sendCommand decode_pong (encode_pong r @ [LF]) = Inr r" for r
    using sendCommand_pong [of r] by (cases r) simp
qed (simp add: encode_pong_def wire_words)

interpretation ok: reply_codec encode_ok decode_ok
proof
  show "sendCommand decode_ok (encode_ok r @ [LF]) = Inr r" for r
    using sendCommand_ok [of r] by (cases r) simp
qed (simp add: encode_ok_def wire_words)

section \<open>The report\<close>

lemma report_exchange:
  assumes "serve_line (daemon_handlers K) (encode_request (ReportRequest fmt)) d = Some (reply, d')"
    and "receives env (encode_request (ReportRequest fmt) @ [LF]) (reply @ [LF])"
  shows "d' = d \<and> (\<exists>code out. ctl_main env [prog, ''report'', ''--format'', formatToString fmt,
        ''--fail-on'', severityToString s] = Some (code, out, encode_request (ReportRequest fmt) @ [LF]) \<and>
    (if m_active (m_session d) then code = 1 \<and> out = []
     else code = (if s \<noteq> SevNone \<and> (\<exists>f \<in> set (findings (m_session d)). s \<le> f_severity f) then 1 else 0) \<and>
       (length (reply @ [LF]) < max_line * 4 \<longrightarrow> out = render (m_session d) fmt @ [LF] \<and>
         (fmt = Json \<longrightarrow> parse_json out = Some (report_json (m_session d))))))"
proof -
  have main: "ctl_main env [prog, ''report'', ''--format'', formatToString fmt, ''--fail-on'', severityToString s] =
      doReport env \<lparr>ca_sub = SubReport, ca_watch_pid = 0, ca_phase = [], ca_format = fmt, ca_fail_on = s\<rparr>"
    by (simp only: ctl_main_def ctl_parse_report sum.case ctl_args.simps subcommand.case)
  have rt: "decodeRequest (encode_request (ReportRequest fmt)) = Some (ReportRequest fmt)"
    by (rule decode_encode_request) simp
  have serve: "visit encode_report (Some (\<lambda>d. Some (onReportRequest fmt d))) d = Some (reply, d')"
    using assms(1) rt by (simp add: serve_line_def daemon_handlers_def setupHandlers_def del: encode_request.simps)
  show ?thesis
  proof (cases "m_active (m_session d)")
    case True
    then obtain err where r: "reply = encode_error err" "d' = d"
      using serve by (auto simp: visit_def onReportRequest_def isActive_def)
    obtain e where "ctl_command env decode_report (ReportRequest fmt) = Some (encode_request (ReportRequest fmt) @ [LF], Inl e)"
      using ctl_command_error [OF assms(2) [unfolded r(1)]] by blast
    then show ?thesis using True r(2) by (simp add: main doReport_def del: encode_request.simps)
  next
    case False
    let ?r = "\<lparr>max_severity = maxSeverity (m_session d), body = render (m_session d) fmt\<rparr>"
    have r: "reply = encode_report ?r" "d' = d"
      using serve False by (auto simp: visit_def onReportRequest_def isActive_def)
    obtain b rest where b: "ctl_command env decode_report (ReportRequest fmt) =
        Some (encode_request (ReportRequest fmt) @ [LF], Inr (?r\<lparr>body := b\<rparr>))"
      "body ?r @ [LF] = b @ rest" "length (encode_report ?r @ [LF]) < max_line * 4 \<longrightarrow> rest = []"
      by (rule ctl_command_report [OF assms(2) [unfolded r(1)]])
    have "s \<noteq> SevNone \<and> s \<le> maxSeverity (m_session d) \<longleftrightarrow>
        s \<noteq> SevNone \<and> (\<exists>f \<in> set (findings (m_session d)). s \<le> f_severity f)"
      using maxSeverity_ge_iff by blast
    moreover have "rest = [] \<and> fmt = Json \<longrightarrow> parse_json b = Some (report_json (m_session d))"
      using b(2) parse_renderJson_LF [of "m_session d"] by (auto simp: render_def)
    ultimately show ?thesis using False r b by (auto simp: main doReport_def simp del: encode_request.simps)
  qed
qed

section \<open>The other requests\<close>

text \<open>The documented command line of a request.\<close>

fun ctl_line :: "string \<Rightarrow> request \<Rightarrow> string list" where
  "ctl_line prog PingRequest = [prog, ''ping'']"
| "ctl_line prog (StartPhaseRequest pid phase) = [prog, ''start-phase'', dec_u32 pid, phase]"
| "ctl_line prog EndPhaseRequest = [prog, ''end-phase'']"
| "ctl_line prog (ReportRequest fmt) = [prog, ''report'', ''--format'', formatToString fmt]"
| "ctl_line prog ShutdownRequest = [prog, ''shutdown'']"

lemma subcommand_names:
  "subcommandFromString ''ping'' = Some SubPing" "subcommandFromString ''end-phase'' = Some SubEndPhase"
  "subcommandFromString ''shutdown'' = Some SubShutdown"
  by (simp_all add: subcommandFromString_def subcommand_table_def)

lemma ctl_main_line:
  "ctl_main env (ctl_line prog PingRequest) = doPing env"
  "ctl_main env (ctl_line prog EndPhaseRequest) = doEndPhase env"
  "ctl_main env (ctl_line prog ShutdownRequest) = doShutdown env"
  by (simp_all add: ctl_main_def ctl_parseArgs_def subcommand_names ctl_parse_Nil)

lemma serve_request:
  "wf_request r \<Longrightarrow> serve_line H (encode_request r) d = visit_request H r d"
  by (simp add: serve_line_def decode_encode_request del: encode_request.simps)

lemma start_phase_exit:
  assumes "visit_request (daemon_handlers K) (StartPhaseRequest pid phase) d = Some (reply, d')"
    and "receives env (encode_request (StartPhaseRequest pid phase) @ [LF]) (reply @ [LF])"
    and "kernel_ok K" "pid \<noteq> 0" "phase \<noteq> []" "\<not> starts_with phase ''-''"
  shows "\<exists>code out. ctl_main env (ctl_line prog (StartPhaseRequest pid phase)) =
      Some (code, out, encode_request (StartPhaseRequest pid phase) @ [LF]) \<and>
    (if code = 0 then out = ''OK'' @ [LF] \<and> \<not> m_active (m_session d) \<and>
       m_session d' = startPhase phase pid new_session \<and> tracked_pids (m_bpf d') pid \<noteq> None
     else code = 1 \<and> out = [] \<and> (m_active (m_session d) \<and> d' = d \<or> \<not> m_active (m_session d')))"
proof -
  have main: "ctl_main env (ctl_line prog (StartPhaseRequest pid phase)) =
      map_option (\<lambda>(sent, resp). case resp of Inl err \<Rightarrow> (1, [], sent) | Inr _ \<Rightarrow> (0, ''OK'' @ [LF], sent))
        (ctl_command env decode_ok (StartPhaseRequest pid phase))"
    using assms(4,5) by (simp only: ctl_main_def ctl_line.simps ctl_parse_start_phase [OF assms(5,6)] sum.case
        ctl_args.simps subcommand.case doStartPhase_def simp_thms if_False)
  have "visit encode_ok (Some (\<lambda>d. Some (onStartPhaseRequest K pid phase d))) d = Some (reply, d')"
    using assms(1) by (simp add: daemon_handlers_def setupHandlers_def)
  from ok.exchange [OF this assms(2)] obtain res resp where
    r: "onStartPhaseRequest K pid phase d = (res, d')"
      "ctl_command env decode_ok (StartPhaseRequest pid phase) =
         Some (encode_request (StartPhaseRequest pid phase) @ [LF], resp)"
      "case res of Inl _ \<Rightarrow> \<exists>e. resp = Inl e | Inr r \<Rightarrow> resp = Inr r" by auto
  have ok: "\<not> m_active (m_session d) \<and> m_session d' = startPhase phase pid new_session \<and>
      tracked_pids (m_bpf d') pid \<noteq> None" if "res = Inr x" for x
    using r(1) that trackPid_result(1) [OF kernel_okD(1) [OF assms(3)], of pid "m_bpf d"]
    by (auto simp: onStartPhaseRequest_def isActive_def Let_def reset_session_new split: if_splits prod.splits)
  have err: "m_active (m_session d) \<and> d' = d \<or> \<not> m_active (m_session d')" if "res = Inl e" for e
    using r(1) that
    by (auto simp: onStartPhaseRequest_def isActive_def Let_def reset_session_new new_session_def
        split: if_splits prod.splits)
  show ?thesis
  proof (cases res)
    case (Inl e)
    then obtain e' where "resp = Inl e'" using r(3) by auto
    then show ?thesis using err [OF Inl] r(2) unfolding main by (simp del: encode_request.simps)
  next
    case (Inr x)
    then have "resp = Inr x" using r(3) by simp
    then show ?thesis using ok [OF Inr] r(2) unfolding main by (simp del: encode_request.simps)
  qed
qed

text \<open>
  The exit status of the client is what the daemon did: 0 for a phase that has started or
  ended, and for a shutdown.
\<close>

lemma control_exchange:
  assumes "connected env K d" "kernel_ok K" "wf_request r"
    and "LF \<notin> set (encode_request r)" "length (encode_request r) \<le> max_line"
    and "\<forall>pid phase. r = StartPhaseRequest pid phase \<longrightarrow> \<not> starts_with phase ''-''"
    and "\<forall>fmt. r \<noteq> ReportRequest fmt"
  shows "\<exists>code out sent reply d'. ctl_main env (ctl_line prog r) = Some (code, out, sent) \<and>
    sent = encode_request r @ [LF] \<and>
    serve_line (daemon_handlers K) (first_line sent) d = Some (reply, d') \<and>
    (case r of
       PingRequest \<Rightarrow> code = 0 \<and> out = ''PONG'' @ [LF] \<and> d' = d
     | StartPhaseRequest pid phase \<Rightarrow>
         if code = 0 then out = ''OK'' @ [LF] \<and> \<not> m_active (m_session d) \<and>
           m_session d' = startPhase phase pid new_session \<and> tracked_pids (m_bpf d') pid \<noteq> None
         else code = 1 \<and> out = [] \<and> (m_active (m_session d) \<and> d' = d \<or> \<not> m_active (m_session d'))
     | EndPhaseRequest \<Rightarrow> code = 0 \<and> out = ''OK'' @ [LF] \<and>
         m_session d' = endPhase (m_session d) \<and> tracked_pids (m_bpf d') = Map.empty
     | ReportRequest fmt \<Rightarrow> True
     | ShutdownRequest \<Rightarrow> code = 0 \<and> out = ''OK'' @ [LF] \<and> d' = d\<lparr>m_shouldExit := True\<rparr>)"
proof -
  obtain reply d' where s: "serve_line (daemon_handlers K) (encode_request r) d = Some (reply, d')"
    and rec: "receives env (encode_request r @ [LF]) (reply @ [LF])"
    by (rule connected_receives [OF assms(1,4,5)])
  have line: "serve_line (daemon_handlers K) (first_line (encode_request r @ [LF])) d = Some (reply, d')"
    unfolding first_line_whole [OF assms(4,5)] by (fact s)
  have serve: "visit_request (daemon_handlers K) r d = Some (reply, d')"
    using s unfolding serve_request [OF assms(3)] .
  note H = daemon_handlers_def setupHandlers_def
  show ?thesis
  proof (cases r)
    case PingRequest
    then have "visit encode_pong (Some (\<lambda>d. Some (onPingRequest d))) d = Some (reply, d')"
      using serve by (simp add: H)
    from pong.exchange [OF this rec] line PingRequest show ?thesis
      by (auto simp: ctl_main_line doPing_def onPingRequest_def simp del: ctl_line.simps encode_request.simps)
  next
    case (StartPhaseRequest pid phase)
    have v: "visit_request (daemon_handlers K) (StartPhaseRequest pid phase) d = Some (reply, d')"
      and wf: "pid \<noteq> 0" "phase \<noteq> []" "\<not> starts_with phase ''-''" using serve assms(3,6) StartPhaseRequest by simp_all
    from start_phase_exit [OF v rec [unfolded StartPhaseRequest] assms(2) wf, of prog] line show ?thesis
      unfolding StartPhaseRequest request.case by blast
  next
    case EndPhaseRequest
    then have "visit encode_ok (Some (onEndPhaseRequest K)) d = Some (reply, d')"
      using serve by (simp add: H)
    from ok.exchange [OF this rec] line EndPhaseRequest show ?thesis
      by (auto simp: ctl_main_line doEndPhase_def end_phase_result [OF assms(2)] simp del: ctl_line.simps encode_request.simps)
  next
    case (ReportRequest fmt)
    then show ?thesis using assms(7) by simp
  next
    case ShutdownRequest
    then have "visit encode_ok (Some (\<lambda>d. Some (onShutdownRequest d))) d = Some (reply, d')"
      using serve by (simp add: H)
    from ok.exchange [OF this rec] line ShutdownRequest show ?thesis
      by (auto simp: ctl_main_line doShutdown_def onShutdownRequest_def simp del: ctl_line.simps encode_request.simps)
  qed
qed

end
