(* ===== verification/Phase_Run.thy ===== *)
theory Phase_Run
  imports Exchanges
begin

text \<open>
  The findings of a phase: no event and, while the phase is active, no request loses one, and
  they decide the exit status of the report. The end of this theory has the events of a phase
  that the daemon reads in the next one.
\<close>

section \<open>Findings while a phase is active\<close>

lemma visit_request_findings:
  assumes "kernel_ok K" "visit_request (daemon_handlers K) r d = Some (reply, d')" "m_active (m_session d)"
  shows "m_findings (m_session d') = m_findings (m_session d)"
proof (cases r)
  case EndPhaseRequest
  then show ?thesis
    using assms by (auto simp: visit_def daemon_handlers_def setupHandlers_def end_phase_result session_simps)
qed (use assms in \<open>auto simp: visit_def daemon_handlers_def setupHandlers_def onPingRequest_def onReportRequest_def
      onStartPhaseRequest_def onShutdownRequest_def isActive_def split: if_splits\<close>)

lemma consume_loop_findings:
  "consume_loop K data d = Some d' \<Longrightarrow>
   \<exists>fs. m_findings (m_session d') = m_findings (m_session d) @ fs \<and> m_active (m_session d') = m_active (m_session d)"
proof (induction data arbitrary: d)
  case Nil
  then show ?case by simp
next
  case (Cons bs data)
  then obtain d1 where d1: "onEvent K bs d = Some d1" "consume_loop K data d1 = Some d'"
    by (auto simp: bind_eq_Some_conv)
  obtain fs where "m_findings (m_session d1) = m_findings (m_session d) @ fs" "m_active (m_session d1) = m_active (m_session d)"
    using adds_one_event [OF d1(1)] unfolding adds_one_def by blast
  with Cons.IH [OF d1(2)] show ?case by auto
qed

text \<open>A finding of the phase decides the exit status of the report after it.\<close>

lemma finding_exit:
  assumes "prefix (m_findings (m_session d0)) (m_findings (m_session d))" "\<not> m_active (m_session d)"
    and "f \<in> set (findings (m_session d0))"
    and "s \<noteq> SevNone" "s \<le> f_severity f"
    and "serve_line (daemon_handlers K) (encode_request (ReportRequest fmt)) d = Some (reply, d')"
    and "receives env (encode_request (ReportRequest fmt) @ [LF]) (reply @ [LF])"
  shows "f \<in> set (findings (m_session d)) \<and>
    (\<exists>out. ctl_main env [prog, ''report'', ''--format'', formatToString fmt, ''--fail-on'', severityToString s] =
      Some (1, out, encode_request (ReportRequest fmt) @ [LF]))"
proof -
  have f: "f \<in> set (findings (m_session d))"
    using set_mono_prefix [OF assms(1)] assms(3) by (auto simp: findings_def)
  obtain code out where c: "ctl_main env [prog, ''report'', ''--format'', formatToString fmt, ''--fail-on'',
      severityToString s] = Some (code, out, encode_request (ReportRequest fmt) @ [LF])"
    "code = (if s \<noteq> SevNone \<and> (\<exists>f \<in> set (findings (m_session d)). s \<le> f_severity f) then 1 else 0)"
    using report_exchange [OF assms(6,7), of prog s] assms(2) by auto
  then have "code = 1" using f assms(4,5) by auto
  with c(1) f show ?thesis by blast
qed

section \<open>Events of one phase in the next\<close>

lemma stale_connect:
  assumes "kernel_ok K" "onEndPhaseRequest K d = Some (r, d1)" "onStartPhaseRequest K pid phase d1 = (Inr OkResponse, d2)"
    and "ring (m_bpf d) = [write_connect e]" "wf_connect e" "h_type (cn_hdr e) = event_type_connect"
    and "cn_package_id e \<noteq> 0" "\<not> contains_v6 (m_allowlist d) (cn_addr e)"
  shows "\<exists>d3 f. consume K d2 = Some d3 \<and> m_findings (m_session d3) = [f] \<and> f_rule_id f = NonAllowlistedHost \<and>
    f_pid f = h_pid (cn_hdr e) \<and> f_package f = []"
proof -
  have d1: "d1 = d\<lparr>m_session := endPhase (m_session d), m_bpf := (m_bpf d)\<lparr>tracked_pids := Map.empty\<rparr>\<rparr>"
    using assms(1,2) by (simp add: end_phase_result)
  have tr: "ring b = ring m" if "trackPid K pid m = (ok, b)" for m ok b
    using manager_frame(3) [of K pid m] that by simp
  have d2: "m_session d2 = startPhase phase pid new_session" "m_allowlist d2 = m_allowlist d"
      "ring (m_bpf d2) = [write_connect e]"
    using assms(3,4)
    by (auto simp: onStartPhaseRequest_def Let_def reset_session_new d1 split: if_splits prod.splits dest: tr)
  let ?d = "d2\<lparr>m_bpf := (m_bpf d2)\<lparr>ring := []\<rparr>\<rparr>"
  have "consume K d2 = Some (onConnectEvent K e ?d)"
    using consume_single [OF d2(3)] assms(5,6) by (simp add: onEvent_connect)
  moreover have "take 16 (cn_addr e) = cn_addr e" using assms(5) by (simp add: wf_connect_def)
  moreover have "packageName (cn_package_id e) (startPhase phase pid new_session) = []"
    using assms(7) by (simp add: packageName_def startPhase_def new_session_def unat_gt_0)
  ultimately show ?thesis
    using d2(1,2) assms(7,8)
    by (simp add: onConnectEvent_session onConnect_def Let_def isActive_def event_package_def package_label_def
        default_finding_def session_simps pidPackage_def new_session_def)
qed

end
