(* ===== verification/Scenario.thy ===== *)
theory Scenario
  imports Phase_Run
begin

text \<open>
  A run of the whole system, from start-up to a finding: the daemon in enforce mode, a client
  that starts a phase, a process of a package that runs \<open>curl\<close>. The states of the run are
  reachable; they are the inputs on which the properties of the reachable states are tried.
\<close>

section \<open>Requests as steps\<close>

text \<open>Whatever request a client sends on a line is a step of the system.\<close>

lemma request_step:
  assumes "kernel_ok K" "LF \<notin> set line" "length line \<le> max_line"
    and "serve_line (daemon_handlers K) line d = Some (reply, d')"
  shows "sys_step d d'"
proof -
  let ?ev = "IpcReady K (Accepted (sends line) [Wrote (Suc (length reply))])"
  have "handle_ready ?ev d = Some d'" using handleClient_line [OF assms(2-4)] by simp
  moreover have "event_ok ?ev" using assms(1) by simp
  ultimately show ?thesis by (intro step_ready)
qed

text \<open>A phase starts when none is active, the process exists and the map takes it.\<close>

definition phase_started :: "string \<Rightarrow> u32 \<Rightarrow> daemon \<Rightarrow> daemon" where
  "phase_started phase pid d =
     d\<lparr>m_session := startPhase phase pid new_session,
       m_bpf := (m_bpf d)\<lparr>tracked_pids := [pid \<mapsto> \<lparr>tp_session_id = 1, tp_package_id = 0\<rparr>]\<rparr>\<rparr>"

lemma start_accepted:
  assumes "\<not> m_active (m_session d)" "tracked_pids (m_bpf d) = Map.empty" "pidExists K pid"
    and "k_tracked_update K = hash_update tracked_pids_entries"
  shows "onStartPhaseRequest K pid phase d = (Inr OkResponse, phase_started phase pid d)"
  using assms by (simp add: onStartPhaseRequest_def isActive_def trackPid_def hash_update_def
      tracked_pids_entries_def Let_def reset_session_new phase_started_def)

lemma start_served:
  assumes "\<not> m_active (m_session d)" "tracked_pids (m_bpf d) = Map.empty" "pidExists K pid"
    and "k_tracked_update K = hash_update tracked_pids_entries" "wf_request (StartPhaseRequest pid phase)"
  shows "serve_line (daemon_handlers K) (encode_request (StartPhaseRequest pid phase)) d =
    Some (encode_ok OkResponse, phase_started phase pid d)"
  using start_accepted [OF assms(1-4)]
  by (simp add: serve_request [OF assms(5)] daemon_handlers_def setupHandlers_def visit_def del: encode_request.simps)

lemma phase_step:
  assumes "kernel_ok K" "daemon_inv d" "\<not> m_active (m_session d)" "pidExists K pid"
    and "k_tracked_update K = hash_update tracked_pids_entries"
    and line: "wf_request (StartPhaseRequest pid phase)" "LF \<notin> set (encode_request (StartPhaseRequest pid phase))"
      "length (encode_request (StartPhaseRequest pid phase)) \<le> max_line"
  shows "sys_step d (phase_started phase pid d)"
proof -
  have "tracked_pids (m_bpf d) = Map.empty" using assms(2,3) by (simp add: daemon_inv_def)
  from request_step [OF assms(1) line(2,3) start_served [OF assms(3) this assms(4,5) line(1)]]
  show ?thesis .
qed

text \<open>An active phase ends on request, and then there is a report.\<close>

definition phase_ended :: "daemon \<Rightarrow> daemon" where
  "phase_ended d = d\<lparr>m_session := endPhase (m_session d), m_bpf := (m_bpf d)\<lparr>tracked_pids := Map.empty\<rparr>\<rparr>"

lemma phase_ended_session [simp]:
  "\<not> m_active (m_session (phase_ended d))" "m_findings (m_session (phase_ended d)) = m_findings (m_session d)"
  by (simp_all add: phase_ended_def session_simps)

lemma end_step:
  assumes "kernel_ok K"
  shows "sys_step d (phase_ended d)"
proof -
  have "serve_line (daemon_handlers K) (encode_request EndPhaseRequest) d = Some (encode_ok OkResponse, phase_ended d)"
    using serve_request [of EndPhaseRequest "daemon_handlers K" d]
    by (simp add: daemon_handlers_def setupHandlers_def visit_def end_phase_result [OF assms(1)] phase_ended_def)
  from request_step [OF assms _ _ this] show ?thesis by (simp add: wire_words max_line_def)
qed

text \<open>A client connected to the daemon, one byte of the reply at a time.\<close>

definition daemon_env :: "kernel \<Rightarrow> daemon \<Rightarrow> client_env" where
  "daemon_env K d =
     \<lparr>ce_socket = True, ce_connect = True, ce_write = [Wrote (Suc max_line)],
      ce_read = (\<lambda>w. case serve_line (daemon_handlers K) (first_line w) d of
        None \<Rightarrow> []
      | Some (reply, _) \<Rightarrow> map (\<lambda>c. Delivered [c]) (reply @ [LF]) @ [Delivered []])\<rparr>"

lemma delivered_bytes: "delivered (map (\<lambda>c. Delivered [c]) w @ [Delivered []]) = w"
  by (induction w) simp_all

lemma daemon_env_connected:
  assumes "kernel_ok K"
  shows "connected (daemon_env K d) K d"
proof -
  have "answered K d w (ce_read (daemon_env K d) w)" for w
  proof -
    define rs where "rs = map (\<lambda>c. Delivered [c]) w @ [Delivered []]"
    have rs: "chunks_ok 1 rs" "Delivered [] \<in> set rs" "delivered rs = w"
      by (auto simp: rs_def chunks_ok_def delivered_bytes)
    obtain reply d' where s: "serve_line (daemon_handlers K) (first_line w) d = Some (reply, d')"
      using ipc.serve_line_keeps [OF assms] by blast
    have t: "takes_all [Wrote (Suc (length reply))] (Suc (length reply))" by (rule takes_all_Wrote)
    have "handleClient (daemon_handlers K) rs [Wrote (Suc (length reply))] d = Some (reply @ [LF], d')"
      using handleClient_serves [OF rs(1), of "daemon_handlers K" d reply d'] rs(2,3) s writeWire_takes [OF t] by simp
    then have "acceptOnce (daemon_handlers K) (Accepted rs [Wrote (Suc (length reply))]) d = Some (Some (reply @ [LF]), d')"
      by simp
    moreover have "ce_read (daemon_env K d) w = map (\<lambda>c. Delivered [c]) (reply @ [LF]) @ [Delivered []]"
      using s by (simp add: daemon_env_def)
    then have "chunks_ok chunk_size (ce_read (daemon_env K d) w)" "Delivered [] \<in> set (ce_read (daemon_env K d) w)"
      "delivered (ce_read (daemon_env K d) w) = reply @ [LF]"
      using delivered_bytes [of "reply @ [LF]"] by (auto simp: chunks_ok_def chunk_size_def)
    ultimately show ?thesis unfolding answered_def using rs s t by (auto intro!: exI [of _ rs])
  qed
  then show ?thesis using takes_all_Wrote [of "Suc max_line"] by (simp add: connected_def) (simp add: daemon_env_def)
qed

lemma report_line: "LF \<notin> set (encode_request (ReportRequest fmt))" "length (encode_request (ReportRequest fmt)) \<le> max_line"
  by (cases fmt; simp add: wire_words max_line_def formatToString_def format_table_def)+

section \<open>The run\<close>

text \<open>A task that has become \<open>curl\<close>, with its environment block at address 4096.\<close>

definition sample_task :: "string list \<Rightarrow> task_exec" where
  "sample_task env =
     \<lparr>tx_ppid = 1, tx_comm = ''curl'' @ replicate 12 NUL, tx_arg_start = 0, tx_arg_end = 0,
      tx_env_start = 4096, tx_env_end = 4096 + word_of_nat (length (nul_block env)),
      tx_user = (\<lambda>a n. take n (nul_block env @ replicate n NUL))\<rparr>"

definition run_args :: daemon_args where
  "run_args = \<lparr>da_mode = Enforce, da_allowed_hosts = [''registry''], da_verbose = True\<rparr>"

text \<open>
  Every host resolves to the address 1, every process exists and has the directory of the
  package \<open>evil\<close> as its working directory.
\<close>

definition run_kernel :: kernel where
  "run_kernel = plain_kernel\<lparr>k_stat := (\<lambda>_. True), k_readlink := (\<lambda>_. Some ''/app/node_modules/evil''),
     k_getaddrinfo := (\<lambda>_. Some [AF_INET 1])\<rparr>"

lemma run_kernel_ok [simp]: "kernel_ok run_kernel" by (simp add: run_kernel_def)

definition run_start :: daemon where
  "run_start = snd (daemon_init run_kernel True True True (new_daemon run_args))"

lemma run_init: "daemon_init run_kernel True True True (new_daemon run_args) = (True, run_start)"
  by (simp add: run_start_def daemon_init_def new_daemon_def run_args_def setMode_def run_kernel_def
      plain_kernel_def hash_update_def loaded_maps_def Let_def)

lemma run_allowlist: "m_allowlist run_start = [mapV4 1]"
  by (simp add: daemon_init_started(2) [OF run_init] run_args_def add_hosts_def addHost_def run_kernel_def
      push_addr_def)

lemma run_start_ring: "ring (m_bpf run_start) = []"
  by (simp add: daemon_init_started(5) [OF run_init] Let_def run_args_def loaded_maps_def)

lemma run_start_inv: "daemon_inv run_start" by (rule daemon_init_inv [OF run_kernel_ok run_init])

definition run_phase :: daemon where
  "run_phase = phase_started ''ci'' 7 run_start"

lemma run_start_ready:
  "\<not> m_active (m_session run_start)" "tracked_pids (m_bpf run_start) = Map.empty" "pidExists run_kernel pid"
  "k_tracked_update run_kernel = hash_update tracked_pids_entries"
proof -
  show active: "\<not> m_active (m_session run_start)"
    by (simp add: daemon_init_started(4) [OF run_init] new_session_def)
  then show "tracked_pids (m_bpf run_start) = Map.empty" using run_start_inv by (simp add: daemon_inv_def)
qed (simp_all add: pidExists_def run_kernel_def plain_kernel_def)

lemma run_phase_reachable: "reachable run_start run_phase"
proof -
  have "sys_step run_start (phase_started ''ci'' 7 run_start)"
    by (rule phase_step [OF run_kernel_ok run_start_inv run_start_ready(1,3,4)])
      (simp_all add: wire_words max_line_def dec_nat.simps [of 7] char_of_def bit_0)
  then show ?thesis using reach_step [OF reach_init] by (simp add: run_phase_def)
qed

definition run_env :: "string list" where
  "run_env = [''NPM_TOKEN=x'', ''npm_lifecycle_event=postinstall'']"

lemma run_task:
  shows "task_ok (sample_task run_env)"
    and "takeWhile (\<lambda>c. c \<noteq> NUL) (tx_comm (sample_task run_env)) \<in> set dangerous_basenames"
    and "area_len env_max (tx_env_start (sample_task run_env)) (tx_env_end (sample_task run_env)) = 44"
    and "tx_user (sample_task run_env) (tx_env_start (sample_task run_env)) 44 = nul_block run_env"
    and "\<forall>e \<in> set run_env. NUL \<notin> set e"
    and "first_value lifecycle_key run_env = Some ''postinstall''"
    and "''NPM_TOKEN'' \<in> env_tokens run_env"
proof -
  have len: "length (nul_block run_env) = 44" by (simp add: run_env_def)
  show "task_ok (sample_task run_env)" by (simp add: task_ok_def sample_task_def event_bounds min_def)
  show "takeWhile (\<lambda>c. c \<noteq> NUL) (tx_comm (sample_task run_env)) \<in> set dangerous_basenames"
    by (simp add: sample_task_def dangerous_basenames_def)
  show "area_len env_max (tx_env_start (sample_task run_env)) (tx_env_end (sample_task run_env)) = 44"
    by (simp add: sample_task_def area_len_def len event_bounds Let_def)
  show "tx_user (sample_task run_env) (tx_env_start (sample_task run_env)) 44 = nul_block run_env"
    using len by (simp add: sample_task_def)
  show "\<forall>e \<in> set run_env. NUL \<notin> set e" by (simp add: run_env_def)
  show "first_value lifecycle_key run_env = Some ''postinstall''"
    by (simp add: run_env_def lifecycle_key_def starts_with_def)
  show "''NPM_TOKEN'' \<in> env_tokens run_env"
    by (auto simp: run_env_def env_tokens_def token_table_def starts_with_def intro!: exI [of _ "hd token_table"])
qed

text \<open>The process executes: the kernel program puts one sample into the ring.\<close>

definition run_exec :: daemon where
  "run_exec = run_phase\<lparr>m_bpf := on_exec (Some (replicate sizeof_event_exec 0)) 0 7 (sample_task run_env)
     (m_bpf run_phase)\<rparr>"

lemma run_exec_reachable: "reachable run_start run_exec"
  unfolding run_exec_def
  using reach_step [OF run_phase_reachable step_program [of "Exec (Some (replicate sizeof_event_exec 0)) 0 7 (sample_task run_env)"]]
  by (simp add: sample_room_def run_task(1))

lemma run_phase_simps:
  "tracked_pids (m_bpf run_phase) 7 = Some \<lparr>tp_session_id = 1, tp_package_id = 0\<rparr>"
  "m_session run_phase = startPhase ''ci'' 7 new_session" "ring (m_bpf run_phase) = []"
  "m_allowlist run_phase = [mapV4 1]"
  by (simp_all add: run_phase_def phase_started_def run_start_ring run_allowlist)

lemma run_exec_sample:
  "\<exists>e. ring (m_bpf run_exec) = [write_exec e] \<and> wf_exec e \<and> exec_lens_ok e \<and> h_pid (ex_hdr e) = 7 \<and>
     h_type (ex_hdr e) = event_type_exec \<and> ex_package_id e = 0 \<and>
     ex_comm e = tx_comm (sample_task run_env) \<and> exec_env e = run_env"
proof -
  have mem: "sizeof_event_exec \<le> length (replicate sizeof_event_exec (0 :: u8))" by simp
  show ?thesis
    using on_exec_entries [OF run_phase_simps(1) mem run_task(1,5), of 0] run_task(3,4) run_phase_simps(3)
    by (auto simp: run_exec_def)
qed

lemma run_package: "packageFromCwd ''/app/node_modules/evil'' = Some ''evil''"
proof -
  have "packageFromPath (abs_path ([''app''] @ node_modules # [''evil''])) = Some ''evil''"
    by (subst packageFromPath_abs) (simp_all add: plain_name_def node_modules_def starts_with_def)
  then show ?thesis by (simp add: packageFromCwd_def node_modules_def)
qed

lemma run_owner:
  assumes "h_pid (ex_hdr e) = 7" "ex_package_id e = 0" "m_session d = startPhase ''ci'' 7 new_session"
  shows "fst (exec_owner run_kernel e m d) = 1"
    and "packageName 1 (m_session (snd (exec_owner run_kernel e m d))) = ''evil''"
  using assms run_package
  by (simp_all add: exec_owner_def event_package_def package_by_cwd_def readCwd_def run_kernel_def readlink_max_def
      Let_def pidPackage_def setPidTokens_def startPhase_def new_session_def internPackage_def packageName_def
      setPidPackage_def split: prod.split)

text \<open>The daemon reads the sample and reports the process.\<close>

lemma run_reported:
  "\<exists>d f. consume run_kernel run_exec = Some d \<and> reachable run_start d \<and> m_findings (m_session d) = [f] \<and>
     f_severity f = SevHigh \<and> f_rule_id f = TokenBearingDownloader \<and> f_package f = ''evil'' \<and>
     m_active (m_session d)"
proof -
  obtain e where e: "ring (m_bpf run_exec) = [write_exec e]" "wf_exec e" "exec_lens_ok e"
      "h_pid (ex_hdr e) = 7" "h_type (ex_hdr e) = event_type_exec" "ex_package_id e = 0"
      "ex_comm e = tx_comm (sample_task run_env)" "exec_env e = run_env"
    using run_exec_sample by blast
  let ?d = "run_exec\<lparr>m_bpf := (m_bpf run_exec)\<lparr>ring := []\<rparr>\<rparr>"
  have d: "m_session ?d = startPhase ''ci'' 7 new_session" by (simp add: run_exec_def run_phase_simps(2))
  obtain p d1 where own: "exec_owner run_kernel e (exec_mask e) ?d = (p, d1)" by fastforce
  have p: "p = 1" "packageName p (m_session d1) = ''evil''"
    using run_owner [OF e(4,6) d, of "exec_mask e"] own by simp_all
  have comm: "event_comm e = takeWhile (\<lambda>c. c \<noteq> NUL) (tx_comm (sample_task run_env))"
    using run_task(1) e(7) by (simp add: event_comm_def task_ok_def)
  have act: "m_active (m_session ?d)" using d by (simp add: startPhase_def)
  have "exec_phase e = Some ''postinstall''" using run_task(6) e(8) by (simp add: exec_phase_def)
  then obtain d' f where f: "onExecEvent run_kernel e ?d = Some d'" "m_session d' = addFinding f (m_session d1)"
      "f_severity f = SevHigh" "f_package f = ''evil''"
      "if env_tokens run_env - {''GITHUB_TOKEN''} \<noteq> {}
       then f_rule_id f = TokenBearingDownloader \<and> set (f_tokens_exposed f) = env_tokens run_env
       else f_rule_id f = UnexpectedBinary \<and> f_tokens_exposed f = []"
    using exec_owner_finding [OF e(3) act _ own, of "''postinstall''"] run_task(2) e(8) p comm
    by (auto simp: lifecycle_phases_def)
  have "''NPM_TOKEN'' \<in> env_tokens run_env - {''GITHUB_TOKEN''}" using run_task(7) by simp
  then have rule: "f_rule_id f = TokenBearingDownloader" using f(5) by (auto split: if_splits)
  have c: "consume run_kernel run_exec = Some d'"
    using consume_single [OF e(1)] f(1) e(2,5) by (simp add: onEvent_exec)
  have "sys_step run_exec d'" using step_ready [of "RingReady run_kernel"] c by simp
  then have reach: "reachable run_start d'" by (rule reach_step [OF run_exec_reachable])
  have "m_findings (m_session d1) = []" "m_active (m_session d1)"
    using exec_owner_frame(5,6) [of run_kernel e "exec_mask e" ?d] own d by (simp_all add: startPhase_def new_session_def)
  then have "m_findings (m_session d') = [f]" "m_active (m_session d')"
    using f(2) by (simp_all add: session_simps)
  with c reach rule f(3,4) show ?thesis by blast
qed

end
