(* ===== verification/Interleaving.thy ===== *)
theory Interleaving
  imports Scenario
begin

text \<open>
  The system at the grain of its shared maps. In \<open>System\<close> a handler of the daemon and a kernel
  program are one step each; here a kernel program is two, its look-up in \<open>tracked_pids\<close> and
  what follows, and the daemon reads one sample or makes one system call of \<open>clearTrackedPids\<close>
  at a time. Any number of programs may be under way. The theory shows that every run of
  \<open>System\<close> is a run at this grain, what of the invariant survives it, how long clearing can take
  while processes fork, and what a program that has looked up its process before the phase
  ends does after it.
\<close>

section \<open>Steps\<close>

text \<open>
  Where the daemon is: in its event loop, or in the loop of \<open>clearTrackedPids\<close>, before it asks
  for the first key or before it deletes the key it was given.
\<close>

datatype control = EventLoop | NextKey | DeleteKey u32

definition delete_key :: "u32 \<Rightarrow> daemon \<Rightarrow> daemon" where
  "delete_key k d = d\<lparr>m_bpf := (m_bpf d)\<lparr>tracked_pids := (tracked_pids (m_bpf d))(k := None)\<rparr>\<rparr>"

definition pop_sample :: "u8 list list \<Rightarrow> daemon \<Rightarrow> daemon" where
  "pop_sample rest d = d\<lparr>m_bpf := (m_bpf d)\<lparr>ring := rest\<rparr>\<rparr>"

definition commit :: "program \<Rightarrow> tracked_pid_info \<Rightarrow> daemon \<Rightarrow> daemon" where
  "commit p info d = d\<lparr>m_bpf := program_commit p info (m_bpf d)\<rparr>"

definition exits :: "u32 \<Rightarrow> u32 \<Rightarrow> daemon \<Rightarrow> daemon" where
  "exits pid tgid d = d\<lparr>m_bpf := on_exit pid tgid (m_bpf d)\<rparr>"

text \<open>The kernel programs under way, each with the entry its look-up has found.\<close>

type_synonym fine_state = "control \<times> (program \<times> tracked_pid_info) list \<times> daemon"

text \<open>
  A step of the daemon is one sample of the ring, one request other than \<open>END-PHASE\<close>, or one
  system call of the loop that \<open>END-PHASE\<close> runs; the kernel and its answers may differ at
  each. A kernel program looks up its process, and goes on if it is tracked, at any time
  later; what it reads of the kernel is known then. The program at the exit of a process is
  one deletion.
\<close>

inductive fine_step :: "fine_state \<Rightarrow> fine_state \<Rightarrow> bool" where
  fine_begin: "looks_up p \<Longrightarrow> tracked_pids (m_bpf d) (program_pid p) = Some info \<Longrightarrow>
    fine_step (c, F, d) (c, (p, info) # F, d)"
| fine_commit: "(p, info) \<in> set F \<Longrightarrow> program_ok p \<Longrightarrow>
    fine_step (c, F, d) (c, remove1 (p, info) F, commit p info d)"
| fine_exit: "fine_step (c, F, d) (c, F, exits pid tgid d)"
| fine_sample: "kernel_ok K \<Longrightarrow> ring (m_bpf d) = bs # rest \<Longrightarrow> onEvent K bs (pop_sample rest d) = Some d' \<Longrightarrow>
    fine_step (EventLoop, F, d) (EventLoop, F, d')"
| fine_request: "kernel_ok K \<Longrightarrow> r \<noteq> EndPhaseRequest \<Longrightarrow>
    visit_request (daemon_handlers K) r d = Some (reply, d') \<Longrightarrow> fine_step (EventLoop, F, d) (EventLoop, F, d')"
| fine_end_phase: "fine_step (EventLoop, F, d) (NextKey, F, d\<lparr>m_session := endPhase (m_session d)\<rparr>)"
| fine_next_key: "kernel_ok K \<Longrightarrow> k_next_key K (tracked_pids (m_bpf d)) = Some k \<Longrightarrow>
    fine_step (NextKey, F, d) (DeleteKey k, F, d)"
| fine_delete_key: "fine_step (DeleteKey k, F, d) (NextKey, F, delete_key k d)"
| fine_cleared: "kernel_ok K \<Longrightarrow> k_next_key K (tracked_pids (m_bpf d)) = None \<Longrightarrow>
    fine_step (NextKey, F, d) (EventLoop, F, d)"

inductive_cases fine_clearing:
  "fine_step (NextKey, F, d) (c, F', d')" "fine_step (DeleteKey k, F, d) (c, F', d')"

text \<open>Induction over a run, state by state.\<close>

lemma run_induct [consumes 1, case_names start step]:
  fixes R :: "fine_state \<Rightarrow> fine_state \<Rightarrow> bool"
  assumes run: "R\<^sup>*\<^sup>* (c, F, d) (c', F', d')" and start: "P c F d"
    and step: "\<And>c1 F1 d1 c2 F2 d2. R\<^sup>*\<^sup>* (c, F, d) (c1, F1, d1) \<Longrightarrow> R (c1, F1, d1) (c2, F2, d2) \<Longrightarrow> P c1 F1 d1 \<Longrightarrow> P c2 F2 d2"
  shows "P c' F' d'"
proof -
  from run have "case (c', F', d') of (c, F, d) \<Rightarrow> P c F d"
  proof (induction rule: rtranclp_induct)
    case base
    show ?case using start by simp
  next
    case (step y z)
    then show ?case by (cases y; cases z) (auto intro: assms(3))
  qed
  then show ?thesis by simp
qed

lemma kernel_fields [simp]:
  "m_session (commit p info d) = m_session d" "m_args (commit p info d) = m_args d"
  "m_allowlist (commit p info d) = m_allowlist d" "m_bpf (commit p info d) = program_commit p info (m_bpf d)"
  "m_shouldExit (commit p info d) = m_shouldExit d" "m_stdout (commit p info d) = m_stdout d"
  "m_session (exits pid tgid d) = m_session d" "m_args (exits pid tgid d) = m_args d"
  "m_allowlist (exits pid tgid d) = m_allowlist d" "m_bpf (exits pid tgid d) = on_exit pid tgid (m_bpf d)"
  "m_shouldExit (exits pid tgid d) = m_shouldExit d" "m_stdout (exits pid tgid d) = m_stdout d"
  by (simp_all add: commit_def exits_def)

lemma on_exit_fields [simp]:
  "tracked_pids (on_exit pid tgid m) = (if pid = tgid then (tracked_pids m)(tgid := None) else tracked_pids m)"
  "mode_config (on_exit pid tgid m) = mode_config m" "bpf_allowlist (on_exit pid tgid m) = bpf_allowlist m"
  "ring (on_exit pid tgid m) = ring m"
  by (simp_all add: on_exit_def)

text \<open>A whole program is its two halves.\<close>

lemma program_fine:
  assumes "program_ok p"
  shows "fine_step\<^sup>*\<^sup>* (c, F, d) (c, F, d\<lparr>m_bpf := run_program p (m_bpf d)\<rparr>)"
proof (cases "looks_up p")
  case True
  note halves = run_program_halves [OF True, of "m_bpf d"]
  show ?thesis
  proof (cases "tracked_pids (m_bpf d) (program_pid p)")
    case None
    then show ?thesis by (simp add: halves)
  next
    case (Some info)
    have "fine_step (c, F, d) (c, (p, info) # F, d)" by (rule fine_begin [of p, OF True Some])
    moreover have "fine_step (c, (p, info) # F, d) (c, F, commit p info d)"
      using fine_commit [of p info "(p, info) # F" c d] assms by simp
    ultimately have "fine_step\<^sup>*\<^sup>* (c, F, d) (c, F, commit p info d)"
      by (blast intro: converse_rtranclp_into_rtranclp)
    then show ?thesis using Some by (simp add: halves commit_def)
  qed
next
  case False
  then obtain pid tgid where "p = Exit pid tgid" by (cases p) simp_all
  then show ?thesis using fine_exit [of c F d pid tgid] by (simp add: exits_def)
qed

section \<open>The invariant between the steps\<close>

text \<open>
  What the daemon's state keeps at every moment is \<open>shared_inv\<close>, and while the map is cleared no
  phase is active. That no process is tracked outside a phase is not kept: see below.
\<close>

fun fine_inv :: "fine_state \<Rightarrow> bool" where
  "fine_inv (c, F, d) \<longleftrightarrow> shared_inv d \<and> (c = EventLoop \<or> \<not> m_active (m_session d))"

lemma shared_inv_kernel:
  assumes "shared_inv d"
  shows "program_ok p \<Longrightarrow> shared_inv (commit p info d)" "shared_inv (exits pid tgid d)"
    "config (commit p info d) = config d" "config (exits pid tgid d) = config d"
proof -
  have "bpf_inv (enforce_mode d) (m_bpf d)" using assms by (simp add: shared_inv_def)
  moreover from this have "bpf_inv (enforce_mode d) (on_exit pid tgid (m_bpf d))"
    by (subst bpf_inv_cong [of _ "m_bpf d"]) simp_all
  ultimately show "program_ok p \<Longrightarrow> shared_inv (commit p info d)" "shared_inv (exits pid tgid d)"
    using assms program_commit_inv by (simp_all add: shared_inv_def enforce_mode_def)
  show "config (commit p info d) = config d" "config (exits pid tgid d) = config d"
    by (simp_all add: config_def program_commit_ring)
qed

lemma pop_sample_shared:
  assumes "shared_inv d" "ring (m_bpf d) = bs # rest"
  shows "shared_inv (pop_sample rest d)" "config (pop_sample rest d) = config d"
    "sample_ok bs" "blocked_sample bs \<longrightarrow> enforce_mode (pop_sample rest d)"
  using assms by (auto simp: shared_inv_def bpf_inv_def pop_sample_def enforce_mode_def enforcing_def config_def)

lemma visit_request_shared:
  assumes "kernel_ok K" "shared_inv d" "visit_request (daemon_handlers K) r d = Some (reply, d')"
  shows "shared_inv d' \<and> config d' = config d"
proof -
  have "kernel_ok K \<and> shared_inv d \<and> config d = config d" using assms by simp
  from shared_ipc.visit_request_keeps [OF this, of r] assms(3) show ?thesis by auto
qed

lemma delete_key_shared: "shared_inv d \<Longrightarrow> shared_inv (delete_key k d) \<and> config (delete_key k d) = config d"
  by (simp add: shared_inv_def delete_key_def enforce_mode_def bpf_inv_def enforcing_def config_def)

lemma fine_step_inv:
  "fine_step (c, F, d) (c', F', d') \<Longrightarrow> fine_inv (c, F, d) \<Longrightarrow> fine_inv (c', F', d') \<and> config d' = config d"
proof (induction rule: fine_step.induct [split_format (complete)])
  case (fine_sample K d bs rest d' F)
  have "shared_inv d" using fine_sample.prems by simp
  note pop = pop_sample_shared [OF this fine_sample.hyps(2)]
  show ?case using onEvent_shared [OF fine_sample.hyps(3) pop(1,4)] pop(2) by simp
next
  case (fine_request K r d reply d' F)
  then show ?case using visit_request_shared by simp
next
  case (fine_end_phase F d)
  then show ?case by (simp add: shared_inv_def session_simps enforce_mode_def config_def)
next
  case (fine_delete_key k F d)
  then show ?case using delete_key_shared [of d k] by (simp add: delete_key_def)
qed (simp_all add: shared_inv_kernel)

lemma fine_steps_inv:
  "fine_step\<^sup>*\<^sup>* (c, F, d) (c', F', d') \<Longrightarrow> fine_inv (c, F, d) \<Longrightarrow> fine_inv (c', F', d') \<and> config d' = config d"
  by (induction rule: run_induct) (auto dest: fine_step_inv simp del: fine_inv.simps)

lemma fine_from_start:
  assumes "kernel_ok K0" "daemon_init K0 mi ii ei (new_daemon args) = (True, d0)"
    and "fine_step\<^sup>*\<^sup>* (EventLoop, [], d0) (c, F, d)"
  shows "fine_inv (c, F, d)" "config d = config d0" "m_args d = args" "enforcing (m_bpf d) \<longleftrightarrow> da_mode args = Enforce"
proof -
  have "fine_inv (EventLoop, [], d0)" using daemon_init_inv [OF assms(1,2)] by (simp add: daemon_inv_shared)
  from fine_steps_inv [OF assms(3) this] show inv: "fine_inv (c, F, d)" and conf: "config d = config d0" by simp_all
  show args: "m_args d = args" using conf daemon_init_started(3) [OF assms(2)] by (simp add: config_def)
  show "enforcing (m_bpf d) \<longleftrightarrow> da_mode args = Enforce"
    using inv args by (simp add: shared_inv_def bpf_inv_def enforce_mode_def)
qed

text \<open>Well-typed sessions stay so.\<close>

lemma fine_step_typed:
  "fine_step (c, F, d) (c', F', d') \<Longrightarrow> fine_inv (c, F, d) \<Longrightarrow> session_typed (m_session d) \<Longrightarrow>
   session_typed (m_session d')"
proof (induction rule: fine_step.induct [split_format (complete)])
  case (fine_sample K d bs rest d' F)
  have "shared_inv d" using fine_sample.prems(1) by simp
  then have "sample_ok bs" by (rule pop_sample_shared(3) [OF _ fine_sample.hyps(2)])
  then show ?case using onEvent_typed [OF fine_sample.hyps(3)] fine_sample.prems(2) by (simp add: pop_sample_def)
next
  case (fine_request K r d reply d' F)
  then show ?case using visit_request_typed by simp
next
  case (fine_end_phase F d)
  have "session_typed (endPhase (m_session d)) = session_typed (m_session d)"
    by (rule session_typed_cong) (simp_all add: session_simps)
  then show ?case using fine_end_phase.prems by simp
qed (simp_all add: delete_key_def)

lemma fine_steps_typed:
  "fine_step\<^sup>*\<^sup>* (c, F, d) (c', F', d') \<Longrightarrow> fine_inv (c, F, d) \<Longrightarrow> session_typed (m_session d) \<Longrightarrow>
   session_typed (m_session d')"
proof (induction rule: run_induct)
  case (step c1 F1 d1 c2 F2 d2)
  then show ?case using fine_step_typed fine_steps_inv by blast
qed simp

section \<open>When nobody is watched outside a phase\<close>

text \<open>
  A run is orderly if no kernel program is under way at the moments the loop of \<open>END-PHASE\<close>
  finds the map empty. Then no process is tracked and no program under way whenever the
  daemon is in its event loop with no phase active.
\<close>

definition orderly_step :: "fine_state \<Rightarrow> fine_state \<Rightarrow> bool" where
  "orderly_step x y \<longleftrightarrow> fine_step x y \<and> (fst x = NextKey \<and> fst y = EventLoop \<longrightarrow> fst (snd x) = [])"

fun nobody_watched :: "fine_state \<Rightarrow> bool" where
  "nobody_watched (c, F, d) \<longleftrightarrow>
     (c = EventLoop \<and> \<not> m_active (m_session d) \<longrightarrow> F = [] \<and> tracked_pids (m_bpf d) = Map.empty)"

lemma request_tracked:
  assumes "kernel_ok K" "visit_request (daemon_handlers K) r d = Some (reply, d')" "r \<noteq> EndPhaseRequest"
    and "\<not> m_active (m_session d')"
  shows "\<not> m_active (m_session d) \<and> tracked_pids (m_bpf d') = tracked_pids (m_bpf d)"
proof (cases r)
  case (StartPhaseRequest pid phase)
  then obtain res where "onStartPhaseRequest K pid phase d = (res, d')"
    using assms(2) by (auto simp: visit_def daemon_handlers_def setupHandlers_def split: sum.splits prod.splits)
  then show ?thesis
    using assms(4) trackPid_result(2) [OF kernel_okD(1) [OF assms(1)], of pid "m_bpf d"]
    by (auto simp: onStartPhaseRequest_def isActive_def Let_def session_simps split: if_splits prod.splits)
qed (use assms(2-4) in \<open>auto simp: visit_def daemon_handlers_def setupHandlers_def onPingRequest_def onReportRequest_def
      onShutdownRequest_def split: if_splits\<close>)

lemma orderly_step_watched:
  assumes "fine_step (c, F, d) (c', F', d')" "c = NextKey \<and> c' = EventLoop \<longrightarrow> F = []" "nobody_watched (c, F, d)"
  shows "nobody_watched (c', F', d')"
  using assms
proof (induction rule: fine_step.induct [split_format (complete)])
  case (fine_sample K d bs rest d' F)
  have "m_active (m_session d') = m_active (m_session d)"
    using adds_one_event [OF fine_sample.hyps(3)] unfolding adds_one_def by (auto simp: pop_sample_def)
  moreover have "dom (tracked_pids (m_bpf d')) = dom (tracked_pids (m_bpf d))"
    using onEvent_dom [OF fine_sample.hyps(1,3)] by (simp add: pop_sample_def)
  ultimately show ?case using fine_sample.prems(2) by auto
next
  case (fine_request K r d reply d' F)
  then show ?case using request_tracked [OF fine_request.hyps(1,3,2)] by auto
next
  case (fine_cleared K d F)
  have "tracked_pids (m_bpf d) = Map.empty"
    by (rule bpf_keys.next_key_none [OF kernel_okD(4) [OF fine_cleared.hyps(1)] fine_cleared.hyps(2)])
  then show ?case using fine_cleared.prems(1) by simp
qed auto

lemma orderly_fine: "orderly_step\<^sup>*\<^sup>* x y \<Longrightarrow> fine_step\<^sup>*\<^sup>* x y"
  by (erule rtranclp_mono [THEN predicate2D, rotated]) (auto simp: orderly_step_def)

lemma orderly_watched:
  "orderly_step\<^sup>*\<^sup>* (c, F, d) (c', F', d') \<Longrightarrow> nobody_watched (c, F, d) \<Longrightarrow> nobody_watched (c', F', d')"
proof (induction rule: run_induct)
  case (step c1 F1 d1 c2 F2 d2)
  then show ?case using orderly_step_watched [of c1 F1 d1 c2 F2 d2] by (simp add: orderly_step_def del: nobody_watched.simps)
qed simp

section \<open>How long clearing takes\<close>

text \<open>
  A run of the loop: how many keys it has been given, and how many forks have gone on after
  their look-up meanwhile.
\<close>

inductive clear_run :: "fine_state \<Rightarrow> nat \<Rightarrow> nat \<Rightarrow> fine_state \<Rightarrow> bool" for x where
  clear_start: "clear_run x 0 0 x"
| clear_begin: "clear_run x i n (c, F, d) \<Longrightarrow> looks_up p \<Longrightarrow> tracked_pids (m_bpf d) (program_pid p) = Some info \<Longrightarrow>
    clear_run x i n (c, (p, info) # F, d)"
| clear_commit: "clear_run x i n (c, F, d) \<Longrightarrow> (p, info) \<in> set F \<Longrightarrow> program_ok p \<Longrightarrow>
    clear_run x i (n + forks p) (c, remove1 (p, info) F, commit p info d)"
| clear_exit: "clear_run x i n (c, F, d) \<Longrightarrow> clear_run x i n (c, F, exits pid tgid d)"
| clear_next: "clear_run x i n (NextKey, F, d) \<Longrightarrow> kernel_ok K \<Longrightarrow> k_next_key K (tracked_pids (m_bpf d)) = Some k \<Longrightarrow>
    clear_run x (Suc i) n (DeleteKey k, F, d)"
| clear_delete: "clear_run x i n (DeleteKey k, F, d) \<Longrightarrow> clear_run x i n (NextKey, F, delete_key k d)"

lemma clear_run_steps: "clear_run x i n y \<Longrightarrow> fine_step\<^sup>*\<^sup>* x y"
  by (induction rule: clear_run.induct) (auto intro: fine_step.intros rtranclp.rtrancl_into_rtrancl)

text \<open>Every way through the loop is such a run.\<close>

lemma clear_run_extend:
  assumes "clear_run x i n (c, F, d)" "c \<noteq> EventLoop" "fine_step (c, F, d) (c', F', d')" "c' \<noteq> EventLoop"
  shows "\<exists>i' n'. clear_run x i' n' (c', F', d')"
proof (cases c)
  case EventLoop
  with assms(2) show ?thesis by simp
next
  case NextKey
  show ?thesis
    by (rule fine_clearing(1) [OF assms(3) [unfolded NextKey]])
      (use assms(1,4) NextKey in \<open>blast intro: clear_run.intros\<close>)+
next
  case (DeleteKey k)
  show ?thesis
    by (rule fine_clearing(2) [OF assms(3) [unfolded DeleteKey]])
      (use assms(1) DeleteKey in \<open>blast intro: clear_run.intros\<close>)+
qed

text \<open>The keys still to be deleted, without the one the daemon is about to.\<close>

fun keys_left :: "fine_state \<Rightarrow> u32 set" where
  "keys_left (DeleteKey k, F, d) = dom (tracked_pids (m_bpf d)) - {k}"
| "keys_left (c, F, d) = dom (tracked_pids (m_bpf d))"

lemma keys_left_grow:
  assumes "card ks \<le> n" "finite ks" "dom (tracked_pids (m_bpf d')) \<subseteq> ks \<union> dom (tracked_pids (m_bpf d))"
  shows "card (keys_left (c, F', d')) \<le> card (keys_left (c, F, d)) + n"
proof -
  have "keys_left (c, F', d') \<subseteq> ks \<union> keys_left (c, F, d)" using assms(3) by (cases c) auto
  then have "card (keys_left (c, F', d')) \<le> card (ks \<union> keys_left (c, F, d))"
    by (rule card_mono [rotated]) simp
  also have "\<dots> \<le> card ks + card (keys_left (c, F, d))" by (rule card_Un_le)
  finally show ?thesis using assms(1) by simp
qed

lemma clear_run_bound: "clear_run x i n y \<Longrightarrow> i + card (keys_left y) \<le> card (keys_left x) + n"
proof (induction rule: clear_run.induct)
  case (clear_begin i n c F d p info)
  then show ?case by (cases c) simp_all
next
  case (clear_commit i n c F d p info)
  obtain ks where "card ks \<le> forks p" "finite ks"
    "dom (tracked_pids (m_bpf (commit p info d))) \<subseteq> ks \<union> dom (tracked_pids (m_bpf d))"
    using program_commit_dom [OF clear_commit.hyps(3), of info "m_bpf d"] by auto
  from keys_left_grow [OF this, of c "remove1 (p, info) F" F] clear_commit.IH show ?case by simp
next
  case (clear_exit i n c F d pid tgid)
  have "dom (tracked_pids (m_bpf (exits pid tgid d))) \<subseteq> {} \<union> dom (tracked_pids (m_bpf d))" by auto
  from keys_left_grow [of "{}" 0, OF _ _ this, of c F F] clear_exit.IH show ?case by simp
next
  case (clear_next i n F d K k)
  have "k \<in> dom (tracked_pids (m_bpf d))"
    by (rule bpf_keys.next_key_in [OF kernel_okD(4) [OF clear_next.hyps(2)] clear_next.hyps(3)])
  then have "Suc (card (dom (tracked_pids (m_bpf d)) - {k})) = card (dom (tracked_pids (m_bpf d)))"
    by (intro card_Suc_Diff1) simp_all
  then show ?case using clear_next.IH by simp
next
  case (clear_delete i n k F d)
  have "dom (tracked_pids (m_bpf (delete_key k d))) = dom (tracked_pids (m_bpf d)) - {k}"
    by (auto simp: delete_key_def)
  then show ?case using clear_delete.IH by simp
qed simp

text \<open>Nothing else of the daemon changes in the loop, and the kernel only adds samples.\<close>

lemma clear_run_frame:
  "clear_run x i n y \<Longrightarrow> m_session (snd (snd y)) = m_session (snd (snd x)) \<and>
     prefix (ring (m_bpf (snd (snd x)))) (ring (m_bpf (snd (snd y))))"
proof (induction rule: clear_run.induct)
  case (clear_commit i n c F d p info)
  then show ?case using program_commit_prefix [of "m_bpf d" p info] by (auto intro: prefix_order.trans)
qed (simp_all add: delete_key_def)

section \<open>Every run of the coarse system is a run of the fine one\<close>

text \<open>A handler does not look at the ring.\<close>

lemma setPackage_ring:
  "setPackageForPid K pid i (m\<lparr>ring := r\<rparr>) = (fst (setPackageForPid K pid i m), (snd (setPackageForPid K pid i m))\<lparr>ring := r\<rparr>)"
  by (simp add: setPackageForPid_def Let_def split: option.split prod.split)

lemma pop_fields [simp]:
  "m_session (pop_sample r d) = m_session d" "m_args (pop_sample r d) = m_args d"
  "m_allowlist (pop_sample r d) = m_allowlist d" "m_bpf (pop_sample r d) = (m_bpf d)\<lparr>ring := r\<rparr>"
  "pop_sample r (d\<lparr>m_session := s\<rparr>) = (pop_sample r d)\<lparr>m_session := s\<rparr>"
  "pop_sample r (pop_sample q d) = pop_sample r d" "pop_sample r (log_line l d) = log_line l (pop_sample r d)"
  by (simp_all add: pop_sample_def log_line_def)

lemma pop_by_cwd:
  "package_by_cwd K pid (pop_sample r d) = (fst (package_by_cwd K pid d), pop_sample r (snd (package_by_cwd K pid d)))"
  by (cases "packageFromCwd (readCwd K pid)")
    (simp_all add: package_by_cwd_none package_by_cwd_some setPackage_ring, simp add: pop_sample_def)

lemma pop_fork: "onForkEvent K e (pop_sample r d) = pop_sample r (onForkEvent K e d)"
proof -
  have "fork_parent K e (pop_sample r d) = (fst (fork_parent K e d), pop_sample r (snd (fork_parent K e d)))"
    by (simp add: fork_parent_def Let_def pop_by_cwd)
  then show ?thesis
    by (simp add: onForkEvent_parent Let_def setPackage_ring split: prod.split) (simp add: pop_sample_def)
qed

lemma pop_exec: "exec_body K e argv m po (pop_sample r d) = pop_sample r (exec_body K e argv m po d)"
proof -
  have "exec_owner K e m (pop_sample r d) = (fst (exec_owner K e m d), pop_sample r (snd (exec_owner K e m d)))"
    using pop_by_cwd [of K "h_pid (ex_hdr e)" r "d\<lparr>m_session := setPidTokens (h_pid (ex_hdr e)) m (m_session d)\<rparr>"]
    by (simp add: exec_owner_def Let_def)
  then show ?thesis by (simp add: exec_body_owner Let_def split: prod.split)
qed

lemma pop_event: "onEvent K bs (pop_sample r d) = map_option (pop_sample r) (onEvent K bs d)"
  by (auto simp: onEvent_def Let_def pop_fork onConnectEvent_def onOpenEvent_def onExecEvent_def pop_exec
      split: Option.bind_split)

lemma pop_empty: "ring (m_bpf d) = r \<Longrightarrow> pop_sample r d = d"
  by (auto simp: pop_sample_def)

text \<open>One read of the ring is one step for each of its samples.\<close>

lemma consume_fine:
  "ring (m_bpf d) = data \<Longrightarrow> consume_loop K data (pop_sample [] d) = Some d' \<Longrightarrow> kernel_ok K \<Longrightarrow>
   fine_step\<^sup>*\<^sup>* (EventLoop, F, d) (EventLoop, F, d')"
proof (induction data arbitrary: d)
  case Nil
  then show ?case by (simp add: pop_empty)
next
  case (Cons bs rest)
  then obtain d0 where d0: "onEvent K bs d = Some d0" "consume_loop K rest (pop_sample [] d0) = Some d'"
    by (auto simp: bind_eq_Some_conv pop_event)
  have "fine_step (EventLoop, F, d) (EventLoop, F, pop_sample rest d0)"
    by (rule fine_sample [OF Cons.prems(3,1)]) (simp add: pop_event d0(1))
  moreover have "fine_step\<^sup>*\<^sup>* (EventLoop, F, pop_sample rest d0) (EventLoop, F, d')"
    by (rule Cons.IH) (use d0(2) Cons.prems(3) in simp_all)
  ultimately show ?case by (rule converse_rtranclp_into_rtranclp)
qed

text \<open>
  Without kernel programs in between, the loop of \<open>END-PHASE\<close> does what \<open>clearTrackedPids\<close> does;
  it is in the loop until the last of its steps.
\<close>

fun in_phase :: "fine_state \<Rightarrow> bool" where
  "in_phase (c, F, d) \<longleftrightarrow> c \<noteq> EventLoop \<or> m_active (m_session d)"

definition phase_step :: "fine_state \<Rightarrow> fine_state \<Rightarrow> bool" where
  "phase_step x y \<longleftrightarrow> in_phase x \<and> fine_step x y"

lemma phase_step_fine: "phase_step\<^sup>*\<^sup>* x y \<Longrightarrow> fine_step\<^sup>*\<^sup>* x y"
  by (erule rtranclp_mono [THEN predicate2D, rotated]) (auto simp: phase_step_def)

lemma clear_loop_steps:
  assumes "kernel_ok K"
    and next_step: "\<And>d x. fine_step (NextKey, F, d) x \<Longrightarrow> R (NextKey, F, d) x"
    and delete_step: "\<And>k d x. fine_step (DeleteKey k, F, d) x \<Longrightarrow> R (DeleteKey k, F, d) x"
  shows "R\<^sup>*\<^sup>* (NextKey, F, d) (EventLoop, F, d\<lparr>m_bpf := (m_bpf d)\<lparr>tracked_pids := Map.empty\<rparr>\<rparr>)"
proof (induction "card (dom (tracked_pids (m_bpf d)))" arbitrary: d rule: less_induct)
  case less
  let ?t = "tracked_pids (m_bpf d)"
  show ?case
  proof (cases "k_next_key K ?t")
    case None
    then have "?t = Map.empty" by (rule bpf_keys.next_key_none [OF kernel_okD(4) [OF assms(1)]])
    then have "d\<lparr>m_bpf := (m_bpf d)\<lparr>tracked_pids := Map.empty\<rparr>\<rparr> = d"
      by (metis bpf_maps.surjective bpf_maps.update_convs(1) daemon.surjective daemon.update_convs(4))
    then show ?thesis using next_step [OF fine_cleared [OF assms(1) None]] by (simp add: r_into_rtranclp)
  next
    case (Some k)
    then have k: "k \<in> dom ?t" by (rule bpf_keys.next_key_in [OF kernel_okD(4) [OF assms(1)]])
    have "dom (tracked_pids (m_bpf (delete_key k d))) = dom ?t - {k}" by (auto simp: delete_key_def)
    then have "card (dom (tracked_pids (m_bpf (delete_key k d)))) < card (dom ?t)"
      using k by (simp only: card_Diff1_less [OF finite])
    from less [OF this] have "R\<^sup>*\<^sup>* (NextKey, F, delete_key k d)
        (EventLoop, F, d\<lparr>m_bpf := (m_bpf d)\<lparr>tracked_pids := Map.empty\<rparr>\<rparr>)"
      by (simp add: delete_key_def)
    then show ?thesis
      using next_step [OF fine_next_key [OF assms(1) Some]] delete_step [OF fine_delete_key [of k F d]]
      by (blast intro: converse_rtranclp_into_rtranclp)
  qed
qed

lemma clear_phase:
  assumes "kernel_ok K"
  shows "phase_step\<^sup>*\<^sup>* (NextKey, F, d) (EventLoop, F, d\<lparr>m_bpf := (m_bpf d)\<lparr>tracked_pids := Map.empty\<rparr>\<rparr>)"
  by (rule clear_loop_steps [OF assms]) (simp_all add: phase_step_def)

lemma clear_phase_ended:
  "kernel_ok K \<Longrightarrow> phase_step\<^sup>*\<^sup>* (NextKey, F, d\<lparr>m_session := endPhase (m_session d)\<rparr>) (EventLoop, F, phase_ended d)"
  using clear_phase [of K F "d\<lparr>m_session := endPhase (m_session d)\<rparr>"] by (simp add: phase_ended_def)

lemma end_phase_fine:
  assumes "kernel_ok K"
  shows "fine_step\<^sup>*\<^sup>* (EventLoop, F, d) (EventLoop, F, phase_ended d)"
proof -
  have "fine_step (EventLoop, F, d) (NextKey, F, d\<lparr>m_session := endPhase (m_session d)\<rparr>)" by (rule fine_end_phase)
  from converse_rtranclp_into_rtranclp [of fine_step, OF this phase_step_fine [OF clear_phase_ended [OF assms]]]
  show ?thesis .
qed

lemma request_fine:
  assumes "kernel_ok K" "visit_request (daemon_handlers K) r d = Some (reply, d')"
  shows "fine_step\<^sup>*\<^sup>* (EventLoop, F, d) (EventLoop, F, d')"
proof (cases "r = EndPhaseRequest")
  case True
  then have "d' = phase_ended d"
    using assms by (simp add: daemon_handlers_def setupHandlers_def visit_def end_phase_result phase_ended_def)
  then show ?thesis using end_phase_fine [OF assms(1)] by simp
next
  case False
  from r_into_rtranclp [of fine_step, OF fine_request [OF assms(1) False assms(2)]] show ?thesis .
qed

lemma sys_step_fine:
  assumes "sys_step d d'"
  shows "fine_step\<^sup>*\<^sup>* (EventLoop, F, d) (EventLoop, F, d')"
  using assms
proof (cases rule: sys_step.cases)
  case (step_program p)
  then show ?thesis using program_fine by simp
next
  case (step_ready ev)
  show ?thesis
  proof (rule handle_ready_cases [OF step_ready(2,1)])
    fix K
    assume "kernel_ok K" "consume K d = Some d'"
    then show ?thesis by (intro consume_fine) (simp_all add: consume_def pop_sample_def)
  qed (use request_fine in simp_all)
qed

lemma reachable_fine: "reachable d0 d \<Longrightarrow> fine_step\<^sup>*\<^sup>* (EventLoop, [], d0) (EventLoop, [], d)"
  by (induction rule: reachable.induct) (auto intro: rtranclp_trans sys_step_fine)

text \<open>With no program under way the end of a phase is orderly.\<close>

lemma end_phase_orderly:
  assumes "kernel_ok K"
  shows "orderly_step\<^sup>*\<^sup>* (EventLoop, [], d) (EventLoop, [], phase_ended d)"
proof -
  have orderly: "fine_step (c, [], d) x \<Longrightarrow> orderly_step (c, [], d) x" for c d x by (simp add: orderly_step_def)
  have "orderly_step\<^sup>*\<^sup>* (NextKey, [], d\<lparr>m_session := endPhase (m_session d)\<rparr>) (EventLoop, [], phase_ended d)"
    using clear_loop_steps [of K "[]" orderly_step "d\<lparr>m_session := endPhase (m_session d)\<rparr>"] assms orderly
    by (simp add: phase_ended_def)
  from converse_rtranclp_into_rtranclp [of orderly_step, OF orderly [OF fine_end_phase] this] show ?thesis .
qed

section \<open>Findings while a phase lasts\<close>

text \<open>
  From an active phase on, until the daemon is back in its event loop with the phase ended;
  kernel programs may be under way at either end.
\<close>

definition phase_run :: "daemon \<Rightarrow> daemon \<Rightarrow> bool" where
  "phase_run d0 d \<longleftrightarrow> (\<exists>F0 F. phase_step\<^sup>*\<^sup>* (EventLoop, F0, d0) (EventLoop, F, d))"

lemma phase_step_findings:
  "fine_step (c, F, d) (c', F', d') \<Longrightarrow> in_phase (c, F, d) \<Longrightarrow>
   prefix (m_findings (m_session d)) (m_findings (m_session d'))"
proof (induction rule: fine_step.induct [split_format (complete)])
  case (fine_sample K d bs rest d' F)
  then show ?case using adds_one_event [OF fine_sample.hyps(3)] by (auto simp: adds_one_def)
next
  case (fine_request K r d reply d' F)
  then show ?case using visit_request_findings [OF fine_request.hyps(1,3)] by simp
qed (simp_all add: session_simps delete_key_def)

lemma phase_steps_findings:
  "phase_step\<^sup>*\<^sup>* (c, F, d) (c', F', d') \<Longrightarrow> prefix (m_findings (m_session d)) (m_findings (m_session d'))"
proof (induction rule: run_induct)
  case (step c1 F1 d1 c2 F2 d2)
  then show ?case using phase_step_findings [of c1 F1 d1 c2 F2 d2]
    by (auto simp: phase_step_def simp del: in_phase.simps intro: prefix_order.trans)
qed simp

lemma phase_run_findings: "phase_run d0 d \<Longrightarrow> prefix (m_findings (m_session d0)) (m_findings (m_session d))"
  using phase_steps_findings unfolding phase_run_def by blast

lemma phase_run_ends:
  assumes "kernel_ok K" "m_active (m_session d)"
  shows "phase_run d (phase_ended d)"
proof -
  have "phase_step (EventLoop, [], d) (NextKey, [], d\<lparr>m_session := endPhase (m_session d)\<rparr>)"
    using assms(2) fine_end_phase by (simp add: phase_step_def)
  from converse_rtranclp_into_rtranclp [of phase_step, OF this clear_phase_ended [OF assms(1)]]
  show ?thesis unfolding phase_run_def by blast
qed

section \<open>A fork in two halves\<close>

text \<open>\<open>on_fork\<close> looks the parent up; \<^const>\<open>fork_commit\<close> is what follows.\<close>

lemma fork_commit_fields [simp]:
  "tracked_pids (fork_commit K sm now parent child info m) =
     snd (k_tracked_update K BPF_NOEXIST child info (tracked_pids m))"
  "mode_config (fork_commit K sm now parent child info m) = mode_config m"
  "bpf_allowlist (fork_commit K sm now parent child info m) = bpf_allowlist m"
  by (simp_all add: fork_commit_def submit_def Let_def split: option.split)

text \<open>The second half after the daemon has ended the phase.\<close>

lemma late_fork_tracked:
  assumes "kernel_ok K" "0 \<le> fst (k_tracked_update K BPF_NOEXIST child info Map.empty)"
    and "tracked_pids m = Map.empty"
  shows "tracked_pids (fork_commit K sm now parent child info m) = [child \<mapsto> info]"
proof -
  obtain r t where u: "k_tracked_update K BPF_NOEXIST child info Map.empty = (r, t)" by fastforce
  have "t = [child \<mapsto> info]" using bpf_map.update_ok [OF kernel_okD(1) [OF assms(1)] u] assms(2) u by simp
  with u assms(3) show ?thesis by simp
qed

lemma start_keeps_tracked:
  assumes "kernel_ok K" "onStartPhaseRequest K pid phase d = (r, d')" "tracked_pids (m_bpf d) child = Some info"
  shows "tracked_pids (m_bpf d') child = Some info"
proof -
  have "tracked_pids (snd (trackPid K pid (m_bpf d))) child = Some info"
    using trackPid_result [OF kernel_okD(1) [OF assms(1)], of pid "m_bpf d"] assms(3)
    by (cases "fst (trackPid K pid (m_bpf d))") auto
  then show ?thesis
    using assms(2,3) by (auto simp: onStartPhaseRequest_def Let_def split: if_splits prod.splits)
qed

text \<open>
  The run: the fork looks its parent up, the phase ends and the map is cleared, and the fork
  goes on. It is not orderly; at its end the daemon is in its event loop.
\<close>

lemma late_fork_run:
  assumes "kernel_ok K" "tracked_pids (m_bpf d) parent = Some info" "program_ok (Fork K sm now parent child)"
  shows "fine_step\<^sup>*\<^sup>* (EventLoop, [], d)
    (EventLoop, [], commit (Fork K sm now parent child) info (phase_ended d))"
proof -
  let ?p = "Fork K sm now parent child"
  have "fine_step (EventLoop, [], d) (EventLoop, [(?p, info)], d)"
    using fine_begin [of ?p d info EventLoop "[]"] assms(2) by simp
  moreover have "fine_step\<^sup>*\<^sup>* (EventLoop, [(?p, info)], d) (EventLoop, [(?p, info)], phase_ended d)"
    by (rule end_phase_fine [OF assms(1)])
  moreover have "fine_step (EventLoop, [(?p, info)], phase_ended d) (EventLoop, [], commit ?p info (phase_ended d))"
    using fine_commit [of ?p info "[(?p, info)]" EventLoop "phase_ended d"] assms(3) by simp
  ultimately show ?thesis by (meson converse_rtranclp_into_rtranclp rtranclp.rtrancl_into_rtrancl)
qed

section \<open>Properties\<close>

text \<open>
  C8: Every run of the system at the grain of whole handlers and whole kernel programs is a
  run at the grain of samples, system calls and half programs, with no program under way at
  either end: what holds of all states of the fine system holds of the coarse one.
\<close>

theorem atomic_runs_are_interleaved:
  assumes "reachable d0 d"
  shows "fine_step\<^sup>*\<^sup>* (EventLoop, [], d0) (EventLoop, [], d)"
  by (rule reachable_fine [OF assms])

lemma atomic_runs_are_interleaved_witness:
  "fine_step\<^sup>*\<^sup>* (EventLoop, [], run_start) (EventLoop, [], run_exec)"
  by (rule atomic_runs_are_interleaved [OF run_exec_reachable])

text \<open>
  C9: The loop of \<open>END-PHASE\<close> against processes that fork while it runs: it is given at most as
  many keys as there were tracked processes and forks together, those included that had
  looked up their parent before, and with the last of them the map is empty. It leaves the
  session as \<open>endPhase\<close> does, and the kernel programs only add samples to the ring.
\<close>

theorem clearing_bounded:
  assumes "clear_run (NextKey, F, d\<lparr>m_session := endPhase (m_session d)\<rparr>) i n (c, F', d')"
  shows "i \<le> card (dom (tracked_pids (m_bpf d))) + n \<and>
    (i = card (dom (tracked_pids (m_bpf d))) + n \<and> c = NextKey \<longrightarrow> tracked_pids (m_bpf d') = Map.empty) \<and>
    m_session d' = endPhase (m_session d) \<and> prefix (ring (m_bpf d)) (ring (m_bpf d'))"
  using clear_run_bound [OF assms] clear_run_frame [OF assms] by auto

lemma clearing_bounded_witness:
  "\<exists>d'. clear_run (NextKey, [], run_phase\<lparr>m_session := endPhase (m_session run_phase)\<rparr>) 1 0 (NextKey, [], d') \<and>
     tracked_pids (m_bpf d') = Map.empty"
proof -
  let ?d = "run_phase\<lparr>m_session := endPhase (m_session run_phase)\<rparr>"
  let ?t = "[7 \<mapsto> \<lparr>tp_session_id = 1, tp_package_id = 0\<rparr>] :: u32 \<rightharpoonup> tracked_pid_info"
  have t: "tracked_pids (m_bpf run_phase) = ?t" by (simp add: run_phase_def phase_started_def)
  then have "k_next_key run_kernel (tracked_pids (m_bpf ?d)) = Some 7"
    by (simp add: run_kernel_def plain_kernel_def least_key_def fun_upd_eqD)
  then have "clear_run (NextKey, [], ?d) 1 0 (NextKey, [], delete_key 7 ?d)"
    using clear_delete [OF clear_next [OF clear_start run_kernel_ok]] by simp
  moreover from clearing_bounded [OF this] t have "tracked_pids (m_bpf (delete_key 7 ?d)) = Map.empty" by simp
  ultimately show ?thesis by blast
qed

text \<open>
  The bound is attained: with one fork per deletion the loop does not end, however often it
  is given a key.
\<close>

lemma clearing_held_up:
  assumes "tracked_pids (m_bpf d) = [p \<mapsto> info]"
  shows "\<exists>d' q. clear_run (NextKey, [], d) i i (NextKey, [], d') \<and> tracked_pids (m_bpf d') = [q \<mapsto> info]"
proof (induction i)
  case 0
  then show ?case using assms clear_start by blast
next
  case (Suc i)
  then obtain d' q where d': "clear_run (NextKey, [], d) i i (NextKey, [], d')" "tracked_pids (m_bpf d') = [q \<mapsto> info]"
    by blast
  define f where "f = Fork plain_kernel None 0 q (q + 1)"
  have f: "looks_up f" "program_pid f = q" "program_ok f" "forks f = 1" by (simp_all add: f_def sample_room_def)
  let ?d = "commit f info d'"
  have t: "tracked_pids (m_bpf ?d) = [q \<mapsto> info, q + 1 \<mapsto> info]"
    using d'(2) by (simp add: f_def plain_kernel_def hash_update_def tracked_pids_entries_def)
  have "clear_run (NextKey, [], d) i i (NextKey, [(f, info)], d')"
    by (rule clear_begin [OF d'(1)]) (simp_all add: f d'(2))
  from clear_commit [OF this, of f info] have run: "clear_run (NextKey, [], d) i (Suc i) (NextKey, [], ?d)"
    by (simp add: f)
  obtain k where k: "k_next_key plain_kernel (tracked_pids (m_bpf ?d)) = Some k" "k \<in> dom (tracked_pids (m_bpf ?d))"
    using bpf_keys.next_key_exists [OF kernel_okD(4) [OF plain_kernel_ok], of "tracked_pids (m_bpf ?d)"] t by auto
  have "clear_run (NextKey, [], d) (Suc i) (Suc i) (NextKey, [], delete_key k ?d)"
    by (rule clear_delete [OF clear_next [OF run plain_kernel_ok k(1)]])
  moreover have "k = q \<or> k = q + 1" using k(2) t by (auto split: if_splits)
  then have "tracked_pids (m_bpf (delete_key k ?d)) = [q + 1 \<mapsto> info] \<or>
      tracked_pids (m_bpf (delete_key k ?d)) = [q \<mapsto> info]"
    by (auto simp: delete_key_def t [simplified] fun_eq_iff)
  ultimately show ?case by blast
qed

text \<open>
  C10: A fork that has looked its parent up during a phase, and adds the child when the daemon
  has ended the phase, leaves the child tracked: with no phase active it is refused every
  address that is not allowed, and the next phase watches it too, under the package number of
  the last one.
\<close>

theorem late_fork_watched:
  assumes "kernel_ok K" "onEndPhaseRequest K d = Some (r, d1)"
    and "0 \<le> fst (k_tracked_update K BPF_NOEXIST child info Map.empty)"
    and d2_def: "d2 = d1\<lparr>m_bpf := fork_commit K sm now parent child info (m_bpf d1)\<rparr>"
  shows "\<not> m_active (m_session d2) \<and> tracked_pids (m_bpf d2) = [child \<mapsto> info] \<and>
    fst (on_connect4 sm2 now2 child ip4 port (m_bpf d2)) =
      (if enforcing (m_bpf d) \<and> bpf_allowlist (m_bpf d) (mapV4 ip4) = None then 0 else 1) \<and>
    tracked_pids (m_bpf (snd (onStartPhaseRequest K pid phase d2))) child = Some info"
proof -
  have d1: "d1 = phase_ended d" using assms(1,2) by (simp add: end_phase_result phase_ended_def)
  have t: "tracked_pids (m_bpf d2) = [child \<mapsto> info]"
    using late_fork_tracked [OF assms(1,3), of "m_bpf d1"] by (simp add: d2_def d1 phase_ended_def)
  have s: "m_session d2 = endPhase (m_session d)" "enforcing (m_bpf d2) = enforcing (m_bpf d)"
    "bpf_allowlist (m_bpf d2) = bpf_allowlist (m_bpf d)"
    by (simp_all add: d2_def d1 phase_ended_def enforcing_def)
  have "tracked_pids (m_bpf (snd (onStartPhaseRequest K pid phase d2))) child = Some info"
    using start_keeps_tracked [OF assms(1) surjective_pairing] t by simp
  then show ?thesis using t s by (simp add: fst_connect session_simps)
qed

lemma run_refuses: "enforcing (m_bpf run_phase)" "bpf_allowlist (m_bpf run_phase) (mapV4 2) = None"
proof -
  have m: "mode_config (m_bpf run_phase) = mode_config (m_bpf run_start)"
    "bpf_allowlist (m_bpf run_phase) = bpf_allowlist (m_bpf run_start)"
    by (simp_all add: run_phase_def phase_started_def)
  have "enforcing (m_bpf run_start)"
    using run_start_inv daemon_init_started(3) [OF run_init]
    by (simp add: daemon_inv_def bpf_inv_def enforce_mode_def run_args_def)
  then show "enforcing (m_bpf run_phase)" by (simp add: enforcing_cong [OF m(1)])
  have "lists_agree run_start"
    by (rule daemon_init_agree [OF run_init])
      (simp_all add: run_args_def run_kernel_def plain_kernel_def run_allowlist allowlist_entries_def)
  then have "kernel_has (bpf_allowlist (m_bpf run_start)) (mapV4 2) = contains_v6 [mapV4 1] (mapV4 2)"
    by (simp add: lists_agree_def run_allowlist)
  then show "bpf_allowlist (m_bpf run_phase) (mapV4 2) = None"
    by (simp add: m(2) kernel_has_def contains_v6_def mapV4_inj)
qed

lemma late_fork_watched_witness:
  "\<exists>d1. onEndPhaseRequest run_kernel run_phase = Some (Inr OkResponse, d1) \<and> \<not> m_active (m_session d1) \<and>
     fst (on_connect4 None 0 8 2 443 (fork_commit run_kernel None 0 7 8 \<lparr>tp_session_id = 1, tp_package_id = 0\<rparr>
       (m_bpf d1))) = 0"
proof -
  obtain d1 where d1: "onEndPhaseRequest run_kernel run_phase = Some (Inr OkResponse, d1)"
    using end_phase_result [OF run_kernel_ok] by blast
  have u: "0 \<le> fst (k_tracked_update run_kernel BPF_NOEXIST 8 \<lparr>tp_session_id = 1, tp_package_id = 0\<rparr> Map.empty)"
    by (simp add: run_kernel_def plain_kernel_def hash_update_def tracked_pids_entries_def)
  from late_fork_watched [OF run_kernel_ok d1 u refl, of None 0 7 None 0 2 443] run_refuses d1 show ?thesis by auto
qed

end
