(* ===== verification/Unique_Fd.thy ===== *)
theory Unique_Fd
  imports Prelude
begin

text \<open>
  The owning file descriptor of \<^verbatim>\<open>src/common/uniquefd.h\<close>. An object is its one field
  \<open>m_fd\<close>; the constructors, assignments and the destructor also act on the process: they
  close descriptors, which the model records in the order of the calls. The second half runs
  programs over any number of such objects against the descriptor table of the process, where
  the system may hand out a closed descriptor again, and shows what the class is for: every
  close is of a descriptor that is open and that no other object owns, and none leaks.
\<close>

section \<open>The class\<close>

type_synonym unique_fd = int

definition fd_default :: unique_fd where "fd_default = -1"
definition fd_make :: "int \<Rightarrow> unique_fd" where "fd_make fd = fd"

text \<open>\<open>reset\<close>: the object afterwards, and the descriptors closed.\<close>

definition fd_reset :: "unique_fd \<Rightarrow> unique_fd \<times> int list" where
  "fd_reset m_fd = (-1, if 0 \<le> m_fd then [m_fd] else [])"

text \<open>\<open>release\<close>: the value returned, and the object afterwards.\<close>

definition fd_release :: "unique_fd \<Rightarrow> int \<times> unique_fd" where
  "fd_release m_fd = (m_fd, -1)"

definition fd_handle :: "unique_fd \<Rightarrow> int" where "fd_handle m_fd = m_fd"

definition fd_bool :: "unique_fd \<Rightarrow> bool" where "fd_bool m_fd \<longleftrightarrow> fd_handle m_fd \<noteq> -1"

text \<open>Move construction: the new object and the source afterwards.\<close>

definition fd_move :: "unique_fd \<Rightarrow> unique_fd \<times> unique_fd" where
  "fd_move other = fd_release other"

text \<open>
  Move assignment of two different objects: the target, the source, the descriptors closed.
  (Assigning an object to itself returns at once.)
\<close>

definition fd_move_assign :: "unique_fd \<Rightarrow> unique_fd \<Rightarrow> unique_fd \<times> unique_fd \<times> int list" where
  "fd_move_assign this other =
     (let (_, closed) = fd_reset this; (fd, other') = fd_release other in (fd, other', closed))"

definition fd_destroy :: "unique_fd \<Rightarrow> int list" where
  "fd_destroy m_fd = snd (fd_reset m_fd)"

section \<open>Programs over objects\<close>

text \<open>
  Objects are named by numbers. \<open>Open x fd\<close> constructs an object from the result of a system
  call: a descriptor that was not open before, or a negative number. \<open>Release\<close> hands the
  descriptor out of the class, whoever gets it may close it by \<open>CloseReleased\<close>.
\<close>

datatype fd_op =
    Open nat int
  | MoveTo nat nat \<comment> \<open>construct the first object from the second\<close>
  | Assign nat nat \<comment> \<open>move-assign the second object to the first\<close>
  | Reset nat
  | Release nat
  | Destroy nat
  | CloseReleased int

text \<open>\<open>stray\<close> collects the calls of \<open>close\<close> on a descriptor that is not open.\<close>

record fd_state =
  objects :: "nat \<rightharpoonup> unique_fd"
  fd_table :: "int set"
  released :: "int set"
  stray :: "int list"

definition fd_init :: fd_state where
  "fd_init = \<lparr>objects = Map.empty, fd_table = {}, released = {}, stray = []\<rparr>"

fun close_fds :: "int list \<Rightarrow> fd_state \<Rightarrow> fd_state" where
  "close_fds [] s = s"
| "close_fds (fd # fds) s =
     close_fds fds
       (if fd \<in> fd_table s then s\<lparr>fd_table := fd_table s - {fd}\<rparr> else s\<lparr>stray := stray s @ [fd]\<rparr>)"

text \<open>An operation on an object that does not exist (or a second construction) is no program step.\<close>

fun fd_step :: "fd_op \<Rightarrow> fd_state \<Rightarrow> fd_state option" where
  "fd_step (Open x fd) s =
     (if objects s x = None \<and> fd \<notin> fd_table s
      then Some (s\<lparr>objects := (objects s)(x \<mapsto> fd_make fd),
                  fd_table := (if 0 \<le> fd then insert fd (fd_table s) else fd_table s)\<rparr>)
      else None)"
| "fd_step (MoveTo x y) s =
     (case objects s y of
        None \<Rightarrow> None
      | Some other \<Rightarrow>
          if objects s x = None
          then (let (this, other') = fd_move other
                in Some (s\<lparr>objects := (objects s)(x \<mapsto> this, y \<mapsto> other')\<rparr>))
          else None)"
| "fd_step (Assign x y) s =
     (case (objects s x, objects s y) of
        (Some this, Some other) \<Rightarrow>
          if x = y then Some s
          else (let (this', other', c) = fd_move_assign this other
                in Some (close_fds c (s\<lparr>objects := (objects s)(x \<mapsto> this', y \<mapsto> other')\<rparr>)))
      | _ \<Rightarrow> None)"
| "fd_step (Reset x) s =
     (case objects s x of
        None \<Rightarrow> None
      | Some this \<Rightarrow>
          (let (this', c) = fd_reset this
           in Some (close_fds c (s\<lparr>objects := (objects s)(x \<mapsto> this')\<rparr>))))"
| "fd_step (Release x) s =
     (case objects s x of
        None \<Rightarrow> None
      | Some this \<Rightarrow>
          (let (fd, this') = fd_release this
           in Some (s\<lparr>objects := (objects s)(x \<mapsto> this'),
                      released := (if 0 \<le> fd then insert fd (released s) else released s)\<rparr>)))"
| "fd_step (Destroy x) s =
     (case objects s x of
        None \<Rightarrow> None
      | Some this \<Rightarrow> Some (close_fds (fd_destroy this) (s\<lparr>objects := (objects s)(x := None)\<rparr>)))"
| "fd_step (CloseReleased fd) s =
     (if fd \<in> released s then Some (close_fds [fd] (s\<lparr>released := released s - {fd}\<rparr>)) else None)"

fun fd_run :: "fd_op list \<Rightarrow> fd_state \<Rightarrow> fd_state option" where
  "fd_run [] s = Some s"
| "fd_run (p # ps) s = (case fd_step p s of None \<Rightarrow> None | Some s' \<Rightarrow> fd_run ps s')"

section \<open>Ownership\<close>

definition owned_by :: "(nat \<rightharpoonup> unique_fd) \<Rightarrow> int set" where
  "owned_by m = {fd. 0 \<le> fd \<and> (\<exists>x. m x = Some fd)}"

definition sole_owner :: "(nat \<rightharpoonup> unique_fd) \<Rightarrow> bool" where
  "sole_owner m \<longleftrightarrow> (\<forall>x y fd. m x = Some fd \<and> m y = Some fd \<and> 0 \<le> fd \<longrightarrow> x = y)"

definition fd_inv :: "fd_state \<Rightarrow> bool" where
  "fd_inv s \<longleftrightarrow> sole_owner (objects s) \<and> fd_table s = owned_by (objects s) \<union> released s \<and>
     owned_by (objects s) \<inter> released s = {} \<and> (\<forall>fd \<in> released s. 0 \<le> fd) \<and> stray s = []"

lemmas fd_defs = fd_make_def fd_move_def fd_release_def fd_move_assign_def fd_reset_def fd_destroy_def

lemma owned_mem: "m x = Some fd \<Longrightarrow> 0 \<le> fd \<Longrightarrow> fd \<in> owned_by m"
  by (auto simp: owned_by_def)

lemma owned_neg: "fd < 0 \<Longrightarrow> fd \<notin> owned_by m"
  by (simp add: owned_by_def)

lemma owned_open:
  "m x = None \<Longrightarrow> owned_by (m(x \<mapsto> fd)) = (if 0 \<le> fd then insert fd (owned_by m) else owned_by m)"
proof -
  assume x: "m x = None"
  have "(\<exists>z. (m(x \<mapsto> fd)) z = Some g) \<longleftrightarrow> g = fd \<or> (\<exists>z. m z = Some g)" for g
    using x by (metis fun_upd_apply option.distinct(1) option.inject)
  then show ?thesis by (auto simp: owned_by_def simp del: fun_upd_apply)
qed

lemma sole_open: "sole_owner m \<Longrightarrow> fd \<notin> owned_by m \<Longrightarrow> sole_owner (m(x \<mapsto> fd))"
  by (auto simp: owned_by_def sole_owner_def)

lemma owned_clear:
  assumes "sole_owner m" "m x = Some fd" "v = None \<or> v = Some (-1)"
  shows "owned_by (m(x := v)) = owned_by m - {fd}"
proof -
  have "0 \<le> g \<Longrightarrow> (\<exists>z. (m(x := v)) z = Some g) \<longleftrightarrow> g \<noteq> fd \<and> (\<exists>z. m z = Some g)" for g
    using assms by (simp add: sole_owner_def)
      (metis neg_0_le_iff_le not_one_le_zero option.distinct(1) option.inject)
  then show ?thesis by (auto simp: owned_by_def simp del: fun_upd_apply)
qed

lemma sole_clear: "sole_owner m \<Longrightarrow> v = None \<or> v = Some (-1) \<Longrightarrow> sole_owner (m(x := v))"
  by (auto simp: sole_owner_def)

text \<open>Both moves first empty the source; then the target takes the descriptor over.\<close>

lemma move_as_open:
  assumes "sole_owner m" "m y = Some fd" "m x = None" "x \<noteq> y"
  shows "owned_by (m(x \<mapsto> fd, y \<mapsto> -1)) = owned_by m" "sole_owner (m(x \<mapsto> fd, y \<mapsto> -1))"
proof -
  let ?m = "m(y \<mapsto> -1)"
  have m: "m(x \<mapsto> fd, y \<mapsto> -1) = ?m(x \<mapsto> fd)" using assms(4) by (rule fun_upd_twist)
  have o: "owned_by ?m = owned_by m - {fd}" by (rule owned_clear [OF assms(1,2)]) simp
  have "owned_by (?m(x \<mapsto> fd)) = (if 0 \<le> fd then insert fd (owned_by ?m) else owned_by ?m)"
    by (rule owned_open) (use assms(3,4) in simp)
  also have "\<dots> = owned_by m"
    unfolding o using owned_mem [of m y fd] owned_neg [of fd m] assms(2) by auto
  finally show "owned_by (m(x \<mapsto> fd, y \<mapsto> -1)) = owned_by m" by (simp only: m)
  show "sole_owner (m(x \<mapsto> fd, y \<mapsto> -1))"
    unfolding m by (rule sole_open [OF sole_clear]) (use assms(1) o in auto)
qed

lemma assign_as_open:
  assumes "sole_owner m" "m x = Some a" "m y = Some b" "x \<noteq> y"
  shows "owned_by (m(x \<mapsto> b, y \<mapsto> -1)) = owned_by m - {a}" "sole_owner (m(x \<mapsto> b, y \<mapsto> -1))"
proof -
  let ?m = "m(x := None)"
  have m: "m(x \<mapsto> b, y \<mapsto> -1) = ?m(x \<mapsto> b, y \<mapsto> -1)" by simp
  have s: "sole_owner ?m" using assms(1) by (simp add: sole_clear)
  have y: "?m y = Some b" using assms(3,4) by simp
  show "owned_by (m(x \<mapsto> b, y \<mapsto> -1)) = owned_by m - {a}"
    unfolding m using move_as_open(1) [OF s y _ assms(4)] owned_clear [OF assms(1,2), of None]
    by (simp only: fun_upd_same simp_thms)
  show "sole_owner (m(x \<mapsto> b, y \<mapsto> -1))"
    unfolding m using move_as_open(2) [OF s y _ assms(4)] by (simp only: fun_upd_same simp_thms)
qed

lemma fd_inv_init: "fd_inv fd_init"
  by (simp add: fd_inv_def fd_init_def owned_by_def sole_owner_def)

text \<open>Closing what one object owned.\<close>

lemma close_owned:
  assumes "fd_inv s" "objects s x = Some a" "sole_owner m" "owned_by m = owned_by (objects s) - {a}"
  shows "fd_inv (close_fds (if 0 \<le> a then [a] else []) (s\<lparr>objects := m\<rparr>))"
proof (cases "0 \<le> a")
  case True
  then have "a \<in> owned_by (objects s)" using assms(2) by (simp add: owned_mem)
  with True assms show ?thesis by (auto simp: fd_inv_def)
next
  case False
  then have "owned_by m = owned_by (objects s)" using assms(4) owned_neg [of a] by auto
  with False assms show ?thesis by (simp add: fd_inv_def)
qed

lemma fd_inv_step:
  assumes "fd_inv s" "fd_step p s = Some t"
  shows "fd_inv t"
proof (cases p)
  case (Open x fd)
  have "sole_owner ((objects s)(x \<mapsto> fd))" if "fd \<notin> fd_table s"
    by (rule sole_open) (use that assms(1) in \<open>simp_all add: fd_inv_def\<close>)
  with Open assms show ?thesis by (auto simp: fd_make_def fd_inv_def owned_open split: if_splits)
next
  case (MoveTo x y)
  then obtain fd where y: "objects s y = Some fd" and x: "objects s x = None"
    and t: "t = s\<lparr>objects := (objects s)(x \<mapsto> fd, y \<mapsto> -1)\<rparr>"
    using assms(2) by (auto simp: fd_defs split: option.splits if_splits)
  have "x \<noteq> y" using x y by auto
  with move_as_open [OF _ y x this] assms(1) show ?thesis by (simp add: t fd_inv_def)
next
  case (Assign x y)
  then obtain a b where x: "objects s x = Some a" and y: "objects s y = Some b"
    using assms(2) by (auto split: option.splits)
  show ?thesis
  proof (cases "x = y")
    case True
    then show ?thesis using Assign assms x by simp
  next
    case False
    have "sole_owner (objects s)" using assms(1) by (simp add: fd_inv_def)
    note m = assign_as_open [OF this x y False]
    from close_owned [OF assms(1) x m(2,1)] show ?thesis
      using Assign assms(2) x y False by (simp add: fd_defs)
  qed
next
  case (Reset x)
  then obtain a where x: "objects s x = Some a" using assms(2) by (auto split: option.splits)
  have so: "sole_owner (objects s)" using assms(1) by (simp add: fd_inv_def)
  from close_owned [OF assms(1) x sole_clear [OF so] owned_clear [OF so x], of "Some (-1)"]
  show ?thesis using Reset assms(2) x by (simp add: fd_defs)
next
  case (Release x)
  then obtain a where x: "objects s x = Some a" using assms(2) by (auto split: option.splits)
  have so: "sole_owner (objects s)" using assms(1) by (simp add: fd_inv_def)
  from sole_clear [OF so] owned_clear [OF so x, of "Some (-1)"] owned_mem [of "objects s" x a] x owned_neg [of a "objects s"]
  show ?thesis using Release assms x by (cases "0 \<le> a") (auto simp: fd_defs fd_inv_def)
next
  case (Destroy x)
  then obtain a where x: "objects s x = Some a" using assms(2) by (auto split: option.splits)
  have so: "sole_owner (objects s)" using assms(1) by (simp add: fd_inv_def)
  from close_owned [OF assms(1) x sole_clear [OF so] owned_clear [OF so x], of None]
  show ?thesis using Destroy assms(2) x by (simp add: fd_defs)
next
  case (CloseReleased fd)
  with assms show ?thesis by (auto simp: fd_inv_def split: if_splits)
qed

lemma fd_inv_run: "fd_inv s \<Longrightarrow> fd_run ps s = Some t \<Longrightarrow> fd_inv t"
  by (induction ps arbitrary: s) (auto dest: fd_inv_step split: option.splits)

section \<open>Properties\<close>

text \<open>
  C36: In every program that uses descriptors only through \<open>UniqueFD\<close>, however it moves,
  assigns, resets and destroys the objects: no close is of a descriptor that is not open (so
  none happens twice), no two objects own one descriptor, and every open descriptor is owned
  by an object or was released by one, so destroying the objects leaks none.
\<close>

theorem unique_ownership:
  assumes "fd_run ps fd_init = Some s"
  shows "stray s = [] \<and> sole_owner (objects s) \<and> fd_table s = owned_by (objects s) \<union> released s \<and>
    (objects s = Map.empty \<longrightarrow> fd_table s = released s)"
  using fd_inv_run [OF fd_inv_init assms] by (simp add: fd_inv_def owned_by_def)

lemma unique_ownership_witness:
  "\<exists>s. fd_run [Open 0 5, MoveTo 1 0, Open 2 7, Assign 1 2, Reset 1, Open 3 7, Destroy 3, Destroy 2, Destroy 0,
      Destroy 1] fd_init = Some s \<and> stray s = [] \<and> fd_table s = {}"
proof -
  let ?ps = "[Open 0 5, MoveTo 1 0, Open 2 7, Assign 1 2, Reset 1, Open 3 7, Destroy 3, Destroy 2, Destroy 0,
      Destroy 1]"
  obtain s where s: "fd_run ?ps fd_init = Some s" "fd_table s = {}"
    by (simp add: fd_init_def fd_defs) auto
  with unique_ownership [OF s(1)] show ?thesis by blast
qed

end
