(* ===== verification/Startup.thy ===== *)
theory Startup
  imports Daemon_Server Unique_Fd
begin

text \<open>
  What \<open>blastguardd\<close> acquires from the operating system and gives back: \<open>EBPFManager::init\<close>
  (\<^verbatim>\<open>src/daemon/ebpfmanager.cpp\<close>), \<open>IPCServer::init\<close> (\<^verbatim>\<open>src/daemon/ipcserver.cpp\<close>),
  \<open>Daemon::setupEpoll\<close> (\<^verbatim>\<open>src/daemon/daemon.cpp\<close>), the destructors of their members, and
  the \<open>main\<close> function around them. The results of the system and library calls are the record
  \<open>start_calls\<close>; \<open>os\<close> is what the process holds. The second half shows that the detailed
  start-up implements \<open>daemon_init\<close>, that it either succeeds with everything in place or fails,
  and that after the destructors nothing is held, whichever call failed.
\<close>

section \<open>What a process holds\<close>

datatype bpf_prog = On_fork | On_exit | On_exec | On_openat | On_openat2 | On_connect4 | On_connect6

datatype resource = Skeleton | Link bpf_prog | RingBuffer | Fd int

text \<open>
  \<open>os_bound\<close> has the abstract socket names the process listens on, with the descriptor;
  \<open>os_watched\<close> the pairs of an epoll instance and a descriptor in its interest list; \<open>os_faults\<close> counts
  releases of what is not held (double frees).
\<close>

record os =
  os_held :: "resource set"
  os_bound :: "int \<rightharpoonup> string"
  os_listening :: "int set"
  os_watched :: "(int \<times> int) set"
  os_faults :: nat

definition new_os :: os where
  "new_os = \<lparr>os_held = {}, os_bound = Map.empty, os_listening = {}, os_watched = {}, os_faults = 0\<rparr>"

definition acquire :: "resource \<Rightarrow> os \<Rightarrow> os" where
  "acquire r s = s\<lparr>os_held := insert r (os_held s)\<rparr>"

definition free :: "resource \<Rightarrow> os \<Rightarrow> os" where
  "free r s = (if r \<in> os_held s then s\<lparr>os_held := os_held s - {r}\<rparr> else s\<lparr>os_faults := Suc (os_faults s)\<rparr>)"

text \<open>A call that returns a descriptor, or a negative number.\<close>

definition acquire_fd :: "int \<Rightarrow> os \<Rightarrow> os" where
  "acquire_fd fd s = (if 0 \<le> fd then acquire (Fd fd) s else s)"

text \<open>
  The calls of \<open>close\<close> an operation on a \<open>UniqueFD\<close> makes; a closed socket is unbound, and
  leaves the interest lists.
\<close>

definition close_fd :: "int \<Rightarrow> os \<Rightarrow> os" where
  "close_fd fd s =
     (free (Fd fd) s)\<lparr>os_bound := (os_bound s)(fd := None), os_listening := os_listening s - {fd},
       os_watched := {(e, w) \<in> os_watched s. e \<noteq> fd \<and> w \<noteq> fd}\<rparr>"

definition close_all :: "int list \<Rightarrow> os \<Rightarrow> os" where
  "close_all fds s = fold close_fd fds s"

text \<open>What the calls return: a null pointer is \<^const>\<open>False\<close>, a failed call negative.\<close>

record start_calls =
  sc_open_and_load :: bool
  sc_attach :: "bpf_prog \<Rightarrow> bool"
  sc_open_cgroup :: int
  sc_attach_cgroup :: "bpf_prog \<Rightarrow> bool"
  sc_ring_buffer_new :: bool
  sc_ring_buffer_fd :: int
  sc_socket :: int
  sc_bind :: int
  sc_listen :: int
  sc_epoll_create :: int
  sc_epoll_ctl :: "int \<Rightarrow> int"

section \<open>EBPFManager\<close>

text \<open>The owning members; a unique pointer is \<^const>\<open>True\<close> when it is not null.\<close>

record ebpf_members =
  m_skel :: bool
  m_cgroupFD :: unique_fd
  m_ringBuf :: bool
  m_links :: "bpf_prog list"

definition new_manager :: ebpf_members where
  "new_manager = \<lparr>m_skel = False, m_cgroupFD = fd_default, m_ringBuf = False, m_links = []\<rparr>"

text \<open>
  The deleter of the unique pointers, called by their destructor and by \<open>reset\<close>; it skips null.
\<close>

definition GenericDeleter :: "(os \<Rightarrow> os) \<Rightarrow> bool \<Rightarrow> os \<Rightarrow> os" where
  "GenericDeleter freeFunc t s = (if \<not> t then s else freeFunc s)"

definition bpfLinkFree :: "bpf_prog \<Rightarrow> os \<Rightarrow> os" where
  "bpfLinkFree link s = free (Link link) s"

definition bpfSkelDestroy :: "os \<Rightarrow> os" where
  "bpfSkelDestroy s = free Skeleton s"

definition tp_progs :: "bpf_prog list" where
  "tp_progs = [On_fork, On_exit, On_exec, On_openat, On_openat2]"

definition cg_progs :: "bpf_prog list" where
  "cg_progs = [On_connect4, On_connect6]"

text \<open>Both loops: attach one program after the other, and return at the first that fails.\<close>

fun attach_loop :: "(bpf_prog \<Rightarrow> bool) \<Rightarrow> bpf_prog list \<Rightarrow> ebpf_members \<Rightarrow> os \<Rightarrow> bool \<times> ebpf_members \<times> os"
where
  "attach_loop attach [] m s = (True, m, s)"
| "attach_loop attach (prog # progs) m s =
     (if \<not> attach prog then (False, m, s)
      else attach_loop attach progs (m\<lparr>m_links := m_links m @ [prog]\<rparr>) (acquire (Link prog) s))"

definition manager_init :: "start_calls \<Rightarrow> ebpf_members \<Rightarrow> os \<Rightarrow> bool \<times> ebpf_members \<times> os" where
  "manager_init C m s =
     (if \<not> sc_open_and_load C then (False, m, s)
      else
        (let s = GenericDeleter bpfSkelDestroy (m_skel m) s;
             s = acquire Skeleton s;
             m = m\<lparr>m_skel := True\<rparr>;
             (ok, m, s) = attach_loop (sc_attach C) tp_progs m s
         in if \<not> ok then (False, m, s)
            else
              (let s = acquire_fd (sc_open_cgroup C) s;
                   (fd, tmp, closed) = fd_move_assign (m_cgroupFD m) (fd_make (sc_open_cgroup C));
                   s = close_all (fd_destroy tmp) (close_all closed s);
                   m = m\<lparr>m_cgroupFD := fd\<rparr>
               in if \<not> fd_bool (m_cgroupFD m) then (False, m, s)
                  else
                    (let (ok, m, s) = attach_loop (sc_attach_cgroup C) cg_progs m s
                     in if \<not> ok then (False, m, s)
                        else if \<not> sc_ring_buffer_new C then (False, m, s)
                        else
                          (let s = GenericDeleter (free RingBuffer) (m_ringBuf m) s;
                               s = acquire RingBuffer s
                           in (True, m\<lparr>m_ringBuf := True\<rparr>, s))))))"

text \<open>The destructor: the members in the opposite of the order they are declared in.\<close>

definition manager_destroy :: "ebpf_members \<Rightarrow> os \<Rightarrow> os" where
  "manager_destroy m s =
     (let s = fold bpfLinkFree (m_links m) s;
          s = GenericDeleter (free RingBuffer) (m_ringBuf m) s;
          s = close_all (fd_destroy (m_cgroupFD m)) s
      in GenericDeleter bpfSkelDestroy (m_skel m) s)"

section \<open>IPCServer and epoll\<close>

text \<open>\<open>fd\<close> is a local object: it is destroyed on every way out.\<close>

definition ipc_init :: "start_calls \<Rightarrow> unique_fd \<Rightarrow> os \<Rightarrow> bool \<times> unique_fd \<times> os" where
  "ipc_init C m_listenFd s =
     (let s = acquire_fd (sc_socket C) s;
          fd = fd_make (sc_socket C)
      in if \<not> fd_bool fd then (False, m_listenFd, close_all (fd_destroy fd) s)
         else if sc_bind C < 0 then (False, m_listenFd, close_all (fd_destroy fd) s)
         else
           (let s = s\<lparr>os_bound := (os_bound s)(fd_handle fd \<mapsto> NUL # socket_name)\<rparr>
            in if sc_listen C < 0 then (False, m_listenFd, close_all (fd_destroy fd) s)
               else
                 (let s = s\<lparr>os_listening := insert (fd_handle fd) (os_listening s)\<rparr>;
                      (m_listenFd, fd, closed) = fd_move_assign m_listenFd fd
                  in (True, m_listenFd, close_all (fd_destroy fd) (close_all closed s)))))"

definition setupEpoll :: "start_calls \<Rightarrow> int \<Rightarrow> int \<Rightarrow> unique_fd \<Rightarrow> os \<Rightarrow> bool \<times> unique_fd \<times> os" where
  "setupEpoll C listen_fd ring_buf_fd m_epollFd s =
     (let s = acquire_fd (sc_epoll_create C) s;
          (m_epollFd, tmp, closed) = fd_move_assign m_epollFd (fd_make (sc_epoll_create C));
          s = close_all (fd_destroy tmp) (close_all closed s)
      in if \<not> fd_bool m_epollFd then (False, m_epollFd, s)
         else if sc_epoll_ctl C listen_fd < 0 then (False, m_epollFd, s)
         else
           (let s = s\<lparr>os_watched := insert (fd_handle m_epollFd, listen_fd) (os_watched s)\<rparr>
            in if sc_epoll_ctl C ring_buf_fd < 0 then (False, m_epollFd, s)
               else (True, m_epollFd, s\<lparr>os_watched := insert (fd_handle m_epollFd, ring_buf_fd) (os_watched s)\<rparr>)))"

section \<open>The daemon\<close>

record members =
  p_mgr :: ebpf_members
  p_listenFd :: unique_fd
  p_epollFd :: unique_fd

definition new_members :: members where
  "new_members = \<lparr>p_mgr = new_manager, p_listenFd = fd_default, p_epollFd = fd_default\<rparr>"

definition listenFd :: "members \<Rightarrow> int" where
  "listenFd P = fd_handle (p_listenFd P)"

text \<open>
  \<open>Daemon::init\<close>, with the calls it makes. \<open>setupHandlers\<close> acquires nothing; what it does is
  \<open>daemon_handlers\<close>.
\<close>

definition startup :: "kernel \<Rightarrow> start_calls \<Rightarrow> daemon \<Rightarrow> members \<Rightarrow> os \<Rightarrow> bool \<times> daemon \<times> members \<times> os" where
  "startup K C d P s =
     (let (ok, mgr, s) = manager_init C (p_mgr P) s;
          P = P\<lparr>p_mgr := mgr\<rparr>
      in if \<not> ok then (False, d, P, s)
         else
           (let d = d\<lparr>m_allowlist := add_hosts K (da_allowed_hosts (m_args d)) (m_allowlist d)\<rparr>;
                (ok, b) = setMode K (da_mode (m_args d)) (m_bpf d);
                d = d\<lparr>m_bpf := b\<rparr>
            in if \<not> ok then (False, d, P, s)
               else
                 (let as = addrs (m_allowlist d);
                      d = (if da_mode (m_args d) = Enforce
                           then d\<lparr>m_bpf := add_addrs K as (m_bpf d)\<rparr> else d);
                      (ok, fd, s) = ipc_init C (p_listenFd P) s;
                      P = P\<lparr>p_listenFd := fd\<rparr>
                  in if \<not> ok then (False, d, P, s)
                     else
                       (let (ok, fd, s) = setupEpoll C (listenFd P) (sc_ring_buffer_fd C) (p_epollFd P) s
                        in (ok, d, P\<lparr>p_epollFd := fd\<rparr>, s)))))"

text \<open>The destructor of \<open>Daemon\<close>: the epoll descriptor, the server, the manager.\<close>

definition daemon_destroy :: "members \<Rightarrow> os \<Rightarrow> os" where
  "daemon_destroy P s =
     manager_destroy (p_mgr P)
       (close_all (fd_destroy (p_listenFd P)) (close_all (fd_destroy (p_epollFd P)) s))"

section \<open>The start-up implements daemon_init\<close>

definition manager_calls_ok :: "start_calls \<Rightarrow> bool" where
  "manager_calls_ok C \<longleftrightarrow> sc_open_and_load C \<and> (\<forall>p \<in> set tp_progs. sc_attach C p) \<and> sc_open_cgroup C \<noteq> -1 \<and>
     (\<forall>p \<in> set cg_progs. sc_attach_cgroup C p) \<and> sc_ring_buffer_new C"

definition ipc_calls_ok :: "start_calls \<Rightarrow> bool" where
  "ipc_calls_ok C \<longleftrightarrow> sc_socket C \<noteq> -1 \<and> 0 \<le> sc_bind C \<and> 0 \<le> sc_listen C"

definition epoll_calls_ok :: "start_calls \<Rightarrow> bool" where
  "epoll_calls_ok C \<longleftrightarrow> sc_epoll_create C \<noteq> -1 \<and> 0 \<le> sc_epoll_ctl C (sc_socket C) \<and>
     0 \<le> sc_epoll_ctl C (sc_ring_buffer_fd C)"

lemmas fd_simps = fd_defs listenFd_def fd_bool_def fd_handle_def fd_default_def

lemma attach_loop_result:
  "attach_loop attach ps m s =
     (\<forall>p \<in> set ps. attach p, m\<lparr>m_links := m_links m @ takeWhile attach ps\<rparr>,
      s\<lparr>os_held := os_held s \<union> Link ` set (takeWhile attach ps)\<rparr>)"
proof (induction ps arbitrary: m s)
  case Nil
  then show ?case by simp
next
  case (Cons p ps)
  have "A \<union> Link ` {x. x = p \<or> x \<in> B} = insert (Link p) (A \<union> Link ` B)" for A B by blast
  with Cons show ?case by (simp add: acquire_def)
qed

lemma fst_manager_init: "fst (manager_init C m s) = manager_calls_ok C"
  by (auto simp: manager_init_def manager_calls_ok_def attach_loop_result Let_def fd_simps split: prod.split)

lemma ipc_init_result:
  "fst (ipc_init C m s) = ipc_calls_ok C" "ipc_calls_ok C \<Longrightarrow> fst (snd (ipc_init C m s)) = sc_socket C"
  by (auto simp: ipc_init_def ipc_calls_ok_def Let_def fd_simps split: prod.split)

lemma fst_setupEpoll: "fst (setupEpoll C (sc_socket C) (sc_ring_buffer_fd C) m s) = epoll_calls_ok C"
  by (auto simp: setupEpoll_def epoll_calls_ok_def Let_def fd_simps split: prod.split)

lemma startup_refines:
  assumes "startup K C d P s = (ok, d', P', s')"
  shows "daemon_init K (manager_calls_ok C) (ipc_calls_ok C) (epoll_calls_ok C) d = (ok, d')"
proof -
  obtain b1 mgr s1 where m: "manager_init C (p_mgr P) s = (b1, mgr, s1)" by (rule prod_cases3)
  obtain ok2 b where mode: "setMode K (da_mode (m_args d)) (m_bpf d) = (ok2, b)" by fastforce
  obtain b2 fd s2 where i: "ipc_init C (p_listenFd P) s1 = (b2, fd, s2)" by (rule prod_cases3)
  obtain b3 ep s3 where e: "setupEpoll C (sc_socket C) (sc_ring_buffer_fd C) (p_epollFd P) s2 = (b3, ep, s3)"
    by (rule prod_cases3)
  have b: "b1 = manager_calls_ok C" "b2 = ipc_calls_ok C" "b2 \<Longrightarrow> fd = sc_socket C" "b3 = epoll_calls_ok C"
    using fst_manager_init [of C "p_mgr P" s] ipc_init_result [of C "p_listenFd P" s1]
      fst_setupEpoll [of C "p_epollFd P" s2] m i e by auto
  show ?thesis
    using assms b(3) unfolding startup_def daemon_init_def b(1,2,4) [symmetric]
    by (cases b1; cases ok2; cases b2) (auto simp: m mode i e listenFd_def fd_handle_def Let_def)
qed

section \<open>Ownership\<close>

text \<open>
  What the documentation of the calls says of their results: -1 or a descriptor, and no
  descriptor that is open already.
\<close>

definition calls_ok :: "start_calls \<Rightarrow> bool" where
  "calls_ok C \<longleftrightarrow> -1 \<le> sc_open_cgroup C \<and> -1 \<le> sc_socket C \<and> -1 \<le> sc_epoll_create C \<and> 0 \<le> sc_ring_buffer_fd C \<and>
     distinct (filter (\<lambda>fd. 0 \<le> fd) [sc_open_cgroup C, sc_socket C, sc_epoll_create C, sc_ring_buffer_fd C])"

definition fd_holds :: "unique_fd \<Rightarrow> resource set" where
  "fd_holds fd = (if 0 \<le> fd then {Fd fd} else {})"

definition manager_holds :: "ebpf_members \<Rightarrow> resource set" where
  "manager_holds m =
     (if m_skel m then {Skeleton} else {}) \<union> Link ` set (m_links m) \<union>
     (if m_ringBuf m then {RingBuffer} else {}) \<union> fd_holds (m_cgroupFD m)"

definition members_hold :: "members \<Rightarrow> resource set" where
  "members_hold P = manager_holds (p_mgr P) \<union> fd_holds (p_listenFd P) \<union> fd_holds (p_epollFd P)"

definition member_fds :: "members \<Rightarrow> int list" where
  "member_fds P = filter (\<lambda>fd. 0 \<le> fd) [m_cgroupFD (p_mgr P), p_listenFd P, p_epollFd P]"

text \<open>The process holds what its members own, each thing once; only its own sockets are bound.\<close>

definition os_inv :: "members \<Rightarrow> os \<Rightarrow> bool" where
  "os_inv P s \<longleftrightarrow> os_held s = members_hold P \<and> os_faults s = 0 \<and> distinct (m_links (p_mgr P)) \<and>
     distinct (member_fds P) \<and> dom (os_bound s) \<subseteq> {p_listenFd P} \<inter> {0..} \<and>
     os_listening s \<subseteq> {p_listenFd P} \<inter> {0..} \<and> fst ` os_watched s \<subseteq> {p_epollFd P} \<inter> {0..}"

lemma free_held [simp]: "r \<in> os_held s \<Longrightarrow> free r s = s\<lparr>os_held := os_held s - {r}\<rparr>"
  by (simp add: free_def)

lemma link_free_held [simp]: "Link p \<in> os_held s \<Longrightarrow> bpfLinkFree p s = s\<lparr>os_held := os_held s - {Link p}\<rparr>"
  by (simp add: bpfLinkFree_def)

lemma skel_destroy [simp]: "bpfSkelDestroy = free Skeleton"
  by (rule ext) (simp add: bpfSkelDestroy_def)

lemma free_links:
  "distinct ps \<Longrightarrow> Link ` set ps \<subseteq> os_held s \<Longrightarrow>
   fold bpfLinkFree ps s = s\<lparr>os_held := os_held s - Link ` set ps\<rparr>"
proof (induction ps arbitrary: s)
  case Nil
  then show ?case by simp
next
  case (Cons p ps)
  let ?s = "s\<lparr>os_held := os_held s - {Link p}\<rparr>"
  have "Link ` set ps \<subseteq> os_held ?s" using Cons.prems by auto
  then have "fold bpfLinkFree ps ?s = s\<lparr>os_held := os_held s - {Link p} - Link ` set ps\<rparr>"
    using Cons by simp
  moreover have "os_held s - {Link p} - Link ` set ps = os_held s - Link ` set (p # ps)" by auto
  ultimately show ?case using Cons.prems by simp
qed

text \<open>The destructor of a member that owns a descriptor.\<close>

lemma destroy_fd:
  "fd < 0 \<Longrightarrow> close_all (fd_destroy fd) s = s"
  "0 \<le> fd \<Longrightarrow> Fd fd \<in> os_held s \<Longrightarrow> close_all (fd_destroy fd) s =
     s\<lparr>os_held := os_held s - {Fd fd}, os_bound := (os_bound s)(fd := None), os_listening := os_listening s - {fd},
       os_watched := {(e, w) \<in> os_watched s. e \<noteq> fd \<and> w \<noteq> fd}\<rparr>"
  by (simp_all add: close_all_def close_fd_def fd_simps)

text \<open>Nothing is left, and nothing is released that is not held.\<close>

lemma close_fields [simp]:
  "fd_holds fd \<subseteq> os_held s \<Longrightarrow> os_faults (close_all (fd_destroy fd) s) = os_faults s"
  "fd_holds fd \<subseteq> os_held s \<Longrightarrow> os_held (close_all (fd_destroy fd) s) = os_held s - fd_holds fd"
  "fd_holds fd \<subseteq> os_held s \<Longrightarrow> os_listening (close_all (fd_destroy fd) s) = os_listening s - {fd} \<inter> {0..}"
  "fd_holds fd \<subseteq> os_held s \<Longrightarrow> os_watched (close_all (fd_destroy fd) s) =
     {(e, w) \<in> os_watched s. 0 \<le> fd \<longrightarrow> e \<noteq> fd \<and> w \<noteq> fd}"
  "fd_holds fd \<subseteq> os_held s \<Longrightarrow> os_bound (close_all (fd_destroy fd) s) =
     (if 0 \<le> fd then (os_bound s)(fd := None) else os_bound s)"
  by (cases "0 \<le> fd"; simp add: destroy_fd fd_holds_def; fail)+

lemma delete_fields [simp]:
  "(if ptr then {r} else {}) \<subseteq> os_held s \<Longrightarrow>
   GenericDeleter (free r) ptr s = s\<lparr>os_held := os_held s - (if ptr then {r} else {})\<rparr>"
  by (cases ptr) (simp_all add: GenericDeleter_def)

lemma manager_destroy_result:
  assumes "manager_holds m \<subseteq> os_held s" "distinct (m_links m)"
  shows "os_held (manager_destroy m s) = os_held s - manager_holds m"
    and "os_faults (manager_destroy m s) = os_faults s"
    and "os_bound s = Map.empty \<Longrightarrow> os_bound (manager_destroy m s) = Map.empty"
    and "os_listening s = {} \<Longrightarrow> os_listening (manager_destroy m s) = {}"
    and "os_watched s = {} \<Longrightarrow> os_watched (manager_destroy m s) = {}"
proof -
  have s: "Link ` set (m_links m) \<subseteq> os_held s" "(if m_ringBuf m then {RingBuffer} else {}) \<subseteq> os_held s - Link ` set (m_links m)"
    "fd_holds (m_cgroupFD m) \<subseteq> os_held s - Link ` set (m_links m) - (if m_ringBuf m then {RingBuffer} else {})"
    "(if m_skel m then {Skeleton} else {}) \<subseteq> os_held s - Link ` set (m_links m) -
       (if m_ringBuf m then {RingBuffer} else {}) - fd_holds (m_cgroupFD m)"
    using assms(1) by (auto simp: manager_holds_def fd_holds_def split: if_splits)
  note eq = manager_destroy_def Let_def free_links [OF assms(2) s(1)]
  show "os_held (manager_destroy m s) = os_held s - manager_holds m"
    using s by (simp add: eq) (auto simp: manager_holds_def)
  show "os_faults (manager_destroy m s) = os_faults s" using s by (simp add: eq)
  show "os_bound s = Map.empty \<Longrightarrow> os_bound (manager_destroy m s) = Map.empty" using s by (simp add: eq)
  show "os_listening s = {} \<Longrightarrow> os_listening (manager_destroy m s) = {}" using s by (simp add: eq)
  show "os_watched s = {} \<Longrightarrow> os_watched (manager_destroy m s) = {}" using s by (simp add: eq)
qed

lemma os_eq_new:
  "os_held s = {} \<Longrightarrow> os_faults s = 0 \<Longrightarrow> os_bound s = Map.empty \<Longrightarrow> os_listening s = {} \<Longrightarrow>
   os_watched s = {} \<Longrightarrow> s = new_os"
  by (simp add: new_os_def)

lemma destroy_releases:
  assumes "os_inv P s"
  shows "daemon_destroy P s = new_os"
proof -
  define s1 where "s1 = close_all (fd_destroy (p_epollFd P)) s"
  define s2 where "s2 = close_all (fd_destroy (p_listenFd P)) s1"
  have h: "fd_holds (p_epollFd P) \<subseteq> os_held s" "fd_holds (p_listenFd P) \<subseteq> os_held s - fd_holds (p_epollFd P)"
    "manager_holds (p_mgr P) \<subseteq> os_held s - fd_holds (p_epollFd P) - fd_holds (p_listenFd P)"
    using assms by (auto simp: os_inv_def members_hold_def manager_holds_def fd_holds_def member_fds_def split: if_splits)
  have all: "os_held s - fd_holds (p_epollFd P) - fd_holds (p_listenFd P) - manager_holds (p_mgr P) = {}"
    using assms by (auto simp: os_inv_def members_hold_def)
  have s2: "os_held s2 = os_held s - fd_holds (p_epollFd P) - fd_holds (p_listenFd P)" "os_faults s2 = 0"
    using h assms by (simp_all add: s1_def s2_def os_inv_def)
  have d: "dom (os_bound s) \<subseteq> {p_listenFd P} \<inter> {0..}" using assms by (simp only: os_inv_def)
  have "os_bound s fd = None" if "fd \<noteq> p_listenFd P \<or> fd < 0" for fd
  proof (rule ccontr)
    assume "os_bound s fd \<noteq> None"
    then have "fd \<in> dom (os_bound s)" by (rule iffD2 [OF domIff])
    from subsetD [OF d this] that show False by simp
  qed
  then have b: "os_bound s2 = Map.empty" using h by (intro ext) (simp add: s1_def s2_def)
  have l: "os_listening s2 = {}" using assms h by (auto simp: s1_def s2_def os_inv_def)
  have "e = p_epollFd P \<and> 0 \<le> e" if "(e, v) \<in> os_watched s" for e v
    using assms that by (force simp: os_inv_def)
  then have w: "os_watched s2 = {}" using h by (auto simp: s1_def s2_def)
  have "manager_holds (p_mgr P) \<subseteq> os_held s2" "distinct (m_links (p_mgr P))"
    using h(3) s2(1) assms by (simp_all add: os_inv_def)
  note m = manager_destroy_result [OF this]
  show ?thesis
    unfolding daemon_destroy_def s1_def [symmetric] s2_def [symmetric]
    by (rule os_eq_new) (use m s2 all b l w in \<open>simp_all\<close>)
qed

section \<open>What each step leaves\<close>

lemma progs_distinct: "distinct (tp_progs @ cg_progs)"
  by (simp add: tp_progs_def cg_progs_def)

lemma progs_prefix_distinct: "distinct (takeWhile P tp_progs)" "distinct (tp_progs @ takeWhile P cg_progs)"
  using progs_distinct by (auto dest: set_takeWhileD)

lemma manager_init_state:
  assumes "manager_init C new_manager new_os = (ok, m, s)" "-1 \<le> sc_open_cgroup C"
  shows "s = new_os\<lparr>os_held := manager_holds m\<rparr> \<and> distinct (m_links m) \<and>
    (m_cgroupFD m = -1 \<or> m_cgroupFD m = sc_open_cgroup C) \<and>
    (ok \<longrightarrow> m = \<lparr>m_skel = True, m_cgroupFD = sc_open_cgroup C, m_ringBuf = True, m_links = tp_progs @ cg_progs\<rparr>)"
proof -
  note defs = manager_init_def attach_loop_result fd_simps new_manager_def new_os_def acquire_def acquire_fd_def
    GenericDeleter_def close_all_def manager_holds_def fd_holds_def
  let ?tp = "\<forall>p \<in> set tp_progs. sc_attach C p" and ?cg = "\<forall>p \<in> set cg_progs. sc_attach_cgroup C p"
  have tw: "?tp \<Longrightarrow> takeWhile (sc_attach C) tp_progs = tp_progs" "?cg \<Longrightarrow> takeWhile (sc_attach_cgroup C) cg_progs = cg_progs"
    by (simp_all add: takeWhile_eq_all_conv)
  consider "\<not> sc_open_and_load C" | "sc_open_and_load C" "\<not> ?tp" | "sc_open_and_load C" ?tp "sc_open_cgroup C = -1"
    | "sc_open_and_load C" ?tp "0 \<le> sc_open_cgroup C"
    using assms(2) by linarith
  then show ?thesis
  proof cases
    case 4
    let ?links = "tp_progs @ takeWhile (sc_attach_cgroup C) cg_progs"
    let ?r = "manager_init C new_manager new_os"
    have "fst ?r = (?cg \<and> sc_ring_buffer_new C)"
      "fst (snd ?r) = \<lparr>m_skel = True, m_cgroupFD = sc_open_cgroup C, m_ringBuf = fst ?r, m_links = ?links\<rparr>"
      "os_bound (snd (snd ?r)) = Map.empty" "os_listening (snd (snd ?r)) = {}"
      "os_watched (snd (snd ?r)) = {}" "os_faults (snd (snd ?r)) = 0"
      using 4 by (simp_all add: defs tw Let_def)
    moreover have "os_held (snd (snd ?r)) = manager_holds (fst (snd ?r))"
      using 4 by (cases ?cg; cases "sc_ring_buffer_new C"; simp add: defs tw Let_def image_Un; blast)
    ultimately have "ok = (?cg \<and> sc_ring_buffer_new C)"
      "m = \<lparr>m_skel = True, m_cgroupFD = sc_open_cgroup C, m_ringBuf = ok, m_links = ?links\<rparr>"
      "s = new_os\<lparr>os_held := manager_holds m\<rparr>"
      unfolding assms(1) fst_conv snd_conv by (simp_all add: new_os_def)
    then show ?thesis using progs_prefix_distinct(2) tw(2) by auto
  next
    case 1
    then have "ok = False \<and> m = new_manager \<and> s = new_os" using assms(1) by (simp add: manager_init_def)
    then show ?thesis by (simp add: defs)
  next
    case 2
    then have "ok = False" "m = new_manager\<lparr>m_skel := True, m_links := takeWhile (sc_attach C) tp_progs\<rparr>"
      "s = new_os\<lparr>os_held := manager_holds m\<rparr>"
      using assms(1) by (auto simp: defs Let_def)
    then show ?thesis using progs_prefix_distinct(1) by (simp add: new_manager_def fd_default_def)
  next
    case 3
    then have "ok = False" "m = new_manager\<lparr>m_skel := True, m_links := tp_progs\<rparr>"
      "s = new_os\<lparr>os_held := manager_holds m\<rparr>"
      using assms(1) tw(1) by (auto simp: defs Let_def)
    then show ?thesis using progs_distinct by (simp add: new_manager_def fd_default_def)
  qed
qed

lemma ipc_init_state:
  assumes "ipc_init C (-1) s = (ok, fd, s')" "-1 \<le> sc_socket C" "Fd (sc_socket C) \<notin> os_held s"
    and "os_bound s = Map.empty" "os_listening s = {}" "os_watched s = {}"
  shows "if ok then fd = sc_socket C \<and> 0 \<le> fd \<and>
      s' = s\<lparr>os_held := insert (Fd fd) (os_held s), os_bound := [fd \<mapsto> NUL # socket_name], os_listening := {fd}\<rparr>
    else fd = -1 \<and> s' = s"
proof (cases "sc_socket C = -1")
  case True
  then show ?thesis
    using assms by (simp add: ipc_init_def Let_def fd_simps acquire_fd_def close_all_def)
next
  case False
  then have fd: "0 \<le> sc_socket C" using assms(2) by simp
  have undo: "close_all [sc_socket C] (s\<lparr>os_held := insert (Fd (sc_socket C)) (os_held s), os_bound := b\<rparr>) = s"
    if b: "b(sc_socket C := None) = Map.empty" for b :: "int \<rightharpoonup> string"
    using assms(3-6) b by (simp add: close_all_def close_fd_def)
  have undo_held: "close_all [sc_socket C] (s\<lparr>os_held := insert (Fd (sc_socket C)) (os_held s)\<rparr>) = s"
    using assms(3-6) by (simp add: close_all_def close_fd_def)
  show ?thesis
    using assms fd False undo_held undo [of Map.empty] undo [of "[sc_socket C \<mapsto> NUL # socket_name]"]
    by (auto simp: ipc_init_def Let_def fd_simps acquire_fd_def acquire_def close_all_def split: if_splits)
qed

lemma setupEpoll_state:
  assumes "setupEpoll C l r (-1) s = (ok, fd, s')" "-1 \<le> sc_epoll_create C" "os_watched s = {}"
  shows "os_held s' = os_held s \<union> fd_holds fd \<and> os_faults s' = os_faults s \<and> os_bound s' = os_bound s \<and>
    os_listening s' = os_listening s \<and> fst ` os_watched s' \<subseteq> {fd} \<inter> {0..} \<and>
    (fd = -1 \<or> fd = sc_epoll_create C) \<and>
    (ok \<longrightarrow> fd = sc_epoll_create C \<and> 0 \<le> fd \<and> os_watched s' = {(fd, l), (fd, r)})"
  using assms
  by (auto simp: setupEpoll_def Let_def fd_simps acquire_fd_def acquire_def close_all_def fd_holds_def
      split: if_splits)

text \<open>The whole start-up from a new process.\<close>

definition start_members :: "start_calls \<Rightarrow> members" where
  "start_members C =
     \<lparr>p_mgr = \<lparr>m_skel = True, m_cgroupFD = sc_open_cgroup C, m_ringBuf = True, m_links = tp_progs @ cg_progs\<rparr>,
      p_listenFd = sc_socket C, p_epollFd = sc_epoll_create C\<rparr>"

definition start_os :: "start_calls \<Rightarrow> os" where
  "start_os C =
     \<lparr>os_held = {Skeleton, RingBuffer, Fd (sc_open_cgroup C), Fd (sc_socket C), Fd (sc_epoll_create C)} \<union> range Link,
      os_bound = [sc_socket C \<mapsto> NUL # socket_name], os_listening = {sc_socket C},
      os_watched = {(sc_epoll_create C, sc_socket C), (sc_epoll_create C, sc_ring_buffer_fd C)}, os_faults = 0\<rparr>"

lemma startup_state:
  assumes "startup K C d new_members new_os = (ok, d', P, s)" "calls_ok C"
  shows "os_inv P s" and "ok \<Longrightarrow> P = start_members C \<and> s = start_os C"
proof -
  have fds: "-1 \<le> sc_open_cgroup C" "-1 \<le> sc_socket C" "-1 \<le> sc_epoll_create C"
    and dist: "distinct (filter (\<lambda>fd. 0 \<le> fd) [sc_open_cgroup C, sc_socket C, sc_epoll_create C])"
    using assms(2) by (auto simp: calls_ok_def)
  obtain b1 m s1 where m: "manager_init C new_manager new_os = (b1, m, s1)" by (rule prod_cases3)
  note ms = manager_init_state [OF m fds(1)]
  obtain b2 l s2 where i: "ipc_init C (-1) s1 = (b2, l, s2)" by (rule prod_cases3)
  obtain b3 e s3 where e: "setupEpoll C l (sc_ring_buffer_fd C) (-1) s2 = (b3, e, s3)" by (rule prod_cases3)
  obtain ok2 b where mode: "setMode K (da_mode (m_args d)) (m_bpf d) = (ok2, b)" by fastforce
  have stop: "p_mgr P = m \<and> p_listenFd P = -1 \<and> p_epollFd P = -1 \<and> s = s1 \<and> \<not> ok" if "\<not> (b1 \<and> ok2)"
    using assms(1) m mode that
    by (auto simp: startup_def new_members_def fd_default_def Let_def split: if_splits prod.splits)
  have go: "p_mgr P = m \<and> (if b2 then p_listenFd P = l \<and> p_epollFd P = e \<and> s = s3 \<and> ok = b3
      else p_listenFd P = l \<and> p_epollFd P = -1 \<and> s = s2 \<and> \<not> ok)" if "b1" "ok2"
    using assms(1) m mode i e that
    by (auto simp: startup_def new_members_def fd_default_def listenFd_def fd_handle_def Let_def split: if_splits prod.splits)
  have s1: "Fd (sc_socket C) \<notin> os_held s1" "os_bound s1 = Map.empty" "os_listening s1 = {}" "os_watched s1 = {}"
    "os_faults s1 = 0" "os_held s1 = manager_holds m" "distinct (m_links m)"
    using ms dist by (auto simp: new_os_def manager_holds_def fd_holds_def split: if_splits)
  note ipc = ipc_init_state [OF i fds(2) s1(1-4)]
  have cg: "m_cgroupFD m = -1 \<or> m_cgroupFD m = sc_open_cgroup C" using ms by blast
  have none: "os_inv P s1" if "p_mgr P = m" "p_listenFd P = -1" "p_epollFd P = -1"
    using s1 that by (simp add: os_inv_def members_hold_def fd_holds_def member_fds_def)
  have es: "os_held s3 = manager_holds m \<union> {Fd l} \<union> fd_holds e \<and> os_faults s3 = 0 \<and> os_bound s3 = [l \<mapsto> NUL # socket_name] \<and>
      os_listening s3 = {l} \<and> fst ` os_watched s3 \<subseteq> {e} \<inter> {0..} \<and> (e = -1 \<or> e = sc_epoll_create C) \<and>
      (b3 \<longrightarrow> e = sc_epoll_create C \<and> 0 \<le> e \<and> os_watched s3 = {(e, l), (e, sc_ring_buffer_fd C)})"
    "l = sc_socket C" "0 \<le> l" if b2
    using setupEpoll_state [OF e fds(3)] ipc s1(4-6) that by auto
  show "os_inv P s"
  proof (cases "b1 \<and> ok2 \<and> b2")
    case True
    have "distinct (member_fds P)"
    proof -
      have fds: "m_cgroupFD (p_mgr P) = m_cgroupFD m" "p_listenFd P = sc_socket C" "p_epollFd P = e"
        using go es True by simp_all
      have "e = -1 \<or> e = sc_epoll_create C" using es True by blast
      with cg dist show ?thesis unfolding member_fds_def fds by (elim disjE) (simp_all split: if_splits)
    qed
    then show ?thesis
      using go es True s1(7) by (auto simp: os_inv_def members_hold_def fd_holds_def)
  next
    case False
    then have "p_mgr P = m" "p_listenFd P = -1" "p_epollFd P = -1" "s = s1"
      using stop go ipc by (auto split: if_splits)
    with none show ?thesis by simp
  qed
  show "ok \<Longrightarrow> P = start_members C \<and> s = start_os C"
  proof -
    assume ok
    then have b12: "b1 \<and> ok2" using stop by blast
    with go \<open>ok\<close> have "b2 \<and> b3" by (cases b2) auto
    with b12 have b: b1 ok2 b2 b3 by simp_all
    have m: "m = \<lparr>m_skel = True, m_cgroupFD = sc_open_cgroup C, m_ringBuf = True, m_links = tp_progs @ cg_progs\<rparr>"
      using ms b(1) by simp
    have cgroup: "0 \<le> sc_open_cgroup C"
      using fst_manager_init [of C new_manager new_os] fds(1) b(1) \<open>manager_init C new_manager new_os = (b1, m, s1)\<close>
      by (simp add: manager_calls_ok_def)
    have "p \<in> set (tp_progs @ cg_progs)" for p by (cases p) (simp_all add: tp_progs_def cg_progs_def)
    then have links: "Link ` set (tp_progs @ cg_progs) = range Link" by auto
    have P: "P = start_members C" using go b es m by (simp add: start_members_def)
    moreover have "s = start_os C"
      by (rule os.equality) (use go b es cgroup links in \<open>auto simp: start_os_def m manager_holds_def fd_holds_def\<close>)
    ultimately show ?thesis ..
  qed
qed

section \<open>Properties\<close>

text \<open>
  C12: Start-up is all or nothing. If it succeeds, the seven kernel programs are attached, the
  process listens on the abstract socket \<open>blastguard\<close>, its event loop watches this socket and
  the ring buffer, and it holds nothing else. Whether it succeeds or stops at any failed call,
  the destructors give everything back: every program is detached, every descriptor closed,
  each exactly once.
\<close>

theorem startup_all_or_nothing:
  assumes "calls_ok C" "startup K C (new_daemon args) new_members new_os = (ok, d, P, s)"
  shows "(ok \<longrightarrow> P = start_members C \<and> s = start_os C) \<and>
    daemon_init K (manager_calls_ok C) (ipc_calls_ok C) (epoll_calls_ok C) (new_daemon args) = (ok, d) \<and>
    daemon_destroy P s = new_os"
  using startup_state [OF assms(2,1)] startup_refines [OF assms(2)] destroy_releases by blast

text \<open>The calls on a system where everything works.\<close>

definition sample_calls :: start_calls where
  "sample_calls =
     \<lparr>sc_open_and_load = True, sc_attach = (\<lambda>_. True), sc_open_cgroup = 3, sc_attach_cgroup = (\<lambda>_. True),
      sc_ring_buffer_new = True, sc_ring_buffer_fd = 4, sc_socket = 5, sc_bind = 0, sc_listen = 0,
      sc_epoll_create = 6, sc_epoll_ctl = (\<lambda>_. 0)\<rparr>"

lemma sample_calls_ok: "calls_ok sample_calls"
  by (simp add: calls_ok_def sample_calls_def)

text \<open>Another daemon already has the socket name: the programs are attached, then detached.\<close>

lemma startup_all_or_nothing_witness:
  "\<exists>d P s. startup plain_kernel (sample_calls\<lparr>sc_bind := -1\<rparr>) (new_daemon default_daemon_args) new_members new_os =
     (False, d, P, s) \<and> Link On_connect4 \<in> os_held s \<and> daemon_destroy P s = new_os"
proof -
  let ?C = "sample_calls\<lparr>sc_bind := -1\<rparr>"
  obtain ok d P s where s: "startup plain_kernel ?C (new_daemon default_daemon_args) new_members new_os = (ok, d, P, s)"
    by (rule prod_cases4)
  have c: "calls_ok ?C" by (simp add: calls_ok_def sample_calls_def)
  from s have "\<not> ok \<and> Link On_connect4 \<in> os_held s"
    by (simp add: startup_def manager_init_def attach_loop_result ipc_init_def Let_def fd_simps new_manager_def
        new_members_def acquire_def acquire_fd_def GenericDeleter_def close_all_def close_fd_def sample_calls_def
        free_def tp_progs_def cg_progs_def new_os_def setMode_def plain_kernel_def hash_update_def new_daemon_def
        loaded_maps_def default_daemon_args_def add_hosts_def mode_config_entries_def)
      auto
  with s have "startup plain_kernel ?C (new_daemon default_daemon_args) new_members new_os = (False, d, P, s)"
    "Link On_connect4 \<in> os_held s" by simp_all
  with startup_all_or_nothing [OF c s] show ?thesis by blast
qed

end
