(* ===== verification/Daemon_Main.thy ===== *)
theory Daemon_Main
  imports Startup Scenario
begin

text \<open>
  The program \<open>blastguardd\<close> from its command line to its exit status, \<^verbatim>\<open>src/daemon/main.cpp\<close>:
  the arguments, the start-up, the event loop over what \<open>epoll_wait\<close> returns, the destructors.
\<close>

section \<open>The program\<close>

text \<open>
  One entry of the array \<open>epoll_wait\<close> fills: a descriptor, with the operating system and, for
  the listening socket, the client at the time the entry is handled, and before them the
  kernel programs that have run since the entry before it. \<open>Daemon::exec\<close> compares the
  descriptor with the two it knows.
\<close>

type_synonym ready_fd = "program list \<times> int \<times> kernel \<times> accept_result"

definition dispatch_fd :: "int \<Rightarrow> int \<Rightarrow> ready_fd \<Rightarrow> program list \<times> epoll_event" where
  "dispatch_fd listen_fd ring_buf_fd r =
     (case r of (ps, fd, K, a) \<Rightarrow>
        (ps, if fd = listen_fd then IpcReady K a else if fd = ring_buf_fd then RingReady K else OtherReady))"

datatype wait_result = WaitErr errno | WaitReady "ready_fd list"

fun wait_events :: "int \<Rightarrow> int \<Rightarrow> wait_result \<Rightarrow> epoll_result" where
  "wait_events l r (WaitErr e) = EpollErr e"
| "wait_events l r (WaitReady evs) = EpollReady (map (dispatch_fd l r) evs)"

text \<open>
  The process has ended, with its exit status, what it holds and the lines it has printed on
  stdout; or \<open>SIGPIPE\<close> has killed it; or it still waits in its event loop. \<^const>\<open>None\<close> if it
  waits for a client.
\<close>

datatype process = Exited int os "string list" | Killed | Running daemon members os

definition daemon_main :: "string list \<Rightarrow> kernel \<Rightarrow> start_calls \<Rightarrow> wait_result list \<Rightarrow> process option" where
  "daemon_main argv K C rs =
     (case daemon_parseArgs argv of
        Inl (Usage msg status) \<Rightarrow> Some (Exited status new_os [daemon_usageText])
      | Inr args \<Rightarrow>
          (let (ok, d, P, s) = startup K C (new_daemon args) new_members new_os
           in if \<not> ok then Some (Exited 1 (daemon_destroy P s) (m_stdout d))
              else (case exec_loop (map (wait_events (listenFd P) (sc_ring_buffer_fd C)) rs) d of
                      None \<Rightarrow> None
                    | Some Signalled \<Rightarrow> Some Killed
                    | Some (Waiting d') \<Rightarrow> Some (Running d' P s)
                    | Some (Returned status d') \<Rightarrow> Some (Exited status (daemon_destroy P s) (m_stdout d')))))"

section \<open>What it returns\<close>

text \<open>What is assumed of an entry: the laws of the maps, and of what the programs read.\<close>

fun wait_ok :: "wait_result \<Rightarrow> bool" where
  "wait_ok (WaitErr e) \<longleftrightarrow> True"
| "wait_ok (WaitReady evs) \<longleftrightarrow> (\<forall>(ps, fd, K, a) \<in> set evs. kernel_ok K \<and> (\<forall>p \<in> set ps. program_ok p))"

lemma wait_events_ok: "wait_ok r \<Longrightarrow> result_ok (wait_events l rb r)"
  by (cases r) (auto simp: dispatch_fd_def)

lemma wait_events_err: "EpollErr e \<in> wait_events l r ` W \<Longrightarrow> WaitErr e \<in> W"
proof -
  assume "EpollErr e \<in> wait_events l r ` W"
  then obtain w where "w \<in> W" "EpollErr e = wait_events l r w" by blast
  then show ?thesis by (cases w) auto
qed

text \<open>
  The loop knows every descriptor it watches: no event is passed over.
\<close>

lemma watched_dispatched:
  "(e, fd) \<in> os_watched (start_os C) \<Longrightarrow>
   snd (dispatch_fd (sc_socket C) (sc_ring_buffer_fd C) (ps, fd, K, a)) \<noteq> OtherReady"
  by (auto simp: start_os_def dispatch_fd_def)

section \<open>Properties\<close>

text \<open>
  C13: The daemon process, whatever its command line, whichever system call of its start-up
  fails, and whatever its event loop is given, with kernel programs that run before each
  event. It waits for its next event, attached and listening, in a state that keeps the
  invariant; or it has exited and given everything back to the system, with status 0 only if
  a client has asked for the shutdown, and 1 only if its arguments or its start-up were in
  error or \<open>epoll_wait\<close> failed; or a client has stopped it: one that sends no line or does not
  take its reply, for which it waits, or one that is gone when its reply is written, which
  kills it by \<open>SIGPIPE\<close>. The programs run between events, not while one is handled:
  \<open>clearing_bounded\<close> is about those that interleave with an \<open>END-PHASE\<close>.
\<close>

theorem daemon_main_outcome:
  assumes "kernel_ok K" "calls_ok C" "\<forall>r \<in> set rs. wait_ok r"
  shows "case daemon_main argv K C rs of
     None \<Rightarrow> among (map (wait_events (sc_socket C) (sc_ring_buffer_fd C)) rs) (\<lambda>ev. \<exists>d. client_stalls ev d)
   | Some Killed \<Rightarrow> among (map (wait_events (sc_socket C) (sc_ring_buffer_fd C)) rs) (\<lambda>ev. \<exists>d. client_gone ev d)
   | Some (Running d P s) \<Rightarrow> P = start_members C \<and> s = start_os C \<and> shared_inv d \<and> \<not> m_shouldExit d \<and>
       manager_calls_ok C \<and> ipc_calls_ok C \<and> epoll_calls_ok C
   | Some (Exited status s out) \<Rightarrow> s = new_os \<and>
       (status = 0 \<and> manager_calls_ok C \<and> ipc_calls_ok C \<and> epoll_calls_ok C \<and>
          among (map (wait_events (sc_socket C) (sc_ring_buffer_fd C)) rs) asks_shutdown \<or>
        status = 1 \<and>
          ((\<exists>u. daemon_parseArgs argv = Inl u) \<or>
           (\<exists>args d. daemon_parseArgs argv = Inr args \<and>
              daemon_init K (manager_calls_ok C) (ipc_calls_ok C) (epoll_calls_ok C) (new_daemon args) = (False, d)) \<or>
           (\<exists>e. e \<noteq> EINTR \<and> WaitErr e \<in> set rs)))"
proof (cases "daemon_parseArgs argv")
  case (Inl u)
  then obtain msg status where u: "daemon_parseArgs argv = Inl (Usage msg status)" by (cases u) simp
  then have "status = 1"
    using parse_loop_fails_1 [of argv default_daemon_args]
    by (simp add: fails_1_def daemon_parseArgs_def exit_failure_def)
  with u show ?thesis by (simp add: daemon_main_def)
next
  case (Inr args)
  obtain ok d P s where st: "startup K C (new_daemon args) new_members new_os = (ok, d, P, s)"
    by (rule prod_cases4)
  note st_state = startup_state [OF st assms(2)]
  have gone: "daemon_destroy P s = new_os" by (rule destroy_releases [OF st_state(1)])
  have init: "daemon_init K (manager_calls_ok C) (ipc_calls_ok C) (epoll_calls_ok C) (new_daemon args) = (ok, d)"
    by (rule startup_refines [OF st])
  show ?thesis
  proof (cases ok)
    case False
    then show ?thesis using Inr st gone init by (simp add: daemon_main_def)
  next
    case True
    have inv: "shared_inv d" and flag: "\<not> m_shouldExit d"
      and calls: "manager_calls_ok C" "ipc_calls_ok C" "epoll_calls_ok C"
      using daemon_init_inv [OF assms(1)] init True
      by (auto simp: daemon_inv_shared daemon_init_def new_daemon_def Let_def split: if_splits prod.splits)
    define rs' where "rs' = map (wait_events (sc_socket C) (sc_ring_buffer_fd C)) rs"
    have "\<forall>r \<in> set rs'. result_ok r" using assms(3) wait_events_ok by (simp add: rs'_def)
    note outcome = exec_loop_outcome [OF inv flag this]
    have main: "daemon_main argv K C rs = (case exec_loop rs' d of
        None \<Rightarrow> None
      | Some Signalled \<Rightarrow> Some Killed
      | Some (Waiting d') \<Rightarrow> Some (Running d' (start_members C) (start_os C))
      | Some (Returned status d') \<Rightarrow> Some (Exited status new_os (m_stdout d')))"
      using Inr st st_state(2) True gone
      by (auto simp: daemon_main_def rs'_def listenFd_def fd_handle_def start_members_def
          split: option.split exec_result.split)
    have err: "EpollErr e \<in> set rs' \<Longrightarrow> WaitErr e \<in> set rs" for e
      using wait_events_err by (simp add: rs'_def)
    show ?thesis
      unfolding rs'_def [symmetric] main using outcome calls err
      by (auto split: option.splits exec_result.splits)
  qed
qed

text \<open>
  The witness: the daemon starts, a client starts a phase for the process 7, the process
  connects and the daemon reads the event, a signal interrupts the wait, and a client asks
  for the shutdown. The process exits with 0 and holds nothing.
\<close>

definition sample_run :: "wait_result list" where
  "sample_run =
     [WaitReady [([], 5, run_kernel, Accepted (sends (encode_request (StartPhaseRequest 7 ''ci''))) [Wrote 100])],
      WaitReady [([Connect4 (Some (replicate sizeof_event_connect 0)) 0 7 1 443], 4, run_kernel, AcceptErr EINTR)],
      WaitErr EINTR,
      WaitReady [([], 5, run_kernel, Accepted (sends ''SHUTDOWN'') [Wrote 100])]]"

lemma daemon_main_outcome_witness:
  "\<exists>out. daemon_main [''blastguardd''] run_kernel sample_calls sample_run = Some (Exited 0 new_os out)"
proof -
  define p where "p = Connect4 (Some (replicate sizeof_event_connect 0)) 0 7 1 443"
  have p: "program_ok p" by (simp add: p_def sample_room_def)
  have wf: "wf_request (StartPhaseRequest 7 ''ci'')" by simp
  define l where "l = encode_request (StartPhaseRequest 7 ''ci'')"
  have l: "LF \<notin> set l" "length l \<le> max_line"
    by (simp_all add: l_def wire_words max_line_def dec_nat.simps [of 7] char_of_def bit_0)
  have rs: "\<forall>r \<in> set sample_run. wait_ok r" by (simp add: sample_run_def p_def [symmetric] p)
  obtain ok d P s where st: "startup run_kernel sample_calls (new_daemon default_daemon_args) new_members new_os = (ok, d, P, s)"
    by (rule prod_cases4)
  have calls: "manager_calls_ok sample_calls" "ipc_calls_ok sample_calls" "epoll_calls_ok sample_calls"
    by (simp_all add: manager_calls_ok_def ipc_calls_ok_def epoll_calls_ok_def sample_calls_def)
  have init: "daemon_init run_kernel True True True (new_daemon default_daemon_args) = (ok, d)"
    using startup_refines [OF st] calls by simp
  then have ok: ok and d: "\<not> m_shouldExit d" "m_session d = new_session"
    by (auto simp: daemon_init_def new_daemon_def default_daemon_args_def setMode_def run_kernel_def
        plain_kernel_def hash_update_def loaded_maps_def mode_config_entries_def Let_def split: if_splits)
  have inv: "daemon_inv d" using daemon_init_inv [OF run_kernel_ok] init ok by simp
  have idle: "\<not> m_active (m_session d)" by (simp add: d new_session_def)
  then have empty: "tracked_pids (m_bpf d) = Map.empty" using inv by (simp add: daemon_inv_def)
  define d1 where "d1 = phase_started ''ci'' 7 d"
  have s1: "serve_line (daemon_handlers run_kernel) l (kernel_runs [] d) = Some (encode_ok OkResponse, d1)"
    using start_served [OF idle empty run_start_ready(3,4) wf] by (simp add: l_def d1_def del: encode_request.simps)
  have "kernel_ok run_kernel \<and> shared_inv d \<and> config d = config d" using inv by (simp add: daemon_inv_shared)
  from shared_ipc.serve_line_keeps [OF this, of l] s1 have inv1: "shared_inv d1" by auto
  then have "shared_inv (kernel_runs [p] d1)" using kernel_runs_shared [of "[p]"] p by simp
  from consume_shared [OF this, of run_kernel] obtain d2 where d2: "consume run_kernel (kernel_runs [p] d1) = Some d2"
    by blast
  then have "m_shouldExit d2 = m_shouldExit d1"
    using consume_loop_flag [of run_kernel _ _ d2] by (force simp: consume_def kernel_runs_def)
  then have f: "\<not> m_shouldExit d1" "\<not> m_shouldExit d2" using d(1) by (simp_all add: d1_def phase_started_def)
  define rs' where "rs' = map (wait_events 5 4) sample_run"
  have r1: "ready_loop [([], IpcReady run_kernel (Accepted (sends l) [Wrote 100]))] d = Some (Handled d1)"
    using ready_served [OF l, of "encode_ok OkResponse" 100 run_kernel "[]" d d1 "[]"] s1
    by (simp add: encode_ok_def wire_words del: ready_loop.simps(2))
  have r2: "ready_loop [([p], RingReady run_kernel)] d1 = Some (Handled d2)"
    using ready_consumed [OF d2, of "[]"] by (simp del: ready_loop.simps(2))
  have rs'_eq: "rs' = [EpollReady [([], IpcReady run_kernel (Accepted (sends l) [Wrote 100]))],
      EpollReady [([p], RingReady run_kernel)], EpollErr EINTR,
      EpollReady [([], IpcReady run_kernel (Accepted (sends ''SHUTDOWN'') [Wrote 100]))]]"
    by (simp add: rs'_def sample_run_def dispatch_fd_def l_def [symmetric] p_def [symmetric] del: encode_request.simps)
  have loop: "exec_loop rs' d = Some (Returned 0 (d2\<lparr>m_shouldExit := True\<rparr>))"
    unfolding rs'_eq using d(1) f r1 r2 shutdown_loop [OF f(2), of run_kernel]
    by (simp del: ready_loop.simps(2))
  have "listenFd P = 5" "sc_ring_buffer_fd sample_calls = 4"
    using startup_state(2) [OF st sample_calls_ok ok]
    by (simp_all add: listenFd_def fd_handle_def start_members_def sample_calls_def)
  moreover have "daemon_parseArgs [''blastguardd''] = Inr default_daemon_args"
    by (simp add: daemon_parseArgs_def)
  ultimately have main: "daemon_main [''blastguardd''] run_kernel sample_calls sample_run =
      Some (Exited 0 (daemon_destroy P s) (m_stdout (d2\<lparr>m_shouldExit := True\<rparr>)))"
    using st ok loop by (simp add: daemon_main_def rs'_def)
  with daemon_main_outcome [OF run_kernel_ok sample_calls_ok rs, of "[''blastguardd'']"] show ?thesis by simp
qed

end
