(* ===== verification/Spec2Isabelle.thy ===== *)
theory Spec2Isabelle
  imports Interleaving Daemon_Main
begin

text \<open>
  A verification library of Blastguard, a monitor for npm installations in CI jobs.

  \<^bold>\<open>The program.\<close> Kernel-side BPF programs (\<^verbatim>\<open>src/bpf/blastguard.bpf.c\<close>) watch the
  processes in the map \<open>tracked_pids\<close>: they put an event into a ring buffer when one of them
  forks, executes a binary, opens a file by an absolute path or connects, and in enforce mode
  they refuse a connection to an address that is not in the map \<open>allowlist\<close>. The daemon
  \<open>blastguardd\<close> (\<^verbatim>\<open>src/daemon/\<close>) resolves the allowed hosts at start-up, waits in one
  epoll loop for the ring buffer and for clients, decodes the events, attributes each process
  to an npm package, and applies the rules R1 to R5, which add findings to the session. The
  client \<open>blastguardctl\<close> (\<^verbatim>\<open>src/ctl/\<close>) sends one of five requests over a Unix socket: it
  starts and ends the phase that is watched, and fetches the report. \<^verbatim>\<open>src/common/\<close> has what
  both use: I/O loops, the wire protocol, an owning file descriptor.

  \<^bold>\<open>The theories\<close>, in the order of their imports. A definition has the name of the function,
  type or variable it models, except where that name is taken.

  \<^item> \<open>Prelude\<close>: machine types, C++ string operations, collections of rewrite rules.
  \<^item> \<open>Events\<close> (\<^verbatim>\<open>bpf/events.h\<close>, \<^verbatim>\<open>common/tokens.h\<close>, \<^verbatim>\<open>common/net.h\<close>): the event
    structures as records, array bounds, the token table. \<open>Layout\<close>: the same structures as
    bytes of a ring buffer sample, with read and write in the C layout and their round trips.
  \<^item> \<open>Name_Table\<close>: the loops over (value, name) tables four files of the program have, and the
    locale \<open>name_table\<close> with its laws, interpreted on every such table.
  \<^item> \<open>Io\<close> (\<^verbatim>\<open>common/io.cpp\<close>): \<open>writeAll\<close>, \<open>readAll\<close>, \<open>readLine\<close>; \<open>sigpipe\<close>, by which a write to
    a closed connection ends either program, as neither handles the signal.
  \<^item> \<open>Proto\<close> (\<^verbatim>\<open>common/proto.cpp\<close>): requests, replies, their encoders and decoders, and
    \<open>sendCommand\<close>; round trips in both directions.
  \<^item> \<open>Nul_Blocks\<close>: the step three loops over NUL-separated blocks share. \<open>Attributor\<close>
    (\<^verbatim>\<open>daemon/attributor.cpp\<close>): from a path to a package name, from an environment to a
    lifecycle event, each with a specification it is proved equal to.
  \<^item> \<open>Session_State\<close> (\<^verbatim>\<open>daemon/session.cpp\<close>): the session record and its operations; the
    locale \<open>interner\<close> for the numbering of package names.
  \<^item> \<open>Rules\<close> (\<^verbatim>\<open>daemon/rules.cpp\<close>): tables, address allowlist, the three rule functions, each
    with a lemma that says exactly when it reports what; the locale \<open>address_set\<close>.
  \<^item> \<open>Json_Text\<close>: a grammar and a parser of JSON, a specification only. \<open>Report\<close>
    (\<^verbatim>\<open>daemon/report.cpp\<close>): both renderers; the JSON text is in the grammar and parses to
    \<open>report_json\<close> of the session.
  \<^item> \<open>Bpf_Maps\<close> and \<open>Bpf_Programs\<close> (\<^verbatim>\<open>bpf/blastguard.bpf.c\<close>): the maps, the kernel's calls
    as a record of functions with their documented laws as locales, and every kernel program,
    whole and as its look-up and what follows. \<open>Kernel_Invariant\<close>: what programs and their
    halves keep of the maps.
  \<^item> \<open>Daemon_Args\<close> (\<^verbatim>\<open>daemon/args.cpp\<close>), \<open>Ebpf_Manager\<close> (\<^verbatim>\<open>daemon/ebpfmanager.cpp\<close>).
  \<^item> \<open>Daemon\<close> (\<^verbatim>\<open>daemon/daemon.cpp\<close>): the record \<open>daemon\<close> (arguments, session, allowlist,
    kernel maps, exit flag, log), start-up, the decoding of samples, the event and request
    handlers. \<open>Daemon_Blocks\<close>: what its block loops compute. \<open>Daemon_Facts\<close>: what each
    handler may change, and fork inheritance.
  \<^item> \<open>Ipc_Server\<close> (\<^verbatim>\<open>daemon/ipcserver.cpp\<close>): the request server over abstract handlers, with
    the locale \<open>request_server\<close> of what their owner promises. \<open>Daemon_Server\<close>: the daemon's
    handlers in it, the event loop \<open>Daemon::exec\<close> with all its outcomes, and the invariants
    \<open>shared_inv\<close> and \<open>daemon_inv\<close>, with an interpretation of \<open>request_server\<close> for each.
  \<^item> \<open>Ctl_Args\<close>, \<open>Ctl_Main\<close> (\<^verbatim>\<open>ctl/args.cpp\<close>, \<^verbatim>\<open>ctl/main.cpp\<close>): the client, from its
    command line to its exit status, its standard output and the bytes it sends.
  \<^item> \<open>System\<close>: the step relation \<open>sys_step\<close>, in which whole kernel programs and whole handlers
    follow each other in any order, its reachable states, and the invariant over them. \<open>Session_Typing\<close>: what a
    session satisfies beyond its record type. \<open>Phase_Run\<close>: no event and no request of an active
    phase loses a finding, and events that arrive one phase late.
  \<^item> \<open>Exchanges\<close>: the client \<open>connected\<close> to the daemon, so that the daemon reads what the client
    sends and the client what the daemon writes, request by request, with the locale
    \<open>reply_codec\<close>.
  \<^item> \<open>Unique_Fd\<close> (\<^verbatim>\<open>common/uniquefd.h\<close>): programs over owning file descriptors. \<open>Startup\<close>
    (\<^verbatim>\<open>daemon/ebpfmanager.cpp\<close>, \<^verbatim>\<open>daemon/ipcserver.cpp\<close>, \<^verbatim>\<open>daemon/daemon.cpp\<close>): what the daemon
    acquires from the system, in the order it asks for it, and what its destructors give back;
    it implements \<open>daemon_init\<close> of \<open>Daemon\<close>. \<open>Daemon_Main\<close> (\<^verbatim>\<open>daemon/main.cpp\<close>): the process
    from its command line to its exit status.
  \<^item> \<open>Scenario\<close>: a concrete run of the system, from start-up to a finding and its report, on
    which the properties of reachable states are tried.
  \<^item> \<open>Interleaving\<close>: the step relation \<open>fine_step\<close>, in which kernel programs run in two halves,
    also between the samples of one read of the ring and between the system calls of
    \<open>clearTrackedPids\<close>, any number at a time; every run of \<open>sys_step\<close> is one of its runs, and
    \<open>shared_inv\<close> holds at this grain. How long clearing takes while processes fork, what a
    fork that is half done does to the end of a phase, and when nobody is watched outside one.
  \<^item> This theory has the properties that span components: from the memory of a process to the
    finding about it and the exit status of the job, from the resolved hosts to the kernel's
    verdicts, the safety of all reachable states, and the client's exit status against the
    daemon's session.

  \<^bold>\<open>Modelling.\<close> A \<open>std::uint32_t\<close> is a 32-bit word; a \<open>std::string\<close> is a list of one
  \<open>char\<close> per byte, so text beyond ASCII is its UTF-8 bytes. A handler takes the daemon to the
  daemon afterwards. \<open>Inl\<close> of a sum is an error the code returns. An outer \<open>None\<close> is a
  computation that has no result: a read past the end of a buffer, a loop that does not end, or
  a loop whose next system call has not returned. The loops that might not end are
  \<open>partial_function (option)\<close>; that they return is a theorem of its own
  (\<open>block_loops_safe\<close>, \<open>clearing_bounded\<close>). I/O loops recurse on the list of results their
  system calls return, one per call, so no fuel is needed: a list that is used up is a call
  that has not returned. The epoll loop likewise; the kernel programs run between its events.

  \<^bold>\<open>Bounds\<close> are the program's own: 8192 tracked processes and 4096 allowed addresses, 2048 and
  16384 bytes of arguments and environment per event, 64 KiB per request line, 256 KiB per
  reply. Positions in blocks wrap around at 2 to the 32; the block theorems ask for blocks below
  2 to the 31 bytes, which every event has by its layout.

  \<^bold>\<open>Parameters\<close>, for what is not in the repository: the record \<open>kernel\<close> holds the map updates,
  the next-key call, \<open>readlink\<close>, \<open>inet_ntop\<close>, process look-up and the resolver; the record
  \<open>start_calls\<close> the results of libbpf and of the system calls of the start-up; user memory of a
  process, the reserved sample with its old contents, and the results of \<open>read\<close>, \<open>write\<close>,
  \<open>accept\<close>, \<open>epoll_wait\<close>, \<open>socket\<close> and \<open>connect\<close> are arguments. What is assumed of them
  is named: \<open>kernel_ok\<close> (an update that succeeds writes the entry, one that fails changes
  nothing, the next key of a non-empty map is one of its keys), \<open>calls_ok\<close> (a call that returns
  a descriptor returns a new one, a failed one returns -1), \<open>task_ok\<close>, \<open>user_str_ok\<close>,
  together \<open>program_ok\<close>; \<open>event_ok\<close> and \<open>wait_ok\<close>, which are these for every event of a loop
  and say nothing of clients; \<open>connected\<close> and \<open>receives\<close> (the bytes sent at one end of a
  connection are the bytes read at the other), \<open>takes_all\<close> (the writes of a connection take so
  many bytes). \<open>plain_kernel\<close>, with hash maps of the declared capacities, satisfies
  \<open>kernel_ok\<close>, \<open>sample_calls\<close> satisfies \<open>calls_ok\<close>, \<open>daemon_env\<close> is \<open>connected\<close>, and the
  witnesses run on them.

  \<^bold>\<open>Grain.\<close> A step of \<open>fine_step\<close> is the look-up of one kernel program in \<open>tracked_pids\<close>, or
  all it does after it, with the entry as it was looked up; one sample the daemon reads, one
  request, or one system call of the loop of \<open>END-PHASE\<close>. The other handlers make at most two
  map updates, of different processes, and are one step. At this grain \<open>daemon_inv\<close> is not an
  invariant: a fork may add its child after the phase has ended (\<open>late_fork_watched\<close>).
  Properties that need it say so: \<open>inactive_system_watches_nobody\<close> is about runs in which no
  program is under way when the map is found empty (\<open>orderly_step\<close>).

  \<^bold>\<open>Not modelled.\<close> Messages on stderr are left out. What the kernel and libbpf do when they
  load and attach a program is their own; a call that fails is a branch of the model. The JSON
  grammar takes bytes from 0x80 on as they are: that they form valid UTF-8 is not claimed. The
  build files, the packaging of the GitHub action and the test scripts have no definitions
  here.
\<close>

section \<open>Detection, from the kernel to the report\<close>

text \<open>A daemon in a phase, with one tracked process, 7, of a package ''evil''.\<close>

definition sample_daemon :: "mode \<Rightarrow> daemon" where
  "sample_daemon md =
     (new_daemon (default_daemon_args\<lparr>da_mode := md\<rparr>))\<lparr>
       m_session := setPidPackage 7 1 (snd (internPackage ''evil'' (startPhase ''ci'' 7 new_session))),
       m_bpf := loaded_maps\<lparr>tracked_pids := [7 \<mapsto> \<lparr>tp_session_id = 1, tp_package_id = 1\<rparr>],
         mode_config := [0 \<mapsto> if md = Enforce then 1 else 0]\<rparr>\<rparr>"

lemma sample_daemon_simps:
  "m_active (m_session (sample_daemon md))" "ring (m_bpf (sample_daemon md)) = []"
  "tracked_pids (m_bpf (sample_daemon md)) 7 = Some \<lparr>tp_session_id = 1, tp_package_id = 1\<rparr>"
  "event_package 7 1 (m_session (sample_daemon md)) = 1" "m_allowlist (sample_daemon md) = []"
  "packageName 1 (m_session (sample_daemon md)) = ''evil''"
  "m_findings (m_session (sample_daemon md)) = []"
  "bpf_allowlist (m_bpf (sample_daemon md)) = Map.empty"
  "mode_config (m_bpf (sample_daemon md)) = [0 \<mapsto> if md = Enforce then 1 else 0]"
  by (simp_all add: sample_daemon_def session_simps loaded_maps_def event_package_def pidPackage_def)
    (simp_all add: packageName_def internPackage_def new_session_def startPhase_def setPidPackage_def
      new_daemon_def)

text \<open>Its process runs \<open>curl\<close>: the hypotheses of the properties about an execution.\<close>

lemma sample_exec:
  "event_package 7 (tp_package_id \<lparr>tp_session_id = 1, tp_package_id = 1\<rparr>) (m_session (sample_daemon md)) = 1"
  "0 < area_len env_max (tx_env_start (sample_task run_env)) (tx_env_end (sample_task run_env))"
  "tx_user (sample_task run_env) (tx_env_start (sample_task run_env))
     (area_len env_max (tx_env_start (sample_task run_env)) (tx_env_end (sample_task run_env))) = nul_block run_env"
  "''postinstall'' \<in> set lifecycle_phases"
  unfolding run_task(3) by (simp_all add: sample_daemon_simps(4) run_task(4) lifecycle_phases_def)

lemmas sample_exec_facts = sample_daemon_simps(1-3) [of Audit] length_replicate [of _ "0 :: u8"] run_task(1)
  sample_exec(1) [of Audit] one_neq_zero run_task(2) sample_exec(2,3) run_task(5,6) sample_exec(4)

text \<open>
  C3: A connection of a tracked process of a package is reported exactly when its address is
  not in the daemon's allowlist, whether the kernel refused it or not, over IPv4 and over
  IPv6: one finding R2 about the process and its package, marked as blocked exactly when the
  kernel program refused the connection.
\<close>

theorem connection_reported:
  assumes "m_active (m_session d)" "ring (m_bpf d) = []" "tracked_pids (m_bpf d) pid = Some info"
    and "length mem = sizeof_event_connect"
    and "event_package pid (tp_package_id info) (m_session d) = p" "p \<noteq> 0"
  shows "connection_outcome K d pid p (mapV4 ip4) (on_connect4 (Some mem) now pid ip4 port (m_bpf d)) \<and>
    connection_outcome K d pid p (bytes32 w0 @ bytes32 w1 @ bytes32 w2 @ bytes32 w3)
      (on_connect6 (Some mem) now pid (w0, w1, w2, w3) port (m_bpf d))"
  unfolding on_connect_emit [OF assms(3)]
  by (intro conjI connect_finding assms) simp_all

lemma connection_reported_witness:
  "\<exists>d' f. consume plain_kernel ((sample_daemon Enforce)\<lparr>m_bpf :=
       snd (on_connect4 (Some (replicate 48 0)) 0 7 1 443 (m_bpf (sample_daemon Enforce)))\<rparr>) = Some d' \<and>
     m_findings (m_session d') = [f] \<and> f_blocked f \<and> f_package f = ''evil''"
proof -
  have "fst (on_connect4 (Some (replicate 48 0)) 0 7 1 443 (m_bpf (sample_daemon Enforce))) = 0"
    by (simp only: connect4_verdict) (simp add: sample_daemon_simps enforcing_def)
  moreover have "connection_outcome plain_kernel (sample_daemon Enforce) 7 1 (mapV4 1)
      (on_connect4 (Some (replicate 48 0)) 0 7 1 443 (m_bpf (sample_daemon Enforce)))"
    by (rule conjunct1 [OF connection_reported [OF sample_daemon_simps(1-3)]])
      (simp_all add: sizeofs sample_daemon_simps)
  ultimately show ?thesis
    by (auto simp: connection_outcome_def sample_daemon_simps contains_v6_def)
qed

section \<open>Safety of the running system\<close>



text \<open>
  C7: Outside a phase the system watches nobody, if no kernel program was under way at the
  moments the loop of \<open>END-PHASE\<close> found the map empty: whenever the daemon is in its event loop
  and no phase is active, no process is tracked and no program is under way, every connection
  is allowed, and every kernel program leaves the maps as they are. However else the programs
  and the daemon interleaved. Without the condition it does not hold: \<open>late_fork_watched\<close>.
\<close>

theorem inactive_system_watches_nobody:
  assumes "kernel_ok K0" "daemon_init K0 mi ii ei (new_daemon args) = (True, d0)"
    and "orderly_step\<^sup>*\<^sup>* (EventLoop, [], d0) (EventLoop, F, d)" "\<not> m_active (m_session d)"
  shows "tracked_pids (m_bpf d) = Map.empty \<and> F = [] \<and>
    on_connect4 sm now pid ip4 port (m_bpf d) = (1, m_bpf d) \<and>
    on_connect6 sm now pid ip6 port (m_bpf d) = (1, m_bpf d) \<and>
    run_program p (m_bpf d) = m_bpf d"
proof -
  have "nobody_watched (EventLoop, [], d0)" using daemon_init_inv [OF assms(1,2)] by (simp add: daemon_inv_def)
  from orderly_watched [OF assms(3) this] assms(4) have t: "tracked_pids (m_bpf d) = Map.empty" "F = []" by simp_all
  then show ?thesis using idle_program by (simp add: untracked)
qed

text \<open>
  The witness: a phase starts and ends, and then a connection is allowed that the phase would
  have refused.
\<close>

lemma inactive_system_watches_nobody_witness:
  "fst (on_connect4 None 0 7 2 443 (m_bpf run_phase)) = 0 \<and>
   on_connect4 None 0 7 2 443 (m_bpf (phase_ended run_phase)) = (1, m_bpf (phase_ended run_phase))"
proof -
  have "fine_step\<^sup>*\<^sup>* (EventLoop, [], run_start) (EventLoop, [], phase_ended run_phase)"
    by (rule rtranclp_trans [OF reachable_fine [OF run_phase_reachable] end_phase_fine [OF run_kernel_ok]])
  have "serve_line (daemon_handlers run_kernel) (encode_request (StartPhaseRequest 7 ''ci'')) run_start =
      Some (encode_ok OkResponse, run_phase)"
    using start_served [OF run_start_ready, of 7 "''ci''"] by (simp add: run_phase_def del: encode_request.simps)
  then have v: "visit_request (daemon_handlers run_kernel) (StartPhaseRequest 7 ''ci'') run_start =
      Some (encode_ok OkResponse, run_phase)"
    by (subst (asm) serve_request) simp_all
  have "orderly_step (EventLoop, [], run_start) (EventLoop, [], run_phase)"
    using fine_request [OF run_kernel_ok _ v] by (simp add: orderly_step_def)
  moreover have "orderly_step\<^sup>*\<^sup>* (EventLoop, [], run_phase) (EventLoop, [], phase_ended run_phase)"
    by (rule end_phase_orderly [OF run_kernel_ok])
  ultimately have "orderly_step\<^sup>*\<^sup>* (EventLoop, [], run_start) (EventLoop, [], phase_ended run_phase)"
    by (rule converse_rtranclp_into_rtranclp)
  from inactive_system_watches_nobody [OF run_kernel_ok run_init this phase_ended_session(1)] run_refuses show ?thesis
    by (simp add: fst_connect run_phase_simps)
qed

text \<open>
  C2: In audit mode no connection is ever refused. In enforce mode, in every state of the
  interleaved system, the kernel refuses a connection exactly when the process is tracked and the daemon's own
  allowlist does not have the address: the two copies of the allowlist never drift apart, if
  the map took the addresses at start-up (it has room for 4096).
\<close>

theorem kernel_enforces_daemon_policy:
  assumes "kernel_ok K0" "daemon_init K0 mi ii ei (new_daemon args) = (True, d0)"
    and "fine_step\<^sup>*\<^sup>* (EventLoop, [], d0) (c, F, d)"
    and "da_mode args = Enforce \<Longrightarrow> k_allow_update K0 = hash_update allowlist_entries"
    and "da_mode args = Enforce \<Longrightarrow> length (m_allowlist d0) \<le> allowlist_entries"
  shows "fst (on_connect4 sm now pid ip4 port (m_bpf d)) =
      (if da_mode args = Enforce \<and> tracked_pids (m_bpf d) pid \<noteq> None \<and> \<not> contains_v4 (m_allowlist d) ip4
       then 0 else 1) \<and>
    fst (on_connect6 sm now pid (w0, w1, w2, w3) port (m_bpf d)) =
      (if da_mode args = Enforce \<and> tracked_pids (m_bpf d) pid \<noteq> None \<and>
         \<not> contains_v6 (m_allowlist d) (bytes32 w0 @ bytes32 w1 @ bytes32 w2 @ bytes32 w3)
       then 0 else 1)"
proof -
  note inv = fine_from_start [OF assms(1-3)]
  note enf = inv(4)
  show ?thesis
  proof (cases "da_mode args = Enforce")
    case True
    have "lists_agree d0" using daemon_init_agree [OF assms(2) True] assms(4,5) True by simp
    then have "lists_agree d" using lists_agree_config inv(2) by blast
    then have "bpf_allowlist (m_bpf d) a = None \<longleftrightarrow> \<not> contains_v6 (m_allowlist d) a" for a
      unfolding lists_agree_def kernel_has_def by blast
    then show ?thesis by (simp add: fst_connect enf contains_v4_def)
  next
    case False
    then show ?thesis by (simp add: fst_connect enf)
  qed
qed

lemma kernel_enforces_daemon_policy_witness:
  "fst (on_connect4 None 0 7 1 443 (m_bpf run_phase)) = 1 \<and>
   fst (on_connect4 None 0 7 2 443 (m_bpf run_phase)) = 0"
proof -
  have k: "k_allow_update run_kernel = hash_update allowlist_entries"
    by (simp add: run_kernel_def plain_kernel_def)
  have l: "length (m_allowlist run_start) \<le> allowlist_entries"
    by (simp add: run_allowlist allowlist_entries_def)
  have "mapV4 1 \<noteq> mapV4 2" by (simp add: mapV4_inj)
  then show ?thesis
    using kernel_enforces_daemon_policy [OF run_kernel_ok run_init reachable_fine [OF run_phase_reachable] k l]
    by (simp add: run_phase_simps contains_v4_def contains_v6_def run_args_def)
qed

text \<open>
  C17: The session is well typed in every state of the interleaved system: every token mask is made of bits of the
  token table, and every finding has what its rule gives it. R1, R3, R4 and R5 are of high
  severity; R2 is of high severity exactly when the process has a token other than
  \<open>GITHUB_TOKEN\<close>, else of medium; only R2 and R3 name tokens, R3 always such a token; only R1
  and R3 have a lifecycle event, and only R2 in enforce mode is marked as blocked.
\<close>

theorem findings_sound:
  assumes "kernel_ok K0" "daemon_init K0 mi ii ei (new_daemon args) = (True, d0)"
    and "fine_step\<^sup>*\<^sup>* (EventLoop, [], d0) (c, F, d)"
  shows "masks_ok (m_session d) \<and> (\<forall>f \<in> set (findings (m_session d)). finding_typed f \<and>
    SevMedium \<le> f_severity f \<and> (f_blocked f \<longrightarrow> da_mode args = Enforce \<and> f_rule_id f = NonAllowlistedHost))"
proof -
  note inv = fine_from_start [OF assms]
  have "session_typed (m_session d)"
    by (rule fine_steps_typed [OF assms(3)])
      (use daemon_init_inv [OF assms(1,2)] in \<open>simp_all add: daemon_inv_shared daemon_init_started(4) [OF assms(2)]
        session_typed_new\<close>)
  then show ?thesis
    using inv(1,3) by (auto simp: session_typed_def shared_inv_def finding_ok_def enforce_mode_def findings_def)
qed

lemma findings_sound_witness:
  "\<exists>d f. reachable run_start d \<and> f \<in> set (findings (m_session d)) \<and> finding_typed f \<and> SevMedium \<le> f_severity f \<and>
     \<not> f_blocked f"
proof -
  obtain d f where r: "reachable run_start d" "m_findings (m_session d) = [f]" "f_rule_id f = TokenBearingDownloader"
    using run_reported by blast
  then have "f \<in> set (findings (m_session d))" by (simp add: findings_def)
  with findings_sound [OF run_kernel_ok run_init reachable_fine [OF r(1)]] r show ?thesis by (metis rule_id.distinct)
qed

section \<open>From a finding to the exit status\<close>

text \<open>
  C5: A finding of an active phase is never lost and fails the job: whatever kernel programs,
  samples and requests follow, in whatever interleaving, until the phase has ended and the
  tracked processes are cleared, the report then has the finding, and
  \<open>blastguardctl report --fail-on s\<close> exits with 1 for every \<open>s\<close> up to its severity.
\<close>

theorem finding_fails_job:
  assumes "phase_run d0 d" "\<not> m_active (m_session d)" "f \<in> set (findings (m_session d0))"
    and "s \<noteq> SevNone" "s \<le> f_severity f"
    and "serve_line (daemon_handlers K) (encode_request (ReportRequest fmt)) d = Some (reply, d')"
    and "receives env (encode_request (ReportRequest fmt) @ [LF]) (reply @ [LF])"
  shows "f \<in> set (findings (m_session d)) \<and>
    (\<exists>out. ctl_main env [prog, ''report'', ''--format'', formatToString fmt, ''--fail-on'', severityToString s] =
      Some (1, out, encode_request (ReportRequest fmt) @ [LF]))"
  by (rule finding_exit [OF phase_run_findings [OF assms(1)] assms(2-)])

lemma finding_fails_job_witness:
  "\<exists>d out. ctl_main (daemon_env run_kernel d) [''blastguardctl'', ''report'', ''--format'', formatToString Json,
     ''--fail-on'', severityToString SevHigh] = Some (1, out, encode_request (ReportRequest Json) @ [LF])"
proof -
  obtain d f where r: "reachable run_start d" "m_findings (m_session d) = [f]" "f_severity f = SevHigh"
      "m_active (m_session d)"
    using run_reported by blast
  have run: "phase_run d (phase_ended d)"
    by (rule phase_run_ends [OF run_kernel_ok r(4)])
  obtain reply d' where
    s: "serve_line (daemon_handlers run_kernel) (encode_request (ReportRequest Json)) (phase_ended d) = Some (reply, d')"
      "receives (daemon_env run_kernel (phase_ended d)) (encode_request (ReportRequest Json) @ [LF]) (reply @ [LF])"
    by (rule connected_receives [OF daemon_env_connected [OF run_kernel_ok] report_line])
  have "f \<in> set (findings (m_session d))" "SevHigh \<noteq> SevNone" "SevHigh \<le> f_severity f"
    using r(2,3) by (simp_all add: findings_def)
  from finding_fails_job [OF run phase_ended_session(1) this s, of "''blastguardctl''"]
  show ?thesis by blast
qed

text \<open>
  C1: The whole chain. A tracked process of a package runs a dangerous binary in a lifecycle
  script; the daemon reads the sample the kernel program has submitted; the phase goes on,
  whatever happens in it, and ends. Then the report has a high finding about the process, its
  package and the lifecycle event: R3 with exactly the tokens of its environment if one of them
  is not \<open>GITHUB_TOKEN\<close>, and each such token is on the list of tokens to rotate, otherwise R1;
  and \<open>blastguardctl report --fail-on high\<close> exits with 1.
\<close>

theorem dangerous_exec_fails_job:
  assumes exec: "m_active (m_session d)" "ring (m_bpf d) = []" "tracked_pids (m_bpf d) pid = Some info"
      "length mem = sizeof_event_exec" "task_ok t"
      "event_package pid (tp_package_id info) (m_session d) = p" "p \<noteq> 0"
      "takeWhile (\<lambda>c. c \<noteq> NUL) (tx_comm t) \<in> set dangerous_basenames"
      "0 < area_len env_max (tx_env_start t) (tx_env_end t)"
      "tx_user t (tx_env_start t) (area_len env_max (tx_env_start t) (tx_env_end t)) = nul_block env"
      "\<forall>e \<in> set env. NUL \<notin> set e"
      "first_value lifecycle_key env = Some phase" "phase \<in> set lifecycle_phases"
    and read: "consume K (d\<lparr>m_bpf := on_exec (Some mem) now pid t (m_bpf d)\<rparr>) = Some d1"
    and "phase_run d1 d2" "\<not> m_active (m_session d2)"
    and "serve_line (daemon_handlers K2) (encode_request (ReportRequest fmt)) d2 = Some (reply, d3)"
    and "receives client (encode_request (ReportRequest fmt) @ [LF]) (reply @ [LF])"
  shows "\<exists>f out. f \<in> set (findings (m_session d2)) \<and> f_severity f = SevHigh \<and> f_pid f = pid \<and>
    f_package f = packageName p (m_session d) \<and> f_lifecycle_phase f = phase \<and>
    (if env_tokens env - {''GITHUB_TOKEN''} \<noteq> {}
     then f_rule_id f = TokenBearingDownloader \<and> set (f_tokens_exposed f) = env_tokens env
     else f_rule_id f = UnexpectedBinary) \<and>
    env_tokens env - {''GITHUB_TOKEN''} \<subseteq> set (rotationTokens (m_session d2)) \<and>
    ctl_main client [prog, ''report'', ''--format'', formatToString fmt, ''--fail-on'', severityToString SevHigh] =
      Some (1, out, encode_request (ReportRequest fmt) @ [LF])"
proof -
  obtain f where f: "m_findings (m_session d1) = m_findings (m_session d) @ [f]" "f_severity f = SevHigh" "f_pid f = pid"
      "f_package f = packageName p (m_session d)" "f_lifecycle_phase f = phase"
    and rule: "if env_tokens env - {''GITHUB_TOKEN''} \<noteq> {}
     then f_rule_id f = TokenBearingDownloader \<and> set (f_tokens_exposed f) = env_tokens env
     else f_rule_id f = UnexpectedBinary"
    using exec_reported [OF exec, of K now] read by auto
  then have "f \<in> set (findings (m_session d1))" "SevHigh \<noteq> SevNone" "SevHigh \<le> f_severity f"
    by (simp_all add: findings_def)
  from finding_exit [OF phase_run_findings [OF assms(15)] assms(16) this assms(17,18), of prog] obtain out where
    out: "f \<in> set (findings (m_session d2))"
      "ctl_main client [prog, ''report'', ''--format'', formatToString fmt, ''--fail-on'', severityToString SevHigh] =
        Some (1, out, encode_request (ReportRequest fmt) @ [LF])" by blast
  have "env_tokens env - {''GITHUB_TOKEN''} \<subseteq> set (rotationTokens (m_session d2))"
  proof
    fix t
    assume "t \<in> env_tokens env - {''GITHUB_TOKEN''}"
    then show "t \<in> set (rotationTokens (m_session d2))"
      using rule out(1) f(2) unfolding rotationTokens_iff by (auto split: if_splits)
  qed
  with f rule out show ?thesis by blast
qed

lemma dangerous_exec_fails_job_witness:
  "\<exists>d out. ctl_main (daemon_env plain_kernel d) [''blastguardctl'', ''report'', ''--format'', formatToString Json,
     ''--fail-on'', severityToString SevHigh] = Some (1, out, encode_request (ReportRequest Json) @ [LF])"
proof -
  let ?d = "(sample_daemon Audit)\<lparr>m_bpf := on_exec (Some (replicate sizeof_event_exec 0)) 0 7
    (sample_task run_env) (m_bpf (sample_daemon Audit))\<rparr>"
  obtain d1 f where read: "consume plain_kernel ?d = Some d1"
    using exec_reported [OF sample_exec_facts, of plain_kernel 0] by blast
  have act: "m_active (m_session d1)"
    using consume_loop_findings [OF read [unfolded consume_def]] sample_daemon_simps(1) by simp
  have run: "phase_run d1 (phase_ended d1)"
    by (rule phase_run_ends [OF plain_kernel_ok act])
  obtain reply d' where
    s: "serve_line (daemon_handlers plain_kernel) (encode_request (ReportRequest Json)) (phase_ended d1) = Some (reply, d')"
      "receives (daemon_env plain_kernel (phase_ended d1)) (encode_request (ReportRequest Json) @ [LF]) (reply @ [LF])"
    by (rule connected_receives [OF daemon_env_connected [OF plain_kernel_ok] report_line])
  from dangerous_exec_fails_job [OF sample_exec_facts read run phase_ended_session(1) s, of "''blastguardctl''"]
  show ?thesis by blast
qed

section \<open>The client\<close>

text \<open>
  C11: \<open>blastguardctl report --fail-on s\<close>, connected to a daemon: it sends the request for a
  report in the format asked for and nothing else; the daemon answers the bytes it was sent and
  is as before. The client exits with 1 while a phase is active and, after it, exactly when
  \<open>s\<close> is not \<open>none\<close> and some finding is at least that severe, however long the report is; below
  256 KiB it prints the report of the session in that format, and as JSON this parses to the
  findings.
\<close>

theorem ctl_report_exit:
  assumes "connected env K d"
  shows "\<exists>code out sent reply. ctl_main env [prog, ''report'', ''--format'', formatToString fmt,
        ''--fail-on'', severityToString s] = Some (code, out, sent) \<and>
    sent = encode_request (ReportRequest fmt) @ [LF] \<and>
    serve_line (daemon_handlers K) (first_line sent) d = Some (reply, d) \<and>
    (if m_active (m_session d) then code = 1 \<and> out = []
     else code = (if s \<noteq> SevNone \<and> (\<exists>f \<in> set (findings (m_session d)). s \<le> f_severity f) then 1 else 0) \<and>
       (length (reply @ [LF]) < max_line * 4 \<longrightarrow> out = render (m_session d) fmt @ [LF] \<and>
         (fmt = Json \<longrightarrow> parse_json out = Some (report_json (m_session d)))))"
proof -
  obtain reply d' where r: "serve_line (daemon_handlers K) (encode_request (ReportRequest fmt)) d = Some (reply, d')"
    "receives env (encode_request (ReportRequest fmt) @ [LF]) (reply @ [LF])"
    by (rule connected_receives [OF assms report_line])
  from report_exchange [OF r, of prog "s :: severity"] obtain code out where d: "d' = d" and
    c: "ctl_main env [prog, ''report'', ''--format'', formatToString fmt, ''--fail-on'', severityToString s] =
      Some (code, out, encode_request (ReportRequest fmt) @ [LF])"
    "if m_active (m_session d) then code = 1 \<and> out = []
     else code = (if s \<noteq> SevNone \<and> (\<exists>f \<in> set (findings (m_session d)). s \<le> f_severity f) then 1 else 0) \<and>
       (length (reply @ [LF]) < max_line * 4 \<longrightarrow> out = render (m_session d) fmt @ [LF] \<and>
         (fmt = Json \<longrightarrow> parse_json out = Some (report_json (m_session d))))" by blast
  have "serve_line (daemon_handlers K) (first_line (encode_request (ReportRequest fmt) @ [LF])) d = Some (reply, d)"
    unfolding first_line_whole [OF report_line] using r(1) unfolding d .
  with c show ?thesis by blast
qed

lemma ctl_report_exit_witness:
  "\<exists>out. ctl_main (daemon_env run_kernel run_start) [''blastguardctl'', ''report'', ''--format'',
     formatToString Markdown, ''--fail-on'', severityToString SevHigh] =
       Some (0, out, encode_request (ReportRequest Markdown) @ [LF])"
proof -
  have d: "\<not> m_active (m_session run_start)" "findings (m_session run_start) = []"
    by (simp_all add: daemon_init_started(4) [OF run_init] new_session_def findings_def)
  from ctl_report_exit [OF daemon_env_connected [OF run_kernel_ok], of run_start "''blastguardctl''" Markdown SevHigh] d
  show ?thesis by (auto simp del: encode_request.simps)
qed

text \<open>
  C28: The other subcommands, connected to a daemon. Each sends its own request and nothing
  else, and its exit status says what the daemon does with the bytes it was sent. \<open>ping\<close>,
  \<open>end-phase\<close> and \<open>shutdown\<close> exit with 0, and the daemon is as before, or its phase has ended and
  nobody is tracked, or it is about to exit. \<open>start-phase\<close> exits with 0 only if no phase was
  active and one with the name and the process it was given has started anew, with that process
  tracked; with 1 if one was active, and nothing changes, or none is. A phase name must
  neither begin with a dash, which makes it an option to the parser of the client, nor hold a
  line feed, and the request must fit the line the daemon reads.
\<close>

theorem control_request_exit:
  assumes "connected env K d" "kernel_ok K" "wf_request r"
    and "LF \<notin> set (encode_request r)" "length (encode_request r) \<le> max_line"
    and "\<forall>pid phase. r = StartPhaseRequest pid phase \<longrightarrow> \<not> starts_with phase ''-''"
    and "\<forall>fmt. r \<noteq> ReportRequest fmt"
  shows "\<exists>code out sent reply d'. ctl_main env (ctl_line prog r) = Some (code, out, sent) \<and>
    sent = encode_request r @ [LF] \<and>
    serve_line (daemon_handlers K) (first_line sent) d = Some (reply, d') \<and>
    (case r of
       PingRequest \<Rightarrow> code = 0 \<and> out = ''PONG'' @ [LF] \<and> d' = d
     | StartPhaseRequest pid phase \<Rightarrow>
         if code = 0 then out = ''OK'' @ [LF] \<and> \<not> m_active (m_session d) \<and>
           m_session d' = startPhase phase pid new_session \<and> tracked_pids (m_bpf d') pid \<noteq> None
         else code = 1 \<and> out = [] \<and> (m_active (m_session d) \<and> d' = d \<or> \<not> m_active (m_session d'))
     | EndPhaseRequest \<Rightarrow> code = 0 \<and> out = ''OK'' @ [LF] \<and>
         m_session d' = endPhase (m_session d) \<and> tracked_pids (m_bpf d') = Map.empty
     | ReportRequest fmt \<Rightarrow> True
     | ShutdownRequest \<Rightarrow> code = 0 \<and> out = ''OK'' @ [LF] \<and> d' = d\<lparr>m_shouldExit := True\<rparr>)"
  by (rule control_exchange [OF assms])

text \<open>The witness: a phase is active, another is refused, and the phase ends on request.\<close>

lemma control_request_exit_witness:
  "ctl_main (daemon_env run_kernel run_phase) [''blastguardctl'', ''end-phase''] =
     Some (0, ''OK'' @ [LF], ''END-PHASE'' @ [LF]) \<and>
   ctl_main (daemon_env run_kernel run_phase) [''blastguardctl'', ''start-phase'', dec_u32 7, ''ci''] =
     Some (1, [], encode_request (StartPhaseRequest 7 ''ci'') @ [LF])"
proof -
  have e: "encode_request EndPhaseRequest = ''END-PHASE''" by (simp add: wire_words)
  define l where "l = encode_request (StartPhaseRequest 7 ''ci'')"
  have l: "LF \<notin> set l" "length l \<le> max_line"
    by (simp_all add: l_def wire_words max_line_def dec_nat.simps [of 7] char_of_def bit_0)
  have act: "m_active (m_session run_phase)" by (simp add: run_phase_simps startPhase_def)
  note c = control_request_exit [OF daemon_env_connected [OF run_kernel_ok, of run_phase] run_kernel_ok,
      where prog = "''blastguardctl''"]
  show ?thesis
    using c [of EndPhaseRequest] c [of "StartPhaseRequest 7 ''ci''", folded l_def, OF _ l] act
    unfolding l_def [symmetric]
    by (auto simp: e max_line_def starts_with_def split: if_splits simp del: encode_request.simps)
qed

section \<open>Events out of order\<close>



end
